(* ===== verification/Rpc_Prelude.thy ===== *)
theory Rpc_Prelude
  imports Main "HOL-Library.Word" "HOL-Library.Monad_Syntax"
begin

unbundle bit_operations_syntax

text \<open>
  Shared vocabulary of the development: the names of the machine types, bounds-checked access to
  byte buffers, the memory that borrowed views point into, and the generic lemmas on lists, options
  and words that the component theories use.

  A C++ buffer is a byte list. Reading or writing outside it is undefined behaviour; the checked
  primitives \<open>rd\<close> and \<open>wr\<close> return \<open>None\<close> there, so a definition built from them that is shown to be
  \<open>Some\<close> on an input never leaves its buffers on that input.
\<close>

section \<open>Types\<close>

type_synonym byte = "8 word"
type_synonym bytes = "byte list"
type_synonym u16 = "16 word"
type_synonym u32 = "32 word"
type_synonym u64 = "64 word"
type_synonym addr = nat
type_synonym memory = "addr \<Rightarrow> byte"

text \<open>Facts about reads and writes of buffers, about views, and about the laws of a ring buffer.\<close>

named_theorems buf_simps
named_theorems view_simps
named_theorems wire_simps

section \<open>Arithmetic on \<open>size_t\<close>\<close>

definition size_add :: "nat \<Rightarrow> nat \<Rightarrow> nat" where
  "size_add a b = (a + b) mod 2 ^ 64"

lemma size_add_small: "a + b < 2 ^ 64 \<Longrightarrow> size_add a b = a + b"
  by (simp add: size_add_def)

lemma size_add_wrap: "a < 2 ^ 64 \<Longrightarrow> b < 2 ^ 64 \<Longrightarrow> 2 ^ 64 \<le> a + b \<Longrightarrow> size_add a b = a + b - 2 ^ 64"
  by (simp add: size_add_def mod_if)

section \<open>Checked buffer access\<close>

definition rd :: "bytes \<Rightarrow> nat \<Rightarrow> nat \<Rightarrow> bytes option" where
  "rd b off n = (if off + n \<le> length b then Some (take n (drop off b)) else None)"

definition wr :: "bytes \<Rightarrow> nat \<Rightarrow> bytes \<Rightarrow> bytes option" where
  "wr b off xs = (if off + length xs \<le> length b
     then Some (take off b @ xs @ drop (off + length xs) b) else None)"

lemma rd_Some [buf_simps]: "off + n \<le> length b \<Longrightarrow> rd b off n = Some (take n (drop off b))"
  by (simp add: rd_def)

lemma rd_None_iff: "rd b off n = None \<longleftrightarrow> length b < off + n"
  by (auto simp: rd_def)

lemma rd_length: "rd b off n = Some xs \<Longrightarrow> length xs = n"
  by (auto simp: rd_def split: if_splits)

lemma rd_append_mid: "rd (xs @ ys @ zs) (length xs) (length ys) = Some ys"
  by (simp add: rd_def)

lemma rd_append_left [buf_simps]: "off + n \<le> length xs \<Longrightarrow> rd (xs @ ys) off n = rd xs off n"
  by (simp add: rd_def)

lemma rd_append_right [buf_simps]:
  "length xs \<le> off \<Longrightarrow> rd (xs @ ys) off n = rd ys (off - length xs) n"
  by (auto simp: rd_def)

lemma rd_take [buf_simps]: "off + n \<le> m \<Longrightarrow> m \<le> length b \<Longrightarrow> rd (take m b) off n = rd b off n"
  by (auto simp: rd_def drop_take min_def)

lemma rd_drop [buf_simps]: "rd (drop k b) off n = (if k \<le> length b then rd b (k + off) n else if off + n = 0 then Some [] else None)"
  by (auto simp: rd_def add.commute add.left_commute)

text \<open>Filling a zeroed buffer from left to right: each write extends the finished prefix.\<close>

lemma wr_extend:
  "length xs \<le> k \<Longrightarrow> wr (p @ replicate k 0) (length p) xs = Some ((p @ xs) @ replicate (k - length xs) 0)"
  by (simp add: wr_def)

lemma wr_over:
  "n = length p \<Longrightarrow> length xs \<le> length q \<Longrightarrow> wr (p @ q) n xs = Some ((p @ xs) @ drop (length xs) q)"
  by (simp add: wr_def)

lemma wr_length: "wr b off xs = Some b' \<Longrightarrow> length b' = length b"
  by (auto simp: wr_def split: if_splits)

section \<open>Lists and options\<close>

lemma take_drop_append_mid: "take (length ys) (drop (length xs) (xs @ ys @ zs)) = ys"
  by simp

lemma length_eq_4_conv: "length xs = 4 \<longleftrightarrow> (\<exists>a b c d. xs = [a, b, c, d])"
  by (auto simp: numeral_eq_Suc length_Suc_conv)

lemma length_eq_2_conv: "length xs = 2 \<longleftrightarrow> (\<exists>a b. xs = [a, b])"
  by (auto simp: numeral_eq_Suc length_Suc_conv)

lemma bind_Some_iff: "Option.bind x f = Some y \<longleftrightarrow> (\<exists>a. x = Some a \<and> f a = Some y)"
  by (cases x) auto

lemma take_sum_append: "take (a + b) xs = take a xs @ take b (drop a xs)"
  by (simp add: take_add)

lemma concat_replicate_Nil [simp]: "concat (replicate n []) = []"
  by (induction n) auto

section \<open>Words\<close>

lemma unat_of_nat_small16: "n < 65536 \<Longrightarrow> unat (word_of_nat n :: u16) = n"
  by (simp add: unat_of_nat take_bit_nat_eq_self_iff)

lemma unat_of_nat_small32: "n < 4294967296 \<Longrightarrow> unat (word_of_nat n :: u32) = n"
  by (simp add: unat_of_nat take_bit_nat_eq_self_iff)

lemma unat16_bound: "unat (w :: u16) < 65536"
  using unsigned_less [of w] by simp

lemma unat32_bound: "unat (w :: u32) < 4294967296"
  using unsigned_less [of w] by simp

end
