(* ===== verification/Rpc_Base.thy ===== *)
theory Rpc_Base
  imports Rpc_Prelude
begin

unbundle bit_operations_syntax

text \<open>
  Model of \<^verbatim>\<open>src/galay-rpc/protoc/rpc_base.h\<close> and \<^verbatim>\<open>src/galay-rpc/protoc/rpc_error.h\<close>: byte order,
  message types, call modes, the header's flag byte, error codes and the error class.

  The host's byte order is fixed when the program is compiled (\<^verbatim>\<open>std::endian::native\<close>); it is a
  parameter \<open>en\<close> of every definition whose code depends on it. \<open>host_store\<close> and \<open>host_load\<close> are the
  object representation that \<^verbatim>\<open>memcpy\<close> copies out of and into an integer variable.
\<close>

section \<open>Byte order\<close>

datatype endian = Little | Big

definition le_bytes32 :: "u32 \<Rightarrow> bytes" where
  "le_bytes32 v = [ucast v, ucast (drop_bit 8 v), ucast (drop_bit 16 v), ucast (drop_bit 24 v)]"

fun of_le_bytes32 :: "bytes \<Rightarrow> u32" where
  "of_le_bytes32 [a, b, c, d] =
     ucast a OR push_bit 8 (ucast b) OR push_bit 16 (ucast c) OR push_bit 24 (ucast d)"
| "of_le_bytes32 _ = 0"

definition le_bytes16 :: "u16 \<Rightarrow> bytes" where
  "le_bytes16 v = [ucast v, ucast (drop_bit 8 v)]"

fun of_le_bytes16 :: "bytes \<Rightarrow> u16" where
  "of_le_bytes16 [a, b] = ucast a OR push_bit 8 (ucast b)"
| "of_le_bytes16 _ = 0"

definition host_store32 :: "endian \<Rightarrow> u32 \<Rightarrow> bytes" where
  "host_store32 en v = (case en of Little \<Rightarrow> le_bytes32 v | Big \<Rightarrow> rev (le_bytes32 v))"

definition host_load32 :: "endian \<Rightarrow> bytes \<Rightarrow> u32" where
  "host_load32 en bs = (case en of Little \<Rightarrow> of_le_bytes32 bs | Big \<Rightarrow> of_le_bytes32 (rev bs))"

definition host_store16 :: "endian \<Rightarrow> u16 \<Rightarrow> bytes" where
  "host_store16 en v = (case en of Little \<Rightarrow> le_bytes16 v | Big \<Rightarrow> rev (le_bytes16 v))"

definition host_load16 :: "endian \<Rightarrow> bytes \<Rightarrow> u16" where
  "host_load16 en bs = (case en of Little \<Rightarrow> of_le_bytes16 bs | Big \<Rightarrow> of_le_bytes16 (rev bs))"

text \<open>The compiler's \<^verbatim>\<open>__builtin_bswap32\<close> and \<^verbatim>\<open>__builtin_bswap16\<close> reverse the bytes of a value.\<close>

definition builtin_bswap32 :: "u32 \<Rightarrow> u32" where
  "builtin_bswap32 v = of_le_bytes32 (rev (le_bytes32 v))"

definition builtin_bswap16 :: "u16 \<Rightarrow> u16" where
  "builtin_bswap16 v = of_le_bytes16 (rev (le_bytes16 v))"

definition rpcBswap32 :: "endian \<Rightarrow> u32 \<Rightarrow> u32" where
  "rpcBswap32 en v = (if en = Big then v else builtin_bswap32 v)"

definition rpcBswap16 :: "endian \<Rightarrow> u16 \<Rightarrow> u16" where
  "rpcBswap16 en v = (if en = Big then v else builtin_bswap16 v)"

definition rpcHtonl :: "endian \<Rightarrow> u32 \<Rightarrow> u32" where
  "rpcHtonl en host = rpcBswap32 en host"

definition rpcNtohl :: "endian \<Rightarrow> u32 \<Rightarrow> u32" where
  "rpcNtohl en net = rpcBswap32 en net"

definition rpcHtons :: "endian \<Rightarrow> u16 \<Rightarrow> u16" where
  "rpcHtons en host = rpcBswap16 en host"

definition rpcNtohs :: "endian \<Rightarrow> u16 \<Rightarrow> u16" where
  "rpcNtohs en net = rpcBswap16 en net"

text \<open>Network order: the bytes of a value, most significant first.\<close>

definition be32 :: "u32 \<Rightarrow> bytes" where
  "be32 v = rev (le_bytes32 v)"

definition be16 :: "u16 \<Rightarrow> bytes" where
  "be16 v = rev (le_bytes16 v)"

lemma bit_byte_high: "\<not> bit (a :: byte) (8 + n)" "\<not> bit a (16 + n)" "\<not> bit a (24 + n)"
  by (auto dest: bit_imp_le_length)

lemma of_le_bytes32_le_bytes32 [simp]: "of_le_bytes32 (le_bytes32 v) = v"
  unfolding le_bytes32_def of_le_bytes32.simps
proof (rule bit_word_eqI)
  fix n assume "n < LENGTH(32)"
  then consider "n < 8" | "8 \<le> n" "n < 16" | "16 \<le> n" "n < 24" | "24 \<le> n" "n < 32"
    by fastforce
  then show "bit ((ucast (ucast v :: byte) :: u32) OR push_bit 8 (ucast (ucast (drop_bit 8 v) :: byte)) OR
      push_bit 16 (ucast (ucast (drop_bit 16 v) :: byte)) OR
      push_bit 24 (ucast (ucast (drop_bit 24 v) :: byte))) n = bit v n"
    by cases (auto simp: bit_simps)
qed

lemma le_bytes32_of_le_bytes32: "length bs = 4 \<Longrightarrow> le_bytes32 (of_le_bytes32 bs) = bs"
  by (auto simp: length_eq_4_conv le_bytes32_def bit_simps bit_byte_high intro!: bit_word_eqI)

lemma of_le_bytes16_le_bytes16 [simp]: "of_le_bytes16 (le_bytes16 v) = v"
  unfolding le_bytes16_def of_le_bytes16.simps
  by (rule bit_word_eqI) (auto simp: bit_simps)

lemma le_bytes16_of_le_bytes16: "length bs = 2 \<Longrightarrow> le_bytes16 (of_le_bytes16 bs) = bs"
  by (auto simp: length_eq_2_conv le_bytes16_def bit_simps bit_byte_high intro!: bit_word_eqI)

lemma length_le_bytes [simp]: "length (le_bytes32 v) = 4" "length (le_bytes16 w) = 2"
  by (simp_all add: le_bytes32_def le_bytes16_def)

lemma length_be [simp]: "length (be32 v) = 4" "length (be16 w) = 2"
  by (simp_all add: be32_def be16_def)

lemma builtin_bswap32_involutive [simp]: "builtin_bswap32 (builtin_bswap32 v) = v"
  by (simp add: builtin_bswap32_def le_bytes32_of_le_bytes32)

lemma builtin_bswap16_involutive [simp]: "builtin_bswap16 (builtin_bswap16 v) = v"
  by (simp add: builtin_bswap16_def le_bytes16_of_le_bytes16)

text \<open>
  What reaches the wire: storing a value converted with \<^verbatim>\<open>rpcHtonl\<close>/\<^verbatim>\<open>rpcHtons\<close> gives its bytes most
  significant first on either kind of host, and loading them converts back.
\<close>

lemma host_store32_htonl [wire_simps]: "host_store32 en (rpcHtonl en v) = be32 v"
  by (cases en) (simp_all add: host_store32_def rpcHtonl_def rpcBswap32_def builtin_bswap32_def
      be32_def le_bytes32_of_le_bytes32)

lemma host_store16_htons [wire_simps]: "host_store16 en (rpcHtons en v) = be16 v"
  by (cases en) (simp_all add: host_store16_def rpcHtons_def rpcBswap16_def builtin_bswap16_def
      be16_def le_bytes16_of_le_bytes16)

lemma rpcNtohl_host_load32:
  "length bs = 4 \<Longrightarrow> rpcNtohl en (host_load32 en bs) = of_le_bytes32 (rev bs)"
  by (cases en) (simp_all add: host_load32_def rpcNtohl_def rpcBswap32_def builtin_bswap32_def
      le_bytes32_of_le_bytes32)

lemma rpcNtohs_host_load16:
  "length bs = 2 \<Longrightarrow> rpcNtohs en (host_load16 en bs) = of_le_bytes16 (rev bs)"
  by (cases en) (simp_all add: host_load16_def rpcNtohs_def rpcBswap16_def builtin_bswap16_def
      le_bytes16_of_le_bytes16)

definition from_be32 :: "bytes \<Rightarrow> u32" where
  "from_be32 bs = of_le_bytes32 (rev bs)"

definition from_be16 :: "bytes \<Rightarrow> u16" where
  "from_be16 bs = of_le_bytes16 (rev bs)"

lemma from_be_be [simp, wire_simps]: "from_be32 (be32 v) = v" "from_be16 (be16 w) = w"
  by (simp_all add: from_be32_def from_be16_def be32_def be16_def)

lemma be_from_be: "length bs = 4 \<Longrightarrow> be32 (from_be32 bs) = bs"
    "length cs = 2 \<Longrightarrow> be16 (from_be16 cs) = cs"
  by (simp_all add: from_be32_def from_be16_def be32_def be16_def le_bytes32_of_le_bytes32
      le_bytes16_of_le_bytes16)

lemma ntoh_load [wire_simps]:
  "length bs = 4 \<Longrightarrow> rpcNtohl en (host_load32 en bs) = from_be32 bs"
  "length cs = 2 \<Longrightarrow> rpcNtohs en (host_load16 en cs) = from_be16 cs"
  by (simp_all add: rpcNtohl_host_load32 rpcNtohs_host_load16 from_be32_def from_be16_def)

lemma load_htons: "host_load16 en (host_store16 en v) = v"
  by (cases en) (simp_all add: host_load16_def host_store16_def)

section \<open>Message types and call modes\<close>

text \<open>
  A C++ \<^verbatim>\<open>enum class\<close> with a fixed underlying type can hold any value of that type: a \<^verbatim>\<open>static_cast\<close>
  of a byte without a named enumerator is legal. The extra constructors hold those values.
\<close>

datatype RpcMessageType =
    REQUEST | RESPONSE | HEARTBEAT | MSG_ERROR
  | STREAM_INIT | STREAM_INIT_ACK | STREAM_DATA | STREAM_END | STREAM_CANCEL
  | MessageType_other byte

fun msgtype_to_u8 :: "RpcMessageType \<Rightarrow> byte" where
  "msgtype_to_u8 REQUEST = 0x01"
| "msgtype_to_u8 RESPONSE = 0x02"
| "msgtype_to_u8 HEARTBEAT = 0x03"
| "msgtype_to_u8 MSG_ERROR = 0x04"
| "msgtype_to_u8 STREAM_INIT = 0x10"
| "msgtype_to_u8 STREAM_INIT_ACK = 0x11"
| "msgtype_to_u8 STREAM_DATA = 0x12"
| "msgtype_to_u8 STREAM_END = 0x13"
| "msgtype_to_u8 STREAM_CANCEL = 0x14"
| "msgtype_to_u8 (MessageType_other b) = b"

definition named_msgtypes :: "RpcMessageType list" where
  "named_msgtypes = [REQUEST, RESPONSE, HEARTBEAT, MSG_ERROR, STREAM_INIT, STREAM_INIT_ACK,
     STREAM_DATA, STREAM_END, STREAM_CANCEL]"

definition msgtype_of_u8 :: "byte \<Rightarrow> RpcMessageType" where
  "msgtype_of_u8 b = (case List.find (\<lambda>t. msgtype_to_u8 t = b) named_msgtypes of
     Some t \<Rightarrow> t | None \<Rightarrow> MessageType_other b)"

lemma msgtype_to_of_u8 [simp]: "msgtype_to_u8 (msgtype_of_u8 b) = b"
  by (auto simp: msgtype_of_u8_def find_Some_iff split: option.split)

lemma msgtype_of_to_u8: "t \<in> set named_msgtypes \<Longrightarrow> msgtype_of_u8 (msgtype_to_u8 t) = t"
  by (auto simp: named_msgtypes_def msgtype_of_u8_def)

lemma msgtype_to_u8_eq_iff:
  "t \<in> set named_msgtypes \<Longrightarrow> msgtype_of_u8 b = t \<longleftrightarrow> b = msgtype_to_u8 t"
  by (metis msgtype_of_to_u8 msgtype_to_of_u8)

datatype RpcCallMode = UNARY | CLIENT_STREAMING | SERVER_STREAMING | BIDI_STREAMING

text \<open>Call modes form a finite type, so statements about all of them can be evaluated.\<close>

instantiation RpcCallMode :: enum
begin

definition enum_RpcCallMode :: "RpcCallMode list" where
  "enum_RpcCallMode = [UNARY, CLIENT_STREAMING, SERVER_STREAMING, BIDI_STREAMING]"

definition enum_all_RpcCallMode :: "(RpcCallMode \<Rightarrow> bool) \<Rightarrow> bool" where
  "enum_all_RpcCallMode P \<longleftrightarrow> P UNARY \<and> P CLIENT_STREAMING \<and> P SERVER_STREAMING \<and> P BIDI_STREAMING"

definition enum_ex_RpcCallMode :: "(RpcCallMode \<Rightarrow> bool) \<Rightarrow> bool" where
  "enum_ex_RpcCallMode P \<longleftrightarrow> P UNARY \<or> P CLIENT_STREAMING \<or> P SERVER_STREAMING \<or> P BIDI_STREAMING"

instance
proof
  have univ: "(UNIV :: RpcCallMode set) = {UNARY, CLIENT_STREAMING, SERVER_STREAMING, BIDI_STREAMING}"
    using RpcCallMode.exhaust by auto
  show "(UNIV :: RpcCallMode set) = set enum_class.enum"
    by (simp add: univ enum_RpcCallMode_def)
  show "distinct (enum_class.enum :: RpcCallMode list)"
    by (simp add: enum_RpcCallMode_def)
  show "enum_class.enum_all P = Ball UNIV P" "enum_class.enum_ex P = Bex UNIV P"
    for P :: "RpcCallMode \<Rightarrow> bool"
    by (simp_all add: univ enum_all_RpcCallMode_def enum_ex_RpcCallMode_def)
qed

end

fun callmode_to_u8 :: "RpcCallMode \<Rightarrow> byte" where
  "callmode_to_u8 UNARY = 0"
| "callmode_to_u8 CLIENT_STREAMING = 1"
| "callmode_to_u8 SERVER_STREAMING = 2"
| "callmode_to_u8 BIDI_STREAMING = 3"

section \<open>The flag byte\<close>

definition RPC_FLAG_MODE_MASK :: byte where
  "RPC_FLAG_MODE_MASK = 0x03"

definition RPC_FLAG_END_STREAM :: byte where
  "RPC_FLAG_END_STREAM = 0x04"

definition rpcEncodeFlags :: "RpcCallMode \<Rightarrow> bool \<Rightarrow> byte" where
  "rpcEncodeFlags mode end_stream =
     (let flags = callmode_to_u8 mode AND RPC_FLAG_MODE_MASK
      in if end_stream then flags OR RPC_FLAG_END_STREAM else flags)"

text \<open>The masked value is below 4, so every result of the cast has a named enumerator.\<close>

definition rpcDecodeCallMode :: "byte \<Rightarrow> RpcCallMode" where
  "rpcDecodeCallMode flags =
     (let v = flags AND RPC_FLAG_MODE_MASK
      in if v = 0 then UNARY else if v = 1 then CLIENT_STREAMING
         else if v = 2 then SERVER_STREAMING else BIDI_STREAMING)"

definition rpcIsEndStream :: "byte \<Rightarrow> bool" where
  "rpcIsEndStream flags \<longleftrightarrow> (flags AND RPC_FLAG_END_STREAM) \<noteq> 0"

definition rpcSetEndStreamFlag :: "byte \<Rightarrow> bool \<Rightarrow> byte" where
  "rpcSetEndStreamFlag flags end_stream =
     (if end_stream then flags OR RPC_FLAG_END_STREAM else flags AND NOT RPC_FLAG_END_STREAM)"

lemma decode_mode_encode_flags [simp, wire_simps]: "rpcDecodeCallMode (rpcEncodeFlags mode e) = mode"
  by (cases mode; cases e) (simp_all add: rpcEncodeFlags_def rpcDecodeCallMode_def
      RPC_FLAG_MODE_MASK_def RPC_FLAG_END_STREAM_def)

lemma is_end_encode_flags [simp, wire_simps]: "rpcIsEndStream (rpcEncodeFlags mode e) = e"
  by (cases mode; cases e) (simp_all add: rpcEncodeFlags_def rpcIsEndStream_def
      RPC_FLAG_MODE_MASK_def RPC_FLAG_END_STREAM_def)

lemma bit_end_stream_mask: "bit RPC_FLAG_END_STREAM n \<longleftrightarrow> n = 2"
proof -
  have mask: "RPC_FLAG_END_STREAM = push_bit 2 1" by (simp add: RPC_FLAG_END_STREAM_def)
  show ?thesis unfolding mask by (simp only: bit_push_bit_iff bit_1_iff) auto
qed

lemma rpcIsEndStream_iff_bit: "rpcIsEndStream f \<longleftrightarrow> bit f 2"
proof -
  have "f AND RPC_FLAG_END_STREAM = 0 \<longleftrightarrow> (\<forall>n. \<not> bit (f AND RPC_FLAG_END_STREAM) n)"
    by (metis bit_eqI bit_0_eq bot_apply bot_bool_def)
  then show ?thesis
    by (simp add: rpcIsEndStream_def bit_and_iff bit_end_stream_mask)
qed

lemma set_end_stream_bits:
  "bit (rpcSetEndStreamFlag f e) n \<longleftrightarrow> (if n = 2 then e else bit f n)"
  by (cases "n < 8")
    (auto simp: rpcSetEndStreamFlag_def bit_simps bit_end_stream_mask dest: bit_imp_le_length)

lemma is_end_set_end_stream: "rpcIsEndStream (rpcSetEndStreamFlag f e) = e"
  by (simp add: rpcIsEndStream_iff_bit set_end_stream_bits)

lemma mode_mask_set_end_stream:
  "rpcSetEndStreamFlag f e AND RPC_FLAG_MODE_MASK = f AND RPC_FLAG_MODE_MASK"
proof (rule bit_word_eqI)
  fix n assume "n < LENGTH(8)"
  have "\<not> bit RPC_FLAG_MODE_MASK 2"
    by (simp add: RPC_FLAG_MODE_MASK_def)
  then show "bit (rpcSetEndStreamFlag f e AND RPC_FLAG_MODE_MASK) n = bit (f AND RPC_FLAG_MODE_MASK) n"
    by (auto simp: bit_simps set_end_stream_bits)
qed

section \<open>Error codes\<close>

datatype RpcErrorCode =
    OK | UNKNOWN_ERROR | SERVICE_NOT_FOUND | METHOD_NOT_FOUND | INVALID_REQUEST
  | INVALID_RESPONSE | REQUEST_TIMEOUT | CONNECTION_CLOSED | SERIALIZATION_ERROR
  | DESERIALIZATION_ERROR | INTERNAL_ERROR | ErrorCode_other u16

fun errorcode_to_u16 :: "RpcErrorCode \<Rightarrow> u16" where
  "errorcode_to_u16 OK = 0"
| "errorcode_to_u16 UNKNOWN_ERROR = 1"
| "errorcode_to_u16 SERVICE_NOT_FOUND = 2"
| "errorcode_to_u16 METHOD_NOT_FOUND = 3"
| "errorcode_to_u16 INVALID_REQUEST = 4"
| "errorcode_to_u16 INVALID_RESPONSE = 5"
| "errorcode_to_u16 REQUEST_TIMEOUT = 6"
| "errorcode_to_u16 CONNECTION_CLOSED = 7"
| "errorcode_to_u16 SERIALIZATION_ERROR = 8"
| "errorcode_to_u16 DESERIALIZATION_ERROR = 9"
| "errorcode_to_u16 INTERNAL_ERROR = 10"
| "errorcode_to_u16 (ErrorCode_other w) = w"

definition named_errorcodes :: "RpcErrorCode list" where
  "named_errorcodes = [OK, UNKNOWN_ERROR, SERVICE_NOT_FOUND, METHOD_NOT_FOUND, INVALID_REQUEST,
     INVALID_RESPONSE, REQUEST_TIMEOUT, CONNECTION_CLOSED, SERIALIZATION_ERROR,
     DESERIALIZATION_ERROR, INTERNAL_ERROR]"

definition errorcode_of_u16 :: "u16 \<Rightarrow> RpcErrorCode" where
  "errorcode_of_u16 w = (case List.find (\<lambda>c. errorcode_to_u16 c = w) named_errorcodes of
     Some c \<Rightarrow> c | None \<Rightarrow> ErrorCode_other w)"

text \<open>An enumerator or an unnamed value, never a second name for a named one.\<close>

definition errorcode_canonical :: "RpcErrorCode \<Rightarrow> bool" where
  "errorcode_canonical c \<longleftrightarrow> errorcode_of_u16 (errorcode_to_u16 c) = c"

lemma errorcode_to_of_u16 [simp]: "errorcode_to_u16 (errorcode_of_u16 w) = w"
  by (auto simp: errorcode_of_u16_def find_Some_iff split: option.split)

lemma errorcode_of_u16_canonical [simp]: "errorcode_canonical (errorcode_of_u16 w)"
  by (simp add: errorcode_canonical_def)

lemma named_errorcode_canonical: "c \<in> set named_errorcodes \<Longrightarrow> errorcode_canonical c"
  by (auto simp: named_errorcodes_def errorcode_canonical_def errorcode_of_u16_def)

fun rpcErrorCodeToString :: "RpcErrorCode \<Rightarrow> string" where
  "rpcErrorCodeToString OK = ''OK''"
| "rpcErrorCodeToString UNKNOWN_ERROR = ''Unknown error''"
| "rpcErrorCodeToString SERVICE_NOT_FOUND = ''Service not found''"
| "rpcErrorCodeToString METHOD_NOT_FOUND = ''Method not found''"
| "rpcErrorCodeToString INVALID_REQUEST = ''Invalid request''"
| "rpcErrorCodeToString INVALID_RESPONSE = ''Invalid response''"
| "rpcErrorCodeToString REQUEST_TIMEOUT = ''Request timeout''"
| "rpcErrorCodeToString CONNECTION_CLOSED = ''Connection closed''"
| "rpcErrorCodeToString SERIALIZATION_ERROR = ''Serialization error''"
| "rpcErrorCodeToString DESERIALIZATION_ERROR = ''Deserialization error''"
| "rpcErrorCodeToString INTERNAL_ERROR = ''Internal error''"
| "rpcErrorCodeToString (ErrorCode_other w) = ''Unknown''"

section \<open>Protocol constants\<close>

definition RPC_MAGIC :: u32 where
  "RPC_MAGIC = 0x47525043"

definition RPC_VERSION :: byte where
  "RPC_VERSION = 0x01"

definition RPC_HEADER_SIZE :: nat where
  "RPC_HEADER_SIZE = 16"

definition RPC_MAX_BODY_SIZE :: nat where
  "RPC_MAX_BODY_SIZE = 16 * 1024 * 1024"

lemma header_size_eq [simp]: "RPC_HEADER_SIZE = 16"
  by (simp add: RPC_HEADER_SIZE_def)

lemma max_body_eq: "RPC_MAX_BODY_SIZE = 16777216"
  by (simp add: RPC_MAX_BODY_SIZE_def)

section \<open>Errors\<close>

text \<open>
  \<^verbatim>\<open>kernel::IOError\<close> belongs to galay-kernel. The code of this repository observes three things of it:
  whether its code contains the timeout flag, whether it contains the disconnect flag, and its
  message. A value stands for those three observations.
\<close>

record IOError =
  ioe_timeout :: bool
  ioe_disconnect :: bool
  ioe_message :: string

record RpcError =
  err_code :: RpcErrorCode
  err_message :: string

definition RpcError_default :: RpcError where
  "RpcError_default = \<lparr>err_code = OK, err_message = []\<rparr>"

definition RpcError_of_code :: "RpcErrorCode \<Rightarrow> RpcError" where
  "RpcError_of_code code = \<lparr>err_code = code, err_message = rpcErrorCodeToString code\<rparr>"

definition mkRpcError :: "RpcErrorCode \<Rightarrow> string \<Rightarrow> RpcError" where
  "mkRpcError code message = \<lparr>err_code = code, err_message = message\<rparr>"

definition RpcError_isOk :: "RpcError \<Rightarrow> bool" where
  "RpcError_isOk e \<longleftrightarrow> err_code e = OK"

definition RpcError_bool :: "RpcError \<Rightarrow> bool" where
  "RpcError_bool e \<longleftrightarrow> \<not> RpcError_isOk e"

definition RpcError_from :: "IOError \<Rightarrow> RpcErrorCode \<Rightarrow> RpcError" where
  "RpcError_from io_error default_code =
     (if ioe_timeout io_error then mkRpcError REQUEST_TIMEOUT (ioe_message io_error)
      else if ioe_disconnect io_error then mkRpcError CONNECTION_CLOSED (ioe_message io_error)
      else mkRpcError default_code (ioe_message io_error))"

definition RpcError_toString :: "RpcError \<Rightarrow> string" where
  "RpcError_toString e = rpcErrorCodeToString (err_code e) @ '': '' @ err_message e"

lemma mkRpcError_code [simp]: "err_code (mkRpcError c m) = c" "err_message (mkRpcError c m) = m"
  by (simp_all add: mkRpcError_def)

lemma RpcError_from_not_ok: "d \<noteq> OK \<Longrightarrow> RpcError_bool (RpcError_from io d)"
  by (simp add: RpcError_bool_def RpcError_isOk_def RpcError_from_def)

end
