(* ===== verification/Rpc_View.thy ===== *)
theory Rpc_View
  imports Rpc_Base
begin

text \<open>
  Pointers, borrowed payload views and the ownership contract of message payloads
  (\<^verbatim>\<open>RpcPayloadView\<close> of \<^verbatim>\<open>src/galay-rpc/protoc/rpc_message.h\<close> and the members \<^verbatim>\<open>m_payload\<close>,
  \<^verbatim>\<open>m_payload_view\<close>, \<^verbatim>\<open>m_payload_owned\<close> that the request, response and stream message classes share).

  A pointer into a buffer that an object owns (a vector, a string, a header array) carries that
  buffer's contents and an offset: such buffers are not written while a view of them is in use. A
  pointer into receive memory is an address of \<^typ>\<open>memory\<close>, which later reads overwrite, so a claim
  about a borrowed view names the memory it is read in; and it carries the number of bytes that may
  be accessed from there, the rest of the segment it was made from. An access of more bytes than a
  pointer has behind it is undefined: \<open>rdp\<close> is \<open>None\<close> there.
\<close>

section \<open>Pointers\<close>

datatype ptr = Null | Buf bytes nat | Mem addr nat

fun ptr_add :: "ptr \<Rightarrow> nat \<Rightarrow> ptr" where
  "ptr_add Null n = Null"
| "ptr_add (Buf b off) n = Buf b (off + n)"
| "ptr_add (Mem a room) n = Mem (a + n) (room - n)"

fun ptr_ok :: "ptr \<Rightarrow> nat \<Rightarrow> bool" where
  "ptr_ok Null n \<longleftrightarrow> n = 0"
| "ptr_ok (Buf b off) n \<longleftrightarrow> off + n \<le> length b"
| "ptr_ok (Mem a room) n \<longleftrightarrow> n \<le> room"

fun deref :: "memory \<Rightarrow> ptr \<Rightarrow> nat \<Rightarrow> bytes" where
  "deref mem Null n = []"
| "deref mem (Buf b off) n = take n (drop off b)"
| "deref mem (Mem a room) n = map mem [a..<a + n]"

definition rdp :: "memory \<Rightarrow> ptr \<Rightarrow> nat \<Rightarrow> bytes option" where
  "rdp mem p n = (if ptr_ok p n then Some (deref mem p n) else None)"

lemma rdp_Some [view_simps]: "ptr_ok p n \<Longrightarrow> rdp mem p n = Some (deref mem p n)"
  by (simp add: rdp_def)

lemma length_deref [view_simps]: "ptr_ok p n \<Longrightarrow> length (deref mem p n) = n"
  by (cases p) auto

lemma deref_zero [simp]: "deref mem p 0 = []"
  by (cases p) auto

lemma ptr_ok_zero [simp]: "ptr_ok p n \<Longrightarrow> ptr_ok p 0"
  by (cases p) auto

lemma ptr_ok_mono: "ptr_ok p n \<Longrightarrow> m \<le> n \<Longrightarrow> ptr_ok p m"
  by (cases p) auto

lemma ptr_ok_add: "ptr_ok p n \<Longrightarrow> k \<le> n \<Longrightarrow> ptr_ok (ptr_add p k) (n - k)"
  by (cases p) auto

lemma deref_add: "ptr_ok p n \<Longrightarrow> k \<le> n \<Longrightarrow> deref mem (ptr_add p k) (n - k) = drop k (deref mem p n)"
  by (cases p) (auto simp: drop_map add.commute drop_take)

lemma deref_take: "ptr_ok p n \<Longrightarrow> m \<le> n \<Longrightarrow> deref mem p m = take m (deref mem p n)"
  by (cases p) (auto simp: take_map)

lemma deref_slice:
  assumes "ptr_ok p n" "k + m \<le> n"
  shows "deref mem (ptr_add p k) m = take m (drop k (deref mem p n))"
proof -
  have "deref mem (ptr_add p k) m = take m (deref mem (ptr_add p k) (n - k))"
    using assms by (intro deref_take ptr_ok_add) auto
  then show ?thesis using assms by (simp add: deref_add)
qed

section \<open>Payload views\<close>

record RpcPayloadView =
  segment1 :: ptr
  segment1_len :: nat
  segment2 :: ptr
  segment2_len :: nat

definition RpcPayloadView_init :: RpcPayloadView where
  "RpcPayloadView_init = \<lparr>segment1 = Null, segment1_len = 0, segment2 = Null, segment2_len = 0\<rparr>"

definition view_size :: "RpcPayloadView \<Rightarrow> nat" where
  "view_size v = segment1_len v + segment2_len v"

definition view_empty :: "RpcPayloadView \<Rightarrow> bool" where
  "view_empty v \<longleftrightarrow> view_size v = 0"

definition own_view :: "bytes \<Rightarrow> RpcPayloadView" where
  "own_view b = \<lparr>segment1 = Buf b 0, segment1_len = length b, segment2 = Null, segment2_len = 0\<rparr>"

definition view_ok :: "RpcPayloadView \<Rightarrow> bool" where
  "view_ok v \<longleftrightarrow> ptr_ok (segment1 v) (segment1_len v) \<and> ptr_ok (segment2 v) (segment2_len v)"

definition view_bytes :: "memory \<Rightarrow> RpcPayloadView \<Rightarrow> bytes" where
  "view_bytes mem v =
     deref mem (segment1 v) (segment1_len v) @ deref mem (segment2 v) (segment2_len v)"

lemma view_init [view_simps]: "view_ok RpcPayloadView_init" "view_bytes mem RpcPayloadView_init = []"
    "view_size RpcPayloadView_init = 0"
  by (simp_all add: RpcPayloadView_init_def view_ok_def view_bytes_def view_size_def)

lemma view_own [view_simps]: "view_ok (own_view b)" "view_bytes mem (own_view b) = b"
    "view_size (own_view b) = length b"
  by (simp_all add: own_view_def view_ok_def view_bytes_def view_size_def)

lemma length_view_bytes [view_simps]: "view_ok v \<Longrightarrow> length (view_bytes mem v) = view_size v"
  by (simp add: view_ok_def view_bytes_def view_size_def length_deref)

text \<open>
  The two guarded copies that serialisation and materialisation end with: the first segment at the
  offset, the second right after it.
\<close>

definition copy_segments :: "memory \<Rightarrow> RpcPayloadView \<Rightarrow> bytes \<Rightarrow> nat \<Rightarrow> bytes option" where
  "copy_segments mem v b off = do {
     (b, off) \<leftarrow> (if segment1_len v > 0
        then do { s \<leftarrow> rdp mem (segment1 v) (segment1_len v);
                  b' \<leftarrow> wr b off s;
                  Some (b', off + segment1_len v) }
        else Some (b, off));
     if segment2_len v > 0
     then do { s \<leftarrow> rdp mem (segment2 v) (segment2_len v); wr b off s }
     else Some b }"

lemma copy_segments_extend [view_simps]:
  assumes "view_ok v" "view_size v \<le> k"
  shows "copy_segments mem v (p @ replicate k 0) (length p) =
    Some (p @ view_bytes mem v @ replicate (k - view_size v) 0)"
proof -
  let ?s1 = "deref mem (segment1 v) (segment1_len v)" and ?s2 = "deref mem (segment2 v) (segment2_len v)"
  have ok: "ptr_ok (segment1 v) (segment1_len v)" "ptr_ok (segment2 v) (segment2_len v)"
    using assms by (auto simp: view_ok_def)
  have len: "length ?s1 = segment1_len v" "length ?s2 = segment2_len v"
    using ok by (simp_all add: length_deref)
  have w1: "wr (p @ replicate k 0) (length p) ?s1 = Some ((p @ ?s1) @ replicate (k - segment1_len v) 0)"
    using wr_extend [of ?s1 k p] assms len by (simp add: view_size_def)
  have w2: "wr ((p @ ?s1) @ replicate (k - segment1_len v) 0) (length (p @ ?s1)) ?s2 =
      Some (((p @ ?s1) @ ?s2) @ replicate (k - segment1_len v - segment2_len v) 0)"
    using wr_extend [of ?s2 "k - segment1_len v" "p @ ?s1"] assms len by (simp add: view_size_def)
  show ?thesis
    using ok w1 w2 len
    by (auto simp: copy_segments_def rdp_Some view_bytes_def view_size_def)
qed

text \<open>\<^verbatim>\<open>std::vector::resize\<close>: keep what fits, fill with zeros.\<close>

definition resize :: "bytes \<Rightarrow> nat \<Rightarrow> bytes" where
  "resize b n = take n b @ replicate (n - length b) 0"

section \<open>The ownership contract of a message payload\<close>

text \<open>
  What the three message classes promise: the size and the view follow the mode, switching mode
  replaces the payload, and materialising copies a borrowed view into owned storage.
\<close>

locale payload_carrier =
  fixes owned :: "'m \<Rightarrow> bool"
    and stored :: "'m \<Rightarrow> bytes"
    and borrowed :: "'m \<Rightarrow> RpcPayloadView"
    and payload_size :: "'m \<Rightarrow> nat"
    and payload_view :: "'m \<Rightarrow> RpcPayloadView"
    and materialize :: "memory \<Rightarrow> 'm \<Rightarrow> 'm option"
    and set_owned :: "bytes \<Rightarrow> 'm \<Rightarrow> 'm"
    and set_view :: "RpcPayloadView \<Rightarrow> 'm \<Rightarrow> 'm"
  assumes size_law: "payload_size m = (if owned m then length (stored m) else view_size (borrowed m))"
    and view_law: "payload_view m = (if owned m then own_view (stored m) else borrowed m)"
    and materialize_owned: "owned m \<Longrightarrow> materialize mem m = Some m"
    and materialize_borrowed: "\<not> owned m \<Longrightarrow> view_ok (borrowed m) \<Longrightarrow>
      \<exists>m'. materialize mem m = Some m' \<and> owned m' \<and> stored m' = view_bytes mem (borrowed m)"
    and set_owned_law: "owned (set_owned b m)" "stored (set_owned b m) = b"
    and set_view_law: "\<not> owned (set_view v m)" "borrowed (set_view v m) = v" "stored (set_view v m) = []"
begin

lemma size_is_length:
  "view_ok (payload_view m) \<Longrightarrow> payload_size m = length (view_bytes mem (payload_view m))"
  by (cases "owned m") (auto simp: size_law view_law view_simps)

lemma bytes_after_set: "view_bytes mem (payload_view (set_owned b m)) = b"
  by (simp add: view_law set_owned_law view_simps)

lemma bytes_after_borrow: "view_bytes mem (payload_view (set_view v m)) = view_bytes mem v"
  by (simp add: view_law set_view_law)

lemma materialize_bytes:
  assumes "view_ok (payload_view m)"
  obtains m' where "materialize mem m = Some m'" "owned m'"
    "stored m' = view_bytes mem (payload_view m)"
proof (cases "owned m")
  case True
  then show ?thesis
    using that materialize_owned [of m mem] by (simp add: view_law view_simps)
next
  case False
  then show ?thesis
    using that materialize_borrowed [of m mem] assms by (auto simp: view_law)
qed

text \<open>A materialised payload no longer depends on the memory it was borrowed from.\<close>

lemma materialize_stable:
  assumes "view_ok v" "materialize mem (set_view v m) = Some m'"
  shows "view_bytes mem' (payload_view m') = view_bytes mem v"
proof -
  have "view_ok (payload_view (set_view v m))"
    using assms by (simp add: view_law set_view_law)
  then obtain m'' where "materialize mem (set_view v m) = Some m''" "owned m''"
      "stored m'' = view_bytes mem (payload_view (set_view v m))"
    using materialize_bytes [of "set_view v m" mem] set_view_law by metis
  then show ?thesis
    using assms by (auto simp: view_law set_view_law view_simps)
qed

lemma materialize_idem:
  assumes "view_ok v" "materialize mem (set_view v m) = Some m'"
  shows "materialize mem' m' = Some m'"
proof -
  have "\<exists>m'. materialize mem (set_view v m) = Some m' \<and> owned m' \<and> stored m' = view_bytes mem v"
    using materialize_borrowed [of "set_view v m" mem] assms(1) by (simp add: set_view_law)
  then show ?thesis using assms(2) by (auto intro: materialize_owned)
qed

end

end
