(* ===== verification/Rpc_Iovec.thy ===== *)
theory Rpc_Iovec
  imports Rpc_View
begin

text \<open>
  Scatter/gather arrays: the helpers of \<^verbatim>\<open>src/galay-rpc/kernel/rpc_conn.h\<close> that read a message spread
  over the segments of a ring buffer, and the one of \<^verbatim>\<open>src/galay-rpc/kernel/rpc_await.h\<close> that drops
  what a partial write has sent. The reference is the concatenation \<open>iovs_bytes\<close> of the segments.
\<close>

record iovec =
  iov_base :: ptr
  iov_len :: nat

definition mk_iovec :: "ptr \<Rightarrow> nat \<Rightarrow> iovec" where
  "mk_iovec base len = \<lparr>iov_base = base, iov_len = len\<rparr>"

definition iov_bytes :: "memory \<Rightarrow> iovec \<Rightarrow> bytes" where
  "iov_bytes mem iov = deref mem (iov_base iov) (iov_len iov)"

definition iovs_bytes :: "memory \<Rightarrow> iovec list \<Rightarrow> bytes" where
  "iovs_bytes mem iovs = concat (map (iov_bytes mem) iovs)"

definition iov_ok :: "iovec \<Rightarrow> bool" where
  "iov_ok iov \<longleftrightarrow> ptr_ok (iov_base iov) (iov_len iov)"

definition iovs_ok :: "iovec list \<Rightarrow> bool" where
  "iovs_ok iovs \<longleftrightarrow> (\<forall>iov \<in> set iovs. iov_ok iov)"

lemma mk_iovec_sel [simp]: "iov_base (mk_iovec b n) = b" "iov_len (mk_iovec b n) = n"
  by (simp_all add: mk_iovec_def)

lemma length_iov_bytes [view_simps]: "iov_ok iov \<Longrightarrow> length (iov_bytes mem iov) = iov_len iov"
  by (simp add: iov_ok_def iov_bytes_def length_deref)

lemma iovs_bytes_simps [simp]: "iovs_bytes mem [] = []"
    "iovs_bytes mem (iov # iovs) = iov_bytes mem iov @ iovs_bytes mem iovs"
    "iovs_bytes mem (xs @ ys) = iovs_bytes mem xs @ iovs_bytes mem ys"
  by (simp_all add: iovs_bytes_def)

lemma iovs_ok_simps [simp]: "iovs_ok []" "iovs_ok (iov # iovs) \<longleftrightarrow> iov_ok iov \<and> iovs_ok iovs"
    "iovs_ok (xs @ ys) \<longleftrightarrow> iovs_ok xs \<and> iovs_ok ys"
  by (auto simp: iovs_ok_def)

section \<open>Counting and copying\<close>

fun iovecsReadableBytes_loop :: "iovec list \<Rightarrow> nat \<Rightarrow> nat" where
  "iovecsReadableBytes_loop [] sum_len = sum_len"
| "iovecsReadableBytes_loop (iov # iovs) sum_len = iovecsReadableBytes_loop iovs (sum_len + iov_len iov)"

definition iovecsReadableBytes :: "iovec list \<Rightarrow> nat" where
  "iovecsReadableBytes iovecs = iovecsReadableBytes_loop iovecs 0"

lemma readable_loop_acc:
  "iovecsReadableBytes_loop iovs n = n + iovecsReadableBytes_loop iovs 0"
proof (induction iovs arbitrary: n)
  case (Cons iov iovs)
  show ?case
    using Cons.IH [of "n + iov_len iov"] Cons.IH [of "iov_len iov"] by simp
qed simp

lemma readable_Cons: "iovecsReadableBytes (iov # iovs) = iov_len iov + iovecsReadableBytes iovs"
  using readable_loop_acc [of iovs "iov_len iov"] by (simp add: iovecsReadableBytes_def)

lemma readable_Nil [simp]: "iovecsReadableBytes [] = 0"
  by (simp add: iovecsReadableBytes_def)

lemma readable_length: "iovs_ok iovs \<Longrightarrow> length (iovs_bytes mem iovs) = iovecsReadableBytes iovs"
  by (induction iovs) (simp_all add: readable_Cons length_iov_bytes)

text \<open>
  \<open>out\<close> is the destination buffer. Each \<^verbatim>\<open>memcpy\<close> reads its source segment and writes the destination
  at \<open>copied\<close>; it is undefined when either is too short.
\<close>

fun copyFromIovecs_loop ::
  "memory \<Rightarrow> iovec list \<Rightarrow> bytes \<Rightarrow> nat \<Rightarrow> nat \<Rightarrow> nat \<Rightarrow> (bytes \<times> nat) option" where
  "copyFromIovecs_loop mem [] out copied offset n = Some (out, copied)"
| "copyFromIovecs_loop mem (iov # iovs) out copied offset n =
     (if copied \<ge> n then Some (out, copied)
      else if offset \<ge> iov_len iov
        then copyFromIovecs_loop mem iovs out copied (offset - iov_len iov) n
      else do {
        let available = iov_len iov - offset;
        let to_copy = min available (n - copied);
        s \<leftarrow> rdp mem (ptr_add (iov_base iov) offset) to_copy;
        out \<leftarrow> wr out copied s;
        copyFromIovecs_loop mem iovs out (copied + to_copy) 0 n })"

text \<open>The result is the return value and the destination buffer afterwards.\<close>

definition copyFromIovecs ::
  "memory \<Rightarrow> iovec list \<Rightarrow> nat \<Rightarrow> bytes \<Rightarrow> nat \<Rightarrow> (bool \<times> bytes) option" where
  "copyFromIovecs mem iovecs src_offset out n = do {
     (out, copied) \<leftarrow> copyFromIovecs_loop mem iovecs out 0 src_offset n;
     Some (copied = n, out) }"

lemma copy_loop_length: "copyFromIovecs_loop mem iovs out copied off n = Some (out', c) \<Longrightarrow> length out' = length out"
  by (induction mem iovs out copied off n rule: copyFromIovecs_loop.induct)
     (auto simp: Let_def bind_eq_Some_conv wr_length split: if_splits)

lemma copyFromIovecs_length: "copyFromIovecs mem iovs off out n = Some (ok, out') \<Longrightarrow> length out' = length out"
  by (auto simp: copyFromIovecs_def bind_eq_Some_conv copy_loop_length)

lemma copy_loop_eq:
  assumes "iovs_ok iovs" "n \<le> length (p @ q)"
  shows "copyFromIovecs_loop mem iovs (p @ q) (length p) off n =
    (let s = take (n - length p) (drop off (iovs_bytes mem iovs))
     in Some (p @ s @ drop (length s) q, length p + length s))"
  using assms
proof (induction iovs arbitrary: p q off)
  case (Cons iov iovs)
  let ?b = "iov_bytes mem iov"
  have ok: "iov_ok iov" "iovs_ok iovs" using Cons.prems by auto
  have len: "length ?b = iov_len iov" using ok by (simp add: length_iov_bytes)
  consider "n \<le> length p" | "\<not> n \<le> length p" "iov_len iov \<le> off" | "\<not> n \<le> length p" "off < iov_len iov"
    by linarith
  then show ?case
  proof cases
    case 2
    then show ?thesis using Cons.IH [OF ok(2) Cons.prems(2)] len by simp
  next
    case 3
    define k where "k = min (iov_len iov - off) (n - length p)"
    define s where "s = take k (drop off ?b)"
    have k: "k \<le> iov_len iov - off" "k \<le> n - length p" "length s = k"
      using len by (auto simp: k_def s_def)
    have "ptr_ok (ptr_add (iov_base iov) off) k"
      using ok 3 k ptr_ok_mono [OF ptr_ok_add [of "iov_base iov" "iov_len iov" off]]
      by (simp add: iov_ok_def)
    moreover have "deref mem (ptr_add (iov_base iov) off) k = s"
      using deref_slice [of "iov_base iov" "iov_len iov" off k mem] ok 3 k
      by (simp add: iov_ok_def iov_bytes_def s_def)
    ultimately have r: "rdp mem (ptr_add (iov_base iov) off) k = Some s" by (simp add: rdp_Some)
    have w: "wr (p @ q) (length p) s = Some ((p @ s) @ drop k q)"
      using wr_over [of "length p" p s q] k Cons.prems(2) by simp
    have fit: "n \<le> length ((p @ s) @ drop k q)" using Cons.prems(2) k by simp
    have t: "take (n - length p) (drop off (iovs_bytes mem (iov # iovs))) =
        s @ take (n - (length p + k)) (iovs_bytes mem iovs)"
      using len 3 by (auto simp: k_def s_def min_def)
    show ?thesis
      unfolding t using 3 r w k Cons.IH [OF ok(2) fit, of 0]
      by (simp add: Let_def k_def [symmetric] add.assoc add.commute [of k])
  qed (simp add: Let_def)
qed (simp add: Let_def)

text \<open>
  A copy stays inside both buffers whenever the destination has room for the bytes asked for; it then
  replaces the front of the destination by what the segments hold at the offset.
\<close>

lemma copyFromIovecs_into:
  assumes "iovs_ok iovs" "n \<le> length out"
  shows "copyFromIovecs mem iovs off out n =
    (let s = take n (drop off (iovs_bytes mem iovs)) in
     Some (n = 0 \<or> off + n \<le> iovecsReadableBytes iovs, s @ drop (length s) out))"
  using copy_loop_eq [of iovs n "[]" out mem off] assms readable_length [OF assms(1), of mem]
  by (auto simp: copyFromIovecs_def Let_def min_def)

text \<open>The destination of the parsers is a fresh array or string of exactly that size.\<close>

lemma copyFromIovecs_eq:
  assumes "iovs_ok iovs"
  shows "copyFromIovecs mem iovs off (replicate n 0) n =
    Some (n = 0 \<or> off + n \<le> iovecsReadableBytes iovs,
      if n = 0 \<or> off + n \<le> iovecsReadableBytes iovs then take n (drop off (iovs_bytes mem iovs))
      else drop off (iovs_bytes mem iovs) @ replicate (n - (iovecsReadableBytes iovs - off)) 0)"
  using assms readable_length [OF assms, of mem]
  by (auto simp: copyFromIovecs_into Let_def min_def)

text \<open>
  The bounds are what keeps it inside: a destination that is too short for the bytes asked for, and a
  segment that claims more bytes than there are, make the copy undefined.
\<close>

lemma copy_loop_overflows:
  assumes "iovs_ok iovs" "copied \<le> length out" "length out < n" "off + (n - copied) \<le> iovecsReadableBytes iovs"
  shows "copyFromIovecs_loop mem iovs out copied off n = None"
  using assms
proof (induction iovs arbitrary: out copied off)
  case (Cons iov iovs)
  show ?case
  proof (cases "iov_len iov \<le> off")
    case True
    then show ?thesis using Cons by (simp add: readable_Cons)
  next
    case False
    define k where "k = min (iov_len iov - off) (n - copied)"
    have "ptr_ok (ptr_add (iov_base iov) off) k"
      using Cons.prems(1) False ptr_ok_mono [OF ptr_ok_add [of "iov_base iov" "iov_len iov" off], of k]
      by (simp add: iov_ok_def k_def)
    then obtain s where s: "rdp mem (ptr_add (iov_base iov) off) k = Some s" "length s = k"
      by (simp add: rdp_Some length_deref)
    have rest: "0 + (n - (copied + k)) \<le> iovecsReadableBytes iovs" if "copied + k \<le> length out"
      using that Cons.prems(3,4) by (auto simp: k_def readable_Cons)
    show ?thesis
    proof (cases "copied + k \<le> length out")
      case True
      then obtain out' where out': "wr out copied s = Some out'" by (simp add: wr_def s(2))
      then have "copyFromIovecs_loop mem iovs out' (copied + k) 0 n = None"
        using Cons.IH [of "copied + k" out' 0] Cons.prems(1,3) True rest wr_length [OF out'] by simp
      then show ?thesis using Cons.prems(2,3) False s(1) out' by (simp add: Let_def k_def [symmetric])
    next
      case room: False
      then show ?thesis using Cons.prems(2,3) False s by (simp add: Let_def k_def [symmetric] wr_def)
    qed
  qed
qed simp

lemma copy_undefined:
  assumes "iovs_ok iovs" "off + n \<le> iovecsReadableBytes iovs" "length out < n"
  shows "copyFromIovecs mem iovs off out n = None"
  using copy_loop_overflows [of iovs 0 out n off mem] assms by (simp add: copyFromIovecs_def)

lemma copy_overread_undefined: "copyFromIovecs mem [mk_iovec (Mem a 3) 4] 0 (replicate 4 0) 4 = None"
  by (simp add: copyFromIovecs_def rdp_def)

section \<open>Borrowing a payload\<close>

fun payloadViewFromIovecs_loop ::
  "iovec list \<Rightarrow> nat \<Rightarrow> nat \<Rightarrow> RpcPayloadView \<Rightarrow> bool \<times> RpcPayloadView" where
  "payloadViewFromIovecs_loop [] offset remaining view = (remaining = 0, view)"
| "payloadViewFromIovecs_loop (iov # iovs) offset remaining view =
     (if remaining = 0 then (True, view)
      else if offset \<ge> iov_len iov
        then payloadViewFromIovecs_loop iovs (offset - iov_len iov) remaining view
      else let available = iov_len iov - offset;
               tk = min available remaining;
               segment_ptr = ptr_add (iov_base iov) offset
        in if segment1_len view = 0
           then payloadViewFromIovecs_loop iovs 0 (remaining - tk)
                  (view\<lparr>segment1 := segment_ptr, segment1_len := tk\<rparr>)
           else if segment2_len view = 0
           then payloadViewFromIovecs_loop iovs 0 (remaining - tk)
                  (view\<lparr>segment2 := segment_ptr, segment2_len := tk\<rparr>)
           else (False, view))"

definition payloadViewFromIovecs :: "iovec list \<Rightarrow> nat \<Rightarrow> nat \<Rightarrow> bool \<times> RpcPayloadView" where
  "payloadViewFromIovecs iovecs src_offset n =
     (if n = 0 then (True, RpcPayloadView_init)
      else payloadViewFromIovecs_loop iovecs src_offset n RpcPayloadView_init)"

text \<open>
  With both segments still free the loop fills them in order; the ring buffer hands out at most two
  segments, so it always succeeds when enough bytes are readable.
\<close>

lemma view_loop_one:
  assumes "iov_ok iov" "0 < n" "off + n \<le> iov_len iov" "segment1_len v = 0" "segment2_len v = 0"
  shows "payloadViewFromIovecs_loop (iov # iovs) off n v =
    (True, v\<lparr>segment1 := ptr_add (iov_base iov) off, segment1_len := n\<rparr>)"
  using assms by (cases iovs) (auto simp: Let_def min_def)

lemma payloadView_single:
  assumes "iov_ok iov" "off + n \<le> iov_len iov"
  shows "\<exists>v. payloadViewFromIovecs (iov # iovs) off n = (True, v) \<and> view_ok v \<and> view_size v = n \<and>
    view_bytes mem v = take n (drop off (iov_bytes mem iov))"
proof (cases "n = 0")
  case True
  then show ?thesis by (simp add: payloadViewFromIovecs_def view_simps)
next
  case False
  let ?v = "RpcPayloadView_init\<lparr>segment1 := ptr_add (iov_base iov) off, segment1_len := n\<rparr>"
  have "payloadViewFromIovecs (iov # iovs) off n = (True, ?v)"
    using assms False view_loop_one [of iov n off RpcPayloadView_init iovs]
    by (simp add: payloadViewFromIovecs_def RpcPayloadView_init_def)
  moreover have "ptr_ok (ptr_add (iov_base iov) off) n"
    using assms ptr_ok_add [of "iov_base iov" "iov_len iov" off] ptr_ok_mono
    by (fastforce simp: iov_ok_def)
  moreover have "deref mem (ptr_add (iov_base iov) off) n = take n (drop off (iov_bytes mem iov))"
    using assms deref_slice [of "iov_base iov" "iov_len iov" off n mem]
    by (simp add: iov_ok_def iov_bytes_def)
  ultimately show ?thesis
    by (simp add: view_ok_def view_size_def view_bytes_def RpcPayloadView_init_def)
qed

lemma payloadView_pair:
  assumes ok: "iov_ok a" "iov_ok b" and off: "off < iov_len a" "iov_len a < off + n"
    and len: "off + n \<le> iov_len a + iov_len b"
  shows "\<exists>v. payloadViewFromIovecs [a, b] off n = (True, v) \<and> view_ok v \<and> view_size v = n \<and>
    view_bytes mem v = drop off (iov_bytes mem a) @ take (off + n - iov_len a) (iov_bytes mem b)"
proof -
  let ?k = "iov_len a - off" and ?m = "off + n - iov_len a"
  let ?v = "RpcPayloadView_init\<lparr>segment1 := ptr_add (iov_base a) off, segment1_len := ?k,
     segment2 := ptr_add (iov_base b) 0, segment2_len := ?m\<rparr>"
  have "payloadViewFromIovecs [a, b] off n = (True, ?v)"
    using off len by (simp add: payloadViewFromIovecs_def RpcPayloadView_init_def Let_def min_def) linarith
  moreover have "ptr_ok (ptr_add (iov_base a) off) ?k" "ptr_ok (ptr_add (iov_base b) 0) ?m"
    using ok off len ptr_ok_add [of "iov_base a" "iov_len a" off] ptr_ok_add [of "iov_base b" "iov_len b" 0]
      ptr_ok_mono [of "ptr_add (iov_base b) 0" "iov_len b" ?m]
    by (auto simp: iov_ok_def)
  moreover have "deref mem (ptr_add (iov_base a) off) ?k = drop off (iov_bytes mem a)"
    using ok off by (simp add: iov_ok_def iov_bytes_def deref_add)
  moreover have "deref mem (ptr_add (iov_base b) 0) ?m = take ?m (iov_bytes mem b)"
    using ok off len deref_slice [of "iov_base b" "iov_len b" 0 ?m mem]
    by (simp add: iov_ok_def iov_bytes_def)
  ultimately show ?thesis
    using off by (simp add: view_ok_def view_size_def view_bytes_def RpcPayloadView_init_def)
qed

lemma payloadView_skip:
  "iov_len a \<le> off \<Longrightarrow> payloadViewFromIovecs (a # iovs) off n = payloadViewFromIovecs iovs (off - iov_len a) n"
  by (simp add: payloadViewFromIovecs_def)

lemma payloadViewFromIovecs_ok:
  assumes "iovs_ok iovs" "length iovs \<le> 2" "off + n \<le> iovecsReadableBytes iovs"
  shows "\<exists>v. payloadViewFromIovecs iovs off n = (True, v) \<and> view_ok v \<and> view_size v = n \<and>
    view_bytes mem v = take n (drop off (iovs_bytes mem iovs))"
proof -
  consider "n = 0" | a where "iovs = [a]" | a b where "iovs = [a, b]" | "iovs = []"
    using assms(2) by (cases iovs rule: remdups_adj.cases) auto
  then show ?thesis
  proof cases
    case 1
    then show ?thesis by (simp add: payloadViewFromIovecs_def view_simps)
  next
    case (2 a)
    then show ?thesis using assms payloadView_single [of a off n "[]" mem] by (simp add: readable_Cons)
  next
    case (3 a b)
    have len: "length (iov_bytes mem a) = iov_len a" "length (iov_bytes mem b) = iov_len b"
      using assms 3 by (simp_all add: length_iov_bytes)
    consider "off + n \<le> iov_len a" | "iov_len a \<le> off" | "off < iov_len a" "iov_len a < off + n"
      by linarith
    then show ?thesis
    proof cases
      case 1
      then show ?thesis using assms 3 len payloadView_single [of a off n "[b]" mem] by simp
    next
      case 2
      then show ?thesis
        using assms 3 len payloadView_single [of b "off - iov_len a" n "[]" mem]
        by (simp add: payloadView_skip readable_Cons)
    next
      case 3
      then show ?thesis
        using assms \<open>iovs = [a, b]\<close> len payloadView_pair [of a b off n mem]
        by (auto simp: readable_Cons add.commute)
    qed
  next
    case 4
    then show ?thesis using assms by (simp add: payloadViewFromIovecs_def view_simps)
  qed
qed

section \<open>Dropping what was written\<close>

text \<open>The loop over \<^verbatim>\<open>idx\<close>: the vectors left from index \<^verbatim>\<open>idx\<close> on and the rest of \<^verbatim>\<open>consumed\<close>.\<close>

fun consumeWritevIovecs_loop :: "iovec list \<Rightarrow> nat \<Rightarrow> iovec list \<times> nat" where
  "consumeWritevIovecs_loop [] consumed = ([], consumed)"
| "consumeWritevIovecs_loop (iov # iovs) consumed =
     (if consumed \<ge> iov_len iov then consumeWritevIovecs_loop iovs (consumed - iov_len iov)
      else (iov # iovs, consumed))"

definition consumeWritevIovecs :: "iovec list \<Rightarrow> nat \<Rightarrow> iovec list" where
  "consumeWritevIovecs iovecs consumed =
     (if consumed = 0 \<or> iovecs = [] then iovecs
      else case consumeWritevIovecs_loop iovecs consumed of
        ([], _) \<Rightarrow> []
      | (iov # iovs, consumed) \<Rightarrow>
          (if consumed > 0
           then iov\<lparr>iov_base := ptr_add (iov_base iov) consumed, iov_len := iov_len iov - consumed\<rparr> # iovs
           else iov # iovs))"

definition iovs_nonempty :: "iovec list \<Rightarrow> bool" where
  "iovs_nonempty iovs \<longleftrightarrow> (\<forall>iov \<in> set iovs. 0 < iov_len iov)"

lemma iovs_nonempty_simps [simp]: "iovs_nonempty []"
    "iovs_nonempty (iov # iovs) \<longleftrightarrow> 0 < iov_len iov \<and> iovs_nonempty iovs"
    "iovs_nonempty (xs @ ys) \<longleftrightarrow> iovs_nonempty xs \<and> iovs_nonempty ys"
  by (auto simp: iovs_nonempty_def)

lemma consume_loop_inv:
  assumes "iovs_ok iovs" "consumeWritevIovecs_loop iovs n = (iovs', n')"
  shows "iovs_ok iovs' \<and> (iovs_nonempty iovs \<longrightarrow> iovs_nonempty iovs') \<and>
    (iovs' \<noteq> [] \<longrightarrow> n' < iov_len (hd iovs')) \<and>
    (n \<le> iovecsReadableBytes iovs \<longrightarrow> drop n' (iovs_bytes mem iovs') = drop n (iovs_bytes mem iovs))"
  using assms
  by (induction iovs arbitrary: n) (auto simp: readable_Cons length_iov_bytes split: if_splits)

lemma consumeWritevIovecs_ok:
  assumes "iovs_ok iovs" "n \<le> iovecsReadableBytes iovs"
  shows "iovs_ok (consumeWritevIovecs iovs n)"
    "iovs_nonempty iovs \<Longrightarrow> iovs_nonempty (consumeWritevIovecs iovs n)"
    "iovs_bytes mem (consumeWritevIovecs iovs n) = drop n (iovs_bytes mem iovs)"
proof -
  obtain iovs' n' where l: "consumeWritevIovecs_loop iovs n = (iovs', n')" by fastforce
  note inv = consume_loop_inv [OF assms(1) l, of mem]
  have "iovs_ok (consumeWritevIovecs iovs n) \<and>
      (iovs_nonempty iovs \<longrightarrow> iovs_nonempty (consumeWritevIovecs iovs n)) \<and>
      iovs_bytes mem (consumeWritevIovecs iovs n) = drop n (iovs_bytes mem iovs)"
  proof (cases "n = 0 \<or> iovs = []")
    case True
    then show ?thesis using assms by (auto simp: consumeWritevIovecs_def)
  next
    case False
    show ?thesis
    proof (cases iovs')
      case Nil
      then show ?thesis using False l inv assms by (auto simp: consumeWritevIovecs_def)
    next
      case (Cons iov rest)
      have n': "n' < iov_len iov" using inv Cons by simp
      have "ptr_ok (ptr_add (iov_base iov) n') (iov_len iov - n')"
        "deref mem (ptr_add (iov_base iov) n') (iov_len iov - n') = drop n' (iov_bytes mem iov)"
        using inv Cons n' by (auto simp: iov_ok_def iov_bytes_def ptr_ok_add deref_add)
      then show ?thesis
        using False l inv assms Cons n'
        by (auto simp: consumeWritevIovecs_def iov_ok_def iov_bytes_def length_deref)
    qed
  qed
  then show "iovs_ok (consumeWritevIovecs iovs n)"
    "iovs_nonempty iovs \<Longrightarrow> iovs_nonempty (consumeWritevIovecs iovs n)"
    "iovs_bytes mem (consumeWritevIovecs iovs n) = drop n (iovs_bytes mem iovs)"
    by auto
qed

lemma nonempty_bytes_Nil:
  assumes "iovs_ok iovs" "iovs_nonempty iovs"
  shows "iovs = [] \<longleftrightarrow> iovs_bytes mem iovs = []"
proof (cases iovs)
  case (Cons iov rest)
  then have "length (iov_bytes mem iov) = iov_len iov" "0 < iov_len iov"
    using assms by (auto simp: length_iov_bytes)
  then have "iov_bytes mem iov \<noteq> []" by auto
  then show ?thesis using Cons by simp
qed simp

end
