(* ===== verification/Rpc_Await.thy ===== *)
theory Rpc_Await
  imports Rpc_Iovec
begin

text \<open>
  Model of \<^verbatim>\<open>src/galay-rpc/kernel/rpc_await.h\<close>: the read and write states, and the two state machines that
  the awaitables of the library run.

  \<^verbatim>\<open>RingBuffer\<close>, \<^verbatim>\<open>MachineAction\<close> and the loop that drives a machine belong to galay-kernel. The ring
  buffer is a parameter \<open>ops\<close> of the definitions, and what the code relies on of it is the locale
  \<open>ring_buffer\<close>. \<open>read_run\<close> and \<open>write_run\<close> are the driver's contract: they call \<^verbatim>\<open>advance\<close>, carry out the
  vectored read or write it asks for, and report the completion, until the machine completes. A
  vector that reaches outside its buffer is undefined behaviour. Each
  element of the schedule is one completion: at most that many bytes, or an I/O error.
\<close>

section \<open>The ring buffer\<close>

record 'rb ring_ops =
  rb_readable :: "'rb \<Rightarrow> nat"
  rb_getReadIovecs :: "'rb \<Rightarrow> iovec list"
  rb_getWriteIovecs :: "'rb \<Rightarrow> iovec list"
  rb_consume :: "'rb \<Rightarrow> nat \<Rightarrow> 'rb"
  rb_produce :: "'rb \<Rightarrow> nat \<Rightarrow> 'rb"

fun iov_addrs :: "iovec \<Rightarrow> addr list" where
  "iov_addrs iov = (case iov_base iov of Mem a room \<Rightarrow> [a..<a + iov_len iov] | _ \<Rightarrow> [])"

definition iovs_addrs :: "iovec list \<Rightarrow> addr list" where
  "iovs_addrs iovs = concat (map iov_addrs iovs)"

text \<open>The vectors a ring hands out: each one is exactly the memory it may be accessed in.\<close>

definition in_memory :: "iovec list \<Rightarrow> bool" where
  "in_memory iovs \<longleftrightarrow> (\<forall>iov \<in> set iovs. \<exists>a. iov_base iov = Mem a (iov_len iov))"

lemma in_memory_ok: "in_memory iovs \<Longrightarrow> iovs_ok iovs"
  by (auto simp: in_memory_def iovs_ok_def iov_ok_def)

lemma in_memory_bytes: "in_memory iovs \<Longrightarrow> iovs_bytes mem iovs = map mem (iovs_addrs iovs)"
  by (induction iovs) (auto simp: in_memory_def iovs_addrs_def iov_bytes_def)

lemma in_memory_readable:
  assumes "in_memory iovs"
  shows "iovecsReadableBytes iovs = length (iovs_addrs iovs)"
proof -
  have "length (iovs_bytes (\<lambda>_. 0) iovs) = iovecsReadableBytes iovs"
    using assms by (intro readable_length in_memory_ok)
  then show ?thesis using assms by (simp add: in_memory_bytes)
qed

text \<open>A vectored read stores the received bytes at the addresses of the vectors, in order.\<close>

fun mem_write :: "memory \<Rightarrow> addr list \<Rightarrow> bytes \<Rightarrow> memory" where
  "mem_write mem (a # as) (b # bs) = mem_write (mem(a := b)) as bs"
| "mem_write mem _ _ = mem"

lemma mem_write_other: "a \<notin> set as \<Longrightarrow> mem_write mem as bs a = mem a"
  by (induction mem as bs rule: mem_write.induct) auto

lemma map_mem_write_other: "set xs \<inter> set as = {} \<Longrightarrow> map (mem_write mem as bs) xs = map mem xs"
  by (auto intro!: mem_write_other)

lemma map_mem_write:
  "distinct as \<Longrightarrow> length bs \<le> length as \<Longrightarrow> map (mem_write mem as bs) (take (length bs) as) = bs"
proof (induction mem as bs rule: mem_write.induct)
  case (1 mem a as b bs)
  then show ?case by (simp add: mem_write_other fun_upd_def)
qed auto

locale ring_buffer =
  fixes ops :: "'rb ring_ops"
    and ring_inv :: "'rb \<Rightarrow> bool"
  assumes segments: "ring_inv rb \<Longrightarrow> length (rb_getReadIovecs ops rb) \<le> 2"
    and read_in_memory: "ring_inv rb \<Longrightarrow> in_memory (rb_getReadIovecs ops rb)"
    and write_in_memory: "ring_inv rb \<Longrightarrow> in_memory (rb_getWriteIovecs ops rb)"
    and readable_law: "ring_inv rb \<Longrightarrow> rb_readable ops rb = iovecsReadableBytes (rb_getReadIovecs ops rb)"
    and disjoint_law: "ring_inv rb \<Longrightarrow>
      distinct (iovs_addrs (rb_getReadIovecs ops rb) @ iovs_addrs (rb_getWriteIovecs ops rb))"
    and consume_law: "ring_inv rb \<Longrightarrow> n \<le> rb_readable ops rb \<Longrightarrow>
      ring_inv (rb_consume ops rb n) \<and>
      iovs_addrs (rb_getReadIovecs ops (rb_consume ops rb n)) = drop n (iovs_addrs (rb_getReadIovecs ops rb)) \<and>
      length (iovs_addrs (rb_getWriteIovecs ops (rb_consume ops rb n))) =
        length (iovs_addrs (rb_getWriteIovecs ops rb)) + n"
    and produce_law: "ring_inv rb \<Longrightarrow> n \<le> length (iovs_addrs (rb_getWriteIovecs ops rb)) \<Longrightarrow>
      ring_inv (rb_produce ops rb n) \<and>
      iovs_addrs (rb_getReadIovecs ops (rb_produce ops rb n)) =
        iovs_addrs (rb_getReadIovecs ops rb) @ take n (iovs_addrs (rb_getWriteIovecs ops rb)) \<and>
      length (iovs_addrs (rb_getWriteIovecs ops (rb_produce ops rb n))) =
        length (iovs_addrs (rb_getWriteIovecs ops rb)) - n"

text \<open>The bytes waiting in a ring, the free room behind them, and both together.\<close>

definition ring_content :: "'rb ring_ops \<Rightarrow> memory \<Rightarrow> 'rb \<Rightarrow> bytes" where
  "ring_content ops mem rb = iovs_bytes mem (rb_getReadIovecs ops rb)"

definition ring_space :: "'rb ring_ops \<Rightarrow> 'rb \<Rightarrow> nat" where
  "ring_space ops rb = length (iovs_addrs (rb_getWriteIovecs ops rb))"

definition ring_capacity :: "'rb ring_ops \<Rightarrow> 'rb \<Rightarrow> nat" where
  "ring_capacity ops rb = length (iovs_addrs (rb_getReadIovecs ops rb)) + ring_space ops rb"

context ring_buffer
begin

lemma content_addrs: "ring_inv rb \<Longrightarrow> ring_content ops mem rb = map mem (iovs_addrs (rb_getReadIovecs ops rb))"
  by (simp add: ring_content_def in_memory_bytes read_in_memory)

lemma length_content: "ring_inv rb \<Longrightarrow> length (ring_content ops mem rb) = rb_readable ops rb"
  by (simp add: content_addrs readable_law in_memory_readable read_in_memory)

lemma read_ok: "ring_inv rb \<Longrightarrow> iovs_ok (rb_getReadIovecs ops rb)"
  by (intro in_memory_ok read_in_memory)

lemma write_ok: "ring_inv rb \<Longrightarrow> iovs_ok (rb_getWriteIovecs ops rb)"
  by (intro in_memory_ok write_in_memory)

lemma readable_content:
  "ring_inv rb \<Longrightarrow> iovecsReadableBytes (rb_getReadIovecs ops rb) = length (ring_content ops mem rb)"
  by (simp add: length_content readable_law)

lemma consume_content:
  assumes "ring_inv rb" "n \<le> length (ring_content ops mem rb)"
  shows "ring_inv (rb_consume ops rb n)"
    "ring_content ops mem' (rb_consume ops rb n) = drop n (ring_content ops mem' rb)"
    "ring_capacity ops (rb_consume ops rb n) = ring_capacity ops rb"
proof -
  have n: "n \<le> rb_readable ops rb" using assms length_content by simp
  note c = consume_law [OF assms(1) n]
  show "ring_inv (rb_consume ops rb n)" using c by simp
  then show "ring_content ops mem' (rb_consume ops rb n) = drop n (ring_content ops mem' rb)"
    using c assms(1) by (simp add: content_addrs drop_map)
  show "ring_capacity ops (rb_consume ops rb n) = ring_capacity ops rb"
    using c n assms(1)
    by (simp add: ring_capacity_def ring_space_def readable_law in_memory_readable read_in_memory)
qed

lemma receive_content:
  assumes "ring_inv rb" "length bs \<le> ring_space ops rb"
  shows "ring_inv (rb_produce ops rb (length bs))"
    "ring_content ops (mem_write mem (iovs_addrs (rb_getWriteIovecs ops rb)) bs) (rb_produce ops rb (length bs)) =
       ring_content ops mem rb @ bs"
    "ring_capacity ops (rb_produce ops rb (length bs)) = ring_capacity ops rb"
proof -
  have n: "length bs \<le> length (iovs_addrs (rb_getWriteIovecs ops rb))"
    using assms by (simp add: ring_space_def)
  note p = produce_law [OF assms(1) n]
  have d: "distinct (iovs_addrs (rb_getWriteIovecs ops rb))"
      "set (iovs_addrs (rb_getReadIovecs ops rb)) \<inter> set (iovs_addrs (rb_getWriteIovecs ops rb)) = {}"
    using disjoint_law [OF assms(1)] by auto
  show "ring_inv (rb_produce ops rb (length bs))" using p by simp
  then show "ring_content ops (mem_write mem (iovs_addrs (rb_getWriteIovecs ops rb)) bs)
      (rb_produce ops rb (length bs)) = ring_content ops mem rb @ bs"
    using p assms(1) map_mem_write [OF d(1) n] map_mem_write_other [OF d(2)] by (simp add: content_addrs)
  show "ring_capacity ops (rb_produce ops rb (length bs)) = ring_capacity ops rb"
    using p n by (simp add: ring_capacity_def ring_space_def)
qed

lemma capacity_split: "ring_inv rb \<Longrightarrow> ring_capacity ops rb = length (ring_content ops mem rb) + ring_space ops rb"
  by (simp add: ring_capacity_def content_addrs)

end

section \<open>Read states\<close>

definition prepareRingBufferReadWindow :: "'rb ring_ops \<Rightarrow> 'rb \<Rightarrow> bool \<times> iovec list" where
  "prepareRingBufferReadWindow ops rb =
     (let read_iovecs = rb_getWriteIovecs ops rb;
          writable = iovecsReadableBytes read_iovecs
      in (writable > 0, read_iovecs))"

definition mapRpcReadError :: "IOError \<Rightarrow> RpcErrorCode \<Rightarrow> RpcError" where
  "mapRpcReadError io_error default_code =
     (if ioe_disconnect io_error then mkRpcError CONNECTION_CLOSED ''Connection closed''
      else RpcError_from io_error default_code)"

text \<open>
  The members of \<^verbatim>\<open>RpcRingBufferReadStateBase\<close>, and in \<open>r_self\<close> those of the class derived from it.
\<close>

record ('rb, 's) ReadState =
  r_ring_buffer :: 'rb
  r_read_iovecs :: "iovec list"
  r_error :: "RpcError option"
  r_self :: 's

definition mkReadState :: "'rb \<Rightarrow> 's \<Rightarrow> ('rb, 's) ReadState" where
  "mkReadState rb self =
     \<lparr>r_ring_buffer = rb, r_read_iovecs = [], r_error = None, r_self = self\<rparr>"

definition prepareReadWindow :: "'rb ring_ops \<Rightarrow> ('rb, 's) ReadState \<Rightarrow> bool \<times> ('rb, 's) ReadState" where
  "prepareReadWindow ops st =
     (let (ok, iovs) = prepareRingBufferReadWindow ops (r_ring_buffer st);
          st = st\<lparr>r_read_iovecs := iovs\<rparr>
      in if \<not> ok
         then (False, st\<lparr>r_error := Some (mkRpcError INTERNAL_ERROR ''No writable ring buffer space'')\<rparr>)
         else (True, st))"

definition setRecvError :: "IOError \<Rightarrow> ('rb, 's) ReadState \<Rightarrow> ('rb, 's) ReadState" where
  "setRecvError io_error st = st\<lparr>r_error := Some (mapRpcReadError io_error INTERNAL_ERROR)\<rparr>"

definition onPeerClosed :: "('rb, 's) ReadState \<Rightarrow> ('rb, 's) ReadState" where
  "onPeerClosed st = st\<lparr>r_error := Some (mkRpcError CONNECTION_CLOSED ''Connection closed'')\<rparr>"

definition onBytesReceived :: "'rb ring_ops \<Rightarrow> nat \<Rightarrow> ('rb, 's) ReadState \<Rightarrow> ('rb, 's) ReadState" where
  "onBytesReceived ops bytes_read st =
     st\<lparr>r_ring_buffer := rb_produce ops (r_ring_buffer st) bytes_read\<rparr>"

definition takeReadResult :: "('rb, 's) ReadState \<Rightarrow> RpcError + bool" where
  "takeReadResult st = (case r_error st of Some e \<Rightarrow> Inl e | None \<Rightarrow> Inr True)"

definition setReadError :: "RpcError \<Rightarrow> ('rb, 's) ReadState \<Rightarrow> ('rb, 's) ReadState" where
  "setReadError error st = st\<lparr>r_error := Some error\<rparr>"

section \<open>Write states\<close>

record WriteState =
  w_iovecs :: "iovec list"
  w_error :: "RpcError option"

definition mkWriteState :: "iovec list \<Rightarrow> WriteState" where
  "mkWriteState iovs = \<lparr>w_iovecs = iovs, w_error = None\<rparr>"

definition isComplete :: "WriteState \<Rightarrow> bool" where
  "isComplete st \<longleftrightarrow> w_error st \<noteq> None \<or> w_iovecs st = []"

definition prepareWriteIovecs :: "WriteState \<Rightarrow> bool" where
  "prepareWriteIovecs st = True"

definition onBytesWritten :: "nat \<Rightarrow> WriteState \<Rightarrow> WriteState" where
  "onBytesWritten bytes_written st = st\<lparr>w_iovecs := consumeWritevIovecs (w_iovecs st) bytes_written\<rparr>"

definition setSendError :: "IOError \<Rightarrow> WriteState \<Rightarrow> WriteState" where
  "setSendError io_error st = st\<lparr>w_error := Some (RpcError_from io_error INTERNAL_ERROR)\<rparr>"

text \<open>\<open>send_failed\<close> is the kernel's \<^verbatim>\<open>IOError(kSendFailed, 0)\<close>.\<close>

definition onZeroWrite :: "IOError \<Rightarrow> WriteState \<Rightarrow> WriteState" where
  "onZeroWrite send_failed st = st\<lparr>w_error := Some (RpcError_from send_failed INTERNAL_ERROR)\<rparr>"

definition takeWriteResult :: "WriteState \<Rightarrow> RpcError + bool" where
  "takeWriteResult st = (case w_error st of Some e \<Rightarrow> Inl e | None \<Rightarrow> Inr True)"

definition RpcVectorWriteState :: "bytes \<Rightarrow> WriteState" where
  "RpcVectorWriteState data =
     mkWriteState (if data \<noteq> [] then [mk_iovec (Buf data 0) (length data)] else [])"

section \<open>The machines\<close>

datatype MachineAction = Complete "RpcError + bool" | WaitReadv "iovec list" | WaitWritev "iovec list"

record ('rb, 's) ReadMachine =
  rm_state :: "('rb, 's) ReadState"
  rm_result :: "(RpcError + bool) option"

definition RpcRingBufferReadMachine :: "('rb, 's) ReadState \<Rightarrow> ('rb, 's) ReadMachine" where
  "RpcRingBufferReadMachine st = \<lparr>rm_state = st, rm_result = None\<rparr>"

type_synonym ('rb, 's) parser = "memory \<Rightarrow> ('rb, 's) ReadState \<Rightarrow> (bool \<times> ('rb, 's) ReadState) option"

definition read_advance ::
  "'rb ring_ops \<Rightarrow> ('rb, 's) parser \<Rightarrow> memory \<Rightarrow> ('rb, 's) ReadMachine \<Rightarrow>
   (MachineAction \<times> ('rb, 's) ReadMachine) option" where
  "read_advance ops parse mem m =
     (case rm_result m of
        Some r \<Rightarrow> Some (Complete r, m)
      | None \<Rightarrow> do {
          (found, st) \<leftarrow> parse mem (rm_state m);
          if found
          then (let r = takeReadResult st in Some (Complete r, \<lparr>rm_state = st, rm_result = Some r\<rparr>))
          else (let (ok, st) = prepareReadWindow ops st in
            if \<not> ok
            then (let r = takeReadResult st in Some (Complete r, \<lparr>rm_state = st, rm_result = Some r\<rparr>))
            else Some (WaitReadv (r_read_iovecs st), \<lparr>rm_state = st, rm_result = None\<rparr>)) })"

definition read_onRead ::
  "'rb ring_ops \<Rightarrow> IOError + nat \<Rightarrow> ('rb, 's) ReadMachine \<Rightarrow> ('rb, 's) ReadMachine" where
  "read_onRead ops result m =
     (case result of
        Inl e \<Rightarrow> (let st = setRecvError e (rm_state m)
                  in \<lparr>rm_state = st, rm_result = Some (takeReadResult st)\<rparr>)
      | Inr n \<Rightarrow>
          (if n = 0
           then (let st = onPeerClosed (rm_state m)
                 in \<lparr>rm_state = st, rm_result = Some (takeReadResult st)\<rparr>)
           else m\<lparr>rm_state := onBytesReceived ops n (rm_state m)\<rparr>))"

record WriteMachine =
  wm_state :: WriteState
  wm_result :: "(RpcError + bool) option"

definition RpcWritevMachine :: "WriteState \<Rightarrow> WriteMachine" where
  "RpcWritevMachine st = \<lparr>wm_state = st, wm_result = None\<rparr>"

definition write_advance :: "WriteMachine \<Rightarrow> MachineAction \<times> WriteMachine" where
  "write_advance m =
     (case wm_result m of
        Some r \<Rightarrow> (Complete r, m)
      | None \<Rightarrow>
          (if isComplete (wm_state m) \<or> \<not> prepareWriteIovecs (wm_state m)
           then (let r = takeWriteResult (wm_state m) in (Complete r, m\<lparr>wm_result := Some r\<rparr>))
           else (WaitWritev (w_iovecs (wm_state m)), m)))"

definition write_onWrite :: "IOError \<Rightarrow> IOError + nat \<Rightarrow> WriteMachine \<Rightarrow> WriteMachine" where
  "write_onWrite send_failed result m =
     (case result of
        Inl e \<Rightarrow> (let st = setSendError e (wm_state m)
                  in \<lparr>wm_state = st, wm_result = Some (takeWriteResult st)\<rparr>)
      | Inr n \<Rightarrow>
          (if n = 0
           then (let st = onZeroWrite send_failed (wm_state m)
                 in \<lparr>wm_state = st, wm_result = Some (takeWriteResult st)\<rparr>)
           else (let st = onBytesWritten n (wm_state m)
                 in \<lparr>wm_state = st,
                     wm_result = (if isComplete st then Some (takeWriteResult st) else wm_result m)\<rparr>)))"

section \<open>Driving a machine\<close>

datatype io_event = Deliver nat | IoFail IOError

text \<open>
  \<open>stream\<close> is what the peer has sent and will send before it closes: a read that finds it empty
  reports zero bytes.
\<close>

datatype 'm run_result =
    Finished "RpcError + bool" memory 'm bytes
  | Suspended memory 'm bytes
  | Undefined

fun read_run ::
  "'rb ring_ops \<Rightarrow> ('rb, 's) parser \<Rightarrow> io_event list \<Rightarrow> memory \<Rightarrow> ('rb, 's) ReadMachine \<Rightarrow> bytes \<Rightarrow>
   ('rb, 's) ReadMachine run_result" where
  "read_run ops parse [] mem m stream =
     (case read_advance ops parse mem m of
        None \<Rightarrow> Undefined
      | Some (Complete r, m) \<Rightarrow> Finished r mem m stream
      | Some (_, m) \<Rightarrow> Suspended mem m stream)"
| "read_run ops parse (ev # evs) mem m stream =
     (case read_advance ops parse mem m of
        None \<Rightarrow> Undefined
      | Some (Complete r, m) \<Rightarrow> Finished r mem m stream
      | Some (WaitWritev _, m) \<Rightarrow> Suspended mem m stream
      | Some (WaitReadv iovs, m) \<Rightarrow>
          (if \<not> iovs_ok iovs then Undefined
           else case ev of
             IoFail e \<Rightarrow> read_run ops parse evs mem (read_onRead ops (Inl e) m) stream
           | Deliver k \<Rightarrow>
               (let bs = take (min k (length (iovs_addrs iovs))) stream
                in read_run ops parse evs (mem_write mem (iovs_addrs iovs) bs)
                     (read_onRead ops (Inr (length bs)) m) (drop (length bs) stream))))"

text \<open>For a write the last component is what has been put on the wire so far.\<close>

fun write_run ::
  "IOError \<Rightarrow> io_event list \<Rightarrow> memory \<Rightarrow> WriteMachine \<Rightarrow> bytes \<Rightarrow> WriteMachine run_result" where
  "write_run send_failed [] mem m wire =
     (case write_advance m of
        (Complete r, m) \<Rightarrow> Finished r mem m wire
      | (_, m) \<Rightarrow> Suspended mem m wire)"
| "write_run send_failed (ev # evs) mem m wire =
     (case write_advance m of
        (Complete r, m) \<Rightarrow> Finished r mem m wire
      | (WaitReadv _, m) \<Rightarrow> Suspended mem m wire
      | (WaitWritev iovs, m) \<Rightarrow>
          (if \<not> iovs_ok iovs then Undefined
           else case ev of
             IoFail e \<Rightarrow> write_run send_failed evs mem (write_onWrite send_failed (Inl e) m) wire
           | Deliver k \<Rightarrow>
               (let bs = take k (iovs_bytes mem iovs)
                in write_run send_failed evs mem (write_onWrite send_failed (Inr (length bs)) m) (wire @ bs))))"

section \<open>Writing a frame\<close>

lemma write_run_done: "wm_result m = Some r \<Longrightarrow> write_run sf evs mem m wire = Finished r mem m wire"
  by (cases evs) (simp_all add: write_advance_def)

text \<open>A machine that still has vectors to send and has met no error.\<close>

definition writing :: "iovec list \<Rightarrow> WriteMachine" where
  "writing iovs = \<lparr>wm_state = mkWriteState iovs, wm_result = None\<rparr>"

lemma writing_fresh: "RpcWritevMachine (mkWriteState iovs) = writing iovs"
  by (simp add: writing_def RpcWritevMachine_def)

lemma write_advance_writing:
  "write_advance (writing iovs) = (if iovs = []
     then (Complete (Inr True), (writing iovs)\<lparr>wm_result := Some (Inr True)\<rparr>)
     else (WaitWritev iovs, writing iovs))"
  by (simp add: write_advance_def writing_def mkWriteState_def isComplete_def prepareWriteIovecs_def
      takeWriteResult_def Let_def)

lemma write_onWrite_writing:
  "0 < n \<Longrightarrow> write_onWrite sf (Inr n) (writing iovs) =
     (if consumeWritevIovecs iovs n = [] then (writing [])\<lparr>wm_result := Some (Inr True)\<rparr>
      else writing (consumeWritevIovecs iovs n))"
  by (simp add: write_onWrite_def writing_def mkWriteState_def isComplete_def takeWriteResult_def
      onBytesWritten_def)

lemma write_onWrite_error:
  "wm_result (write_onWrite sf (Inl e) (writing iovs)) = Some (Inl (RpcError_from e INTERNAL_ERROR))"
  "wm_result (write_onWrite sf (Inr 0) (writing iovs)) = Some (Inl (RpcError_from sf INTERNAL_ERROR))"
  by (simp_all add: write_onWrite_def writing_def mkWriteState_def setSendError_def onZeroWrite_def
      takeWriteResult_def Let_def)

definition delivers :: "io_event list \<Rightarrow> bool" where
  "delivers evs \<longleftrightarrow> (\<forall>ev \<in> set evs. case ev of Deliver k \<Rightarrow> 0 < k | IoFail _ \<Rightarrow> False)"

lemma delivers_simps [simp]: "delivers []" "delivers (Deliver k # evs) \<longleftrightarrow> 0 < k \<and> delivers evs"
    "\<not> delivers (IoFail e # evs)"
  by (simp_all add: delivers_def)

lemma write_run_empty: "write_run sf evs mem (writing []) wire =
    Finished (Inr True) mem ((writing [])\<lparr>wm_result := Some (Inr True)\<rparr>) wire"
  by (cases evs) (simp_all add: write_advance_writing)

text \<open>One completion of a write either ends the machine with an error or moves some bytes to the wire.\<close>

lemma write_run_step:
  assumes "iovs_ok iovs" "iovs \<noteq> []"
  obtains (failed) e m' where "write_run sf (ev # evs) mem (writing iovs) wire = Finished (Inl e) mem m' wire"
      "\<not> delivers (ev # evs) \<or> iovs_bytes mem iovs = []"
  | (progress) n where "0 < n" "n \<le> length (iovs_bytes mem iovs)" "n \<le> iovecsReadableBytes iovs"
      "write_run sf (ev # evs) mem (writing iovs) wire =
         write_run sf evs mem (writing (consumeWritevIovecs iovs n)) (wire @ take n (iovs_bytes mem iovs))"
proof (cases ev)
  case (IoFail e)
  then show ?thesis
    using failed assms by (simp add: write_advance_writing write_onWrite_error write_run_done)
next
  case (Deliver k)
  let ?B = "iovs_bytes mem iovs" and ?n = "min (length (iovs_bytes mem iovs)) k"
  have take: "take k ?B = take ?n ?B" by (simp add: min_def)
  show ?thesis
  proof (cases "?n = 0")
    case True
    then have "k = 0 \<or> ?B = []" by (auto simp: min_def split: if_splits)
    then show ?thesis
      using failed assms Deliver by (auto simp: write_advance_writing write_onWrite_error write_run_done)
  next
    case False
    then show ?thesis
      using progress [of ?n] Deliver assms readable_length [OF assms(1), of mem] take
      by (simp add: write_advance_writing write_onWrite_writing write_run_empty write_run_done)
  qed
qed

text \<open>A write ends: as many completions as the frame has bytes are enough, whatever they are. It ends
  with success exactly when the whole frame is sent.\<close>

lemma write_run_terminates:
  assumes "iovs_ok iovs" "iovs_nonempty iovs" "length (iovs_bytes mem iovs) \<le> length evs"
  shows "\<exists>r m' j. write_run sf evs mem (writing iovs) wire = Finished r mem m' (wire @ take j (iovs_bytes mem iovs)) \<and>
    (r = Inr True \<and> j = length (iovs_bytes mem iovs) \<or>
     (\<exists>e. r = Inl e) \<and> j < length (iovs_bytes mem iovs) \<and> \<not> delivers evs)"
  using assms
proof (induction evs arbitrary: iovs wire)
  case Nil
  then have "iovs = []" using nonempty_bytes_Nil [of iovs mem] by simp
  then show ?case by (intro exI [of _ "Inr True"]) (simp add: write_advance_writing)
next
  case (Cons ev evs)
  let ?B = "iovs_bytes mem iovs"
  show ?case
  proof (cases "iovs = []")
    case True
    then show ?thesis by (intro exI [of _ "Inr True"]) (simp add: write_advance_writing)
  next
    case False
    then have B: "?B \<noteq> []" using nonempty_bytes_Nil Cons.prems by blast
    from Cons.prems(1) False show ?thesis
    proof (cases rule: write_run_step [where sf = sf and ev = ev and evs = evs and mem = mem and wire = wire])
      case (failed e m')
      then show ?thesis using B by (intro exI [of _ "Inl e"] exI [of _ m'] exI [of _ 0]) auto
    next
      case (progress n)
      note c = consumeWritevIovecs_ok [OF Cons.prems(1) progress(3)]
      have "length (iovs_bytes mem (consumeWritevIovecs iovs n)) \<le> length evs"
        using Cons.prems(3) progress(1) c(3) [of mem] by simp
      from Cons.IH [OF c(1) c(2) [OF Cons.prems(2)] this, of "wire @ take n ?B"] obtain r m' j where
        w: "write_run sf evs mem (writing (consumeWritevIovecs iovs n)) (wire @ take n ?B) =
              Finished r mem m' (wire @ take (n + j) ?B)"
          "r = Inr True \<and> j = length ?B - n \<or> (\<exists>e. r = Inl e) \<and> j < length ?B - n \<and> \<not> delivers evs"
        unfolding c(3) by (auto simp: take_add)
      then show ?thesis
        using progress
        by (intro exI [of _ r] exI [of _ m'] exI [of _ "n + j"]) (auto simp: delivers_def)
    qed
  qed
qed

lemma write_run_complete:
  assumes "iovs_ok iovs" "iovs_nonempty iovs" "delivers evs" "length (iovs_bytes mem iovs) \<le> length evs"
  shows "\<exists>m'. write_run sf evs mem (writing iovs) wire = Finished (Inr True) mem m' (wire @ iovs_bytes mem iovs)"
  using write_run_terminates [OF assms(1,2,4), of sf wire] assms(3) by auto

text \<open>Under any schedule, failing or not, what has been sent is a prefix of the frame.\<close>

fun sent :: "'m run_result \<Rightarrow> bytes option" where
  "sent (Finished r mem m wire) = Some wire"
| "sent (Suspended mem m wire) = Some wire"
| "sent Undefined = None"

fun succeeded :: "'m run_result \<Rightarrow> bool" where
  "succeeded (Finished (Inr b) mem m wire) = True"
| "succeeded _ = False"

lemma write_run_prefix:
  assumes "iovs_ok iovs"
  shows "\<exists>j. sent (write_run sf evs mem (writing iovs) wire) = Some (wire @ take j (iovs_bytes mem iovs)) \<and>
    (succeeded (write_run sf evs mem (writing iovs) wire) \<longrightarrow> length (iovs_bytes mem iovs) \<le> j)"
  using assms
proof (induction evs arbitrary: iovs wire)
  case Nil
  show ?case
    by (cases "iovs = []") (auto simp: write_advance_writing intro: exI [of _ 0])
next
  case (Cons ev evs)
  let ?B = "iovs_bytes mem iovs"
  show ?case
  proof (cases "iovs = []")
    case True
    then show ?thesis by (simp add: write_advance_writing)
  next
    case False
    with Cons.prems show ?thesis
    proof (cases rule: write_run_step [where sf = sf and ev = ev and evs = evs and mem = mem and wire = wire])
      case failed
      then show ?thesis by (intro exI [of _ 0]) simp
    next
      case (progress n)
      note c = consumeWritevIovecs_ok [OF Cons.prems progress(3)]
      from Cons.IH [OF c(1), of "wire @ take n ?B"] obtain j where
        "sent (write_run sf evs mem (writing (consumeWritevIovecs iovs n)) (wire @ take n ?B)) =
           Some (wire @ take (n + j) ?B)"
        "succeeded (write_run sf evs mem (writing (consumeWritevIovecs iovs n)) (wire @ take n ?B)) \<longrightarrow>
           length ?B - n \<le> j"
        by (auto simp: c(3) take_add)
      then show ?thesis using progress by (intro exI [of _ "n + j"]) auto
    qed
  qed
qed

text \<open>
  What a sender of the library provides: vectors that together hold one frame. Everything a client
  of the writer needs follows once for all of them. \<open>send_run\<close> is a send from the construction of
  the write state to the completion of its machine.
\<close>

definition send_run ::
  "IOError \<Rightarrow> io_event list \<Rightarrow> memory \<Rightarrow> WriteState option \<Rightarrow> bytes \<Rightarrow> WriteMachine run_result" where
  "send_run send_failed evs mem st wire =
     (case st of
        None \<Rightarrow> Undefined
      | Some st \<Rightarrow> write_run send_failed evs mem (RpcWritevMachine st) wire)"

locale frame_writer =
  fixes build :: "'a \<Rightarrow> WriteState option"
    and wire :: "memory \<Rightarrow> 'a \<Rightarrow> bytes"
    and sendable :: "'a \<Rightarrow> bool"
  assumes build_law: "sendable x \<Longrightarrow> \<exists>iovs. build x = Some (mkWriteState iovs) \<and>
    iovs_ok iovs \<and> iovs_nonempty iovs \<and> (\<forall>mem. iovs_bytes mem iovs = wire mem x)"
begin

lemma send_terminates:
  assumes "sendable x" "length (wire mem x) \<le> length evs"
  shows "\<exists>r m' j. send_run sf evs mem (build x) out = Finished r mem m' (out @ take j (wire mem x)) \<and>
    (r = Inr True \<and> j = length (wire mem x) \<or> (\<exists>e. r = Inl e) \<and> j < length (wire mem x) \<and> \<not> delivers evs)"
proof -
  obtain iovs where "build x = Some (mkWriteState iovs)" "iovs_ok iovs" "iovs_nonempty iovs"
      "iovs_bytes mem iovs = wire mem x"
    using build_law assms(1) by blast
  then show ?thesis
    using assms(2) write_run_terminates [of iovs mem evs sf out] by (auto simp: send_run_def writing_fresh)
qed

lemma send_completes:
  assumes "sendable x" "delivers evs" "length (wire mem x) \<le> length evs"
  shows "\<exists>m'. send_run sf evs mem (build x) out = Finished (Inr True) mem m' (out @ wire mem x)"
  using send_terminates [OF assms(1,3), of sf out] assms(2) by auto

lemma send_prefix:
  assumes "sendable x"
  shows "\<exists>j. sent (send_run sf evs mem (build x) out) = Some (out @ take j (wire mem x)) \<and>
    (succeeded (send_run sf evs mem (build x) out) \<longrightarrow> length (wire mem x) \<le> j)"
proof -
  obtain iovs where "build x = Some (mkWriteState iovs)" "iovs_ok iovs"
      "iovs_bytes mem iovs = wire mem x"
    using build_law assms by blast
  then show ?thesis
    using write_run_prefix [of iovs sf evs mem out] by (simp add: send_run_def writing_fresh)
qed

text \<open>Whatever the schedule does, a send that reports success has put exactly the frame on the wire.\<close>

lemma send_success_exact:
  assumes "sendable x" "succeeded (send_run sf evs mem (build x) out)"
  shows "sent (send_run sf evs mem (build x) out) = Some (out @ wire mem x)"
  using send_prefix [OF assms(1), of sf evs mem out] assms(2) by force

end

interpretation raw_writer: frame_writer "\<lambda>data. Some (RpcVectorWriteState data)" "\<lambda>mem data. data" "\<lambda>data. True"
  by unfold_locales (auto simp: RpcVectorWriteState_def iov_ok_def iov_bytes_def)

end
