(* ===== verification/Rpc_Reader.thy ===== *)
theory Rpc_Reader
  imports Rpc_Await
begin

text \<open>
  The contract between the ring-buffer read machine of \<^verbatim>\<open>src/galay-rpc/kernel/rpc_await.h\<close> and the read
  states that plug into it (\<^verbatim>\<open>parseFromRingBuffer\<close> of the request, response, header, body and stream
  states), and what the machine guarantees for every state that keeps it: however the transport
  cuts the byte stream, the machine ends with the message at the front of the stream.

  A state's behaviour is given by \<open>spec\<close>, a function of its phase and of the bytes waiting in the
  ring: it needs more, fails, or has a value; and it says how many bytes are taken off the ring.
  \<open>valid\<close> is what the caller of a read owes its state: an output buffer with room for the value.
\<close>

datatype 'v parse_outcome = More | Fail RpcError | Got 'v

locale ring_reader = ring_buffer ops ring_inv
  for ops :: "'rb ring_ops" and ring_inv :: "'rb \<Rightarrow> bool" +
  fixes parse :: "('rb, 's) parser"
    and phase :: "'s \<Rightarrow> 'p"
    and spec :: "'p \<Rightarrow> bytes \<Rightarrow> 'p \<times> nat \<times> 'v parse_outcome"
    and val :: "memory \<Rightarrow> 's \<Rightarrow> 'v"
    and valid :: "'s \<Rightarrow> bool"
  assumes parse_law: "ring_inv (r_ring_buffer st) \<Longrightarrow> valid (r_self st) \<Longrightarrow>
      spec (phase (r_self st)) (ring_content ops mem (r_ring_buffer st)) = (p', n, out) \<Longrightarrow>
      \<exists>st'. parse mem st = Some (out \<noteq> More, st') \<and>
        ring_inv (r_ring_buffer st') \<and>
        (\<forall>mem'. ring_content ops mem' (r_ring_buffer st') = drop n (ring_content ops mem' (r_ring_buffer st))) \<and>
        ring_capacity ops (r_ring_buffer st') = ring_capacity ops (r_ring_buffer st) \<and>
        phase (r_self st') = p' \<and>
        r_error st' = (case out of Fail e \<Rightarrow> Some e | _ \<Rightarrow> r_error st) \<and>
        (case out of Got v \<Rightarrow> val mem (r_self st') = v | _ \<Rightarrow> True)"
    and valid_law: "parse mem st = Some (found, st') \<Longrightarrow> valid (r_self st) \<Longrightarrow> valid (r_self st')"
    and more_law: "spec p c = (p', n, More) \<Longrightarrow>
      n \<le> length c \<and>
      spec p (c @ d) = (case spec p' (drop n c @ d) of (p'', k, out) \<Rightarrow> (p'', n + k, out))"
    and got_law: "spec p c = (p', n, Got v) \<Longrightarrow> n \<le> length c \<and> spec p (take n c @ d) = (p', n, Got v)"
    and fail_law: "spec p c = (p', n, Fail e) \<Longrightarrow>
      n \<le> length c \<and> (\<exists>p'' e'. spec p (c @ d) = (p'', n, Fail e') \<and> err_code e' = err_code e)"

text \<open>A machine that waits for its message: no error and no result yet.\<close>

definition reading :: "('rb, 's) ReadMachine \<Rightarrow> bool" where
  "reading m \<longleftrightarrow> rm_result m = None \<and> r_error (rm_state m) = None"

abbreviation machine_ring :: "('rb, 's) ReadMachine \<Rightarrow> 'rb" where
  "machine_ring m \<equiv> r_ring_buffer (rm_state m)"

abbreviation machine_self :: "('rb, 's) ReadMachine \<Rightarrow> 's" where
  "machine_self m \<equiv> r_self (rm_state m)"

text \<open>A machine that waits for its message, with an output that can take it.\<close>

definition active :: "('s \<Rightarrow> bool) \<Rightarrow> ('rb, 's) ReadMachine \<Rightarrow> bool" where
  "active valid m \<longleftrightarrow> reading m \<and> valid (machine_self m)"

lemma active_valid: "active valid m \<Longrightarrow> valid (machine_self m)"
  by (simp add: active_def)

lemma active_True: "active (\<lambda>_. True) = reading"
  by (simp add: fun_eq_iff active_def)

lemma read_run_done: "rm_result m = Some r \<Longrightarrow> read_run ops parse evs mem m stream = Finished r mem m stream"
  by (cases evs) (simp_all add: read_advance_def)

lemma reading_fresh [simp]: "reading (RpcRingBufferReadMachine (mkReadState rb self))"
  by (simp add: reading_def RpcRingBufferReadMachine_def mkReadState_def)

lemma fresh_machine_sel [simp]:
  "machine_ring (RpcRingBufferReadMachine (mkReadState rb self)) = rb"
  "machine_self (RpcRingBufferReadMachine (mkReadState rb self)) = self"
  by (simp_all add: RpcRingBufferReadMachine_def mkReadState_def)

context ring_reader
begin

lemma advance_got:
  assumes "active valid m" "ring_inv (machine_ring m)"
    and "spec (phase (machine_self m)) (ring_content ops mem (machine_ring m)) = (p', n, Got v)"
  obtains m' where "read_advance ops parse mem m = Some (Complete (Inr True), m')"
    "ring_inv (machine_ring m')"
    "ring_content ops mem (machine_ring m') = drop n (ring_content ops mem (machine_ring m))"
    "ring_capacity ops (machine_ring m') = ring_capacity ops (machine_ring m)"
    "val mem (machine_self m') = v"
  using parse_law [OF assms(2) active_valid [OF assms(1)] assms(3)] assms(1) that
  by (force simp: read_advance_def active_def reading_def takeReadResult_def Let_def)

lemma advance_fail:
  assumes "active valid m" "ring_inv (machine_ring m)"
    and "spec (phase (machine_self m)) (ring_content ops mem (machine_ring m)) = (p', n, Fail e)"
  obtains m' where "read_advance ops parse mem m = Some (Complete (Inl e), m')"
    "ring_inv (machine_ring m')"
    "ring_content ops mem (machine_ring m') = drop n (ring_content ops mem (machine_ring m))"
  using parse_law [OF assms(2) active_valid [OF assms(1)] assms(3)] assms(1) that
  by (force simp: read_advance_def active_def reading_def takeReadResult_def Let_def)

lemma window_positive: "ring_inv rb \<Longrightarrow> fst (prepareRingBufferReadWindow ops rb) \<longleftrightarrow> 0 < ring_space ops rb"
  by (simp add: prepareRingBufferReadWindow_def ring_space_def in_memory_readable write_in_memory Let_def)

lemma advance_more:
  assumes "active valid m" "ring_inv (machine_ring m)"
    and "spec (phase (machine_self m)) (ring_content ops mem (machine_ring m)) = (p', n, More)"
    and "length (ring_content ops mem (machine_ring m)) - n < ring_capacity ops (machine_ring m)"
  obtains m' where "read_advance ops parse mem m =
      Some (WaitReadv (rb_getWriteIovecs ops (machine_ring m')), m')"
    "active valid m'" "ring_inv (machine_ring m')" "phase (machine_self m') = p'"
    "\<forall>mem'. ring_content ops mem' (machine_ring m') = drop n (ring_content ops mem' (machine_ring m))"
    "ring_capacity ops (machine_ring m') = ring_capacity ops (machine_ring m)"
    "0 < ring_space ops (machine_ring m')"
proof -
  obtain st' where st: "parse mem (rm_state m) = Some (False, st')" "ring_inv (r_ring_buffer st')"
      "\<forall>mem'. ring_content ops mem' (r_ring_buffer st') = drop n (ring_content ops mem' (machine_ring m))"
      "ring_capacity ops (r_ring_buffer st') = ring_capacity ops (machine_ring m)"
      "phase (r_self st') = p'" "r_error st' = r_error (rm_state m)"
    using parse_law [OF assms(2) active_valid [OF assms(1)] assms(3)] by auto
  then have valid: "valid (r_self st')" using valid_law active_valid [OF assms(1)] by blast
  have space: "0 < ring_space ops (r_ring_buffer st')"
    using capacity_split [OF st(2), of mem] st assms(4) by simp
  then have "fst (prepareRingBufferReadWindow ops (r_ring_buffer st'))"
    using window_positive [OF st(2)] by simp
  then show ?thesis
    using that [of "\<lparr>rm_state = st'\<lparr>r_read_iovecs := rb_getWriteIovecs ops (r_ring_buffer st')\<rparr>, rm_result = None\<rparr>"]
      st space assms(1) valid
    by (simp add: read_advance_def active_def reading_def prepareReadWindow_def prepareRingBufferReadWindow_def Let_def)
qed

lemma advance_full:
  assumes "active valid m" "ring_inv (machine_ring m)"
    and "spec (phase (machine_self m)) (ring_content ops mem (machine_ring m)) = (p', n, More)"
    and "length (ring_content ops mem (machine_ring m)) - n = ring_capacity ops (machine_ring m)"
  shows "\<exists>m'. read_advance ops parse mem m =
      Some (Complete (Inl (mkRpcError INTERNAL_ERROR ''No writable ring buffer space'')), m')"
proof -
  obtain st' where st: "parse mem (rm_state m) = Some (False, st')" "ring_inv (r_ring_buffer st')"
      "\<forall>mem'. ring_content ops mem' (r_ring_buffer st') = drop n (ring_content ops mem' (machine_ring m))"
      "ring_capacity ops (r_ring_buffer st') = ring_capacity ops (machine_ring m)"
    using parse_law [OF assms(2) active_valid [OF assms(1)] assms(3)] by auto
  have "ring_space ops (r_ring_buffer st') = 0"
    using capacity_split [OF st(2), of mem] st assms(4) by simp
  then have "\<not> fst (prepareRingBufferReadWindow ops (r_ring_buffer st'))"
    using window_positive [OF st(2)] by simp
  then show ?thesis
    using st assms(1)
    by (auto simp: read_advance_def active_def reading_def prepareReadWindow_def prepareRingBufferReadWindow_def
        takeReadResult_def Let_def)
qed

lemma receive_reading:
  assumes "active valid m" "ring_inv (machine_ring m)" "bs \<noteq> []" "length bs \<le> ring_space ops (machine_ring m)"
  shows "active valid (read_onRead ops (Inr (length bs)) m)"
    "ring_inv (machine_ring (read_onRead ops (Inr (length bs)) m))"
    "machine_self (read_onRead ops (Inr (length bs)) m) = machine_self m"
    "ring_content ops (mem_write mem (iovs_addrs (rb_getWriteIovecs ops (machine_ring m))) bs)
        (machine_ring (read_onRead ops (Inr (length bs)) m)) = ring_content ops mem (machine_ring m) @ bs"
    "ring_capacity ops (machine_ring (read_onRead ops (Inr (length bs)) m)) = ring_capacity ops (machine_ring m)"
  using assms receive_content [OF assms(2,4)]
  by (simp_all add: read_onRead_def active_def reading_def onBytesReceived_def)

text \<open>
  The ring never fills up before the message at the front of \<open>c @ stream\<close> is complete: wherever the
  stream is cut, the bytes still waiting are fewer than the ring holds.
\<close>

definition fits :: "'p \<Rightarrow> bytes \<Rightarrow> bytes \<Rightarrow> nat \<Rightarrow> bool" where
  "fits p c stream cap \<longleftrightarrow> (\<forall>k p' n. spec p (c @ take k stream) = (p', n, More) \<longrightarrow>
     length (c @ take k stream) - n < cap)"

lemma fits_step:
  assumes "fits p c stream cap" "spec p c = (p', n, More)"
  shows "fits p' (drop n c @ take j stream) (drop j stream) cap"
  unfolding fits_def
proof (intro allI impI)
  fix k q l
  let ?c = "drop n c @ take j stream" and ?t = "take k (drop j stream)"
  assume q: "spec p' (?c @ ?t) = (q, l, More)"
  have tt: "take j stream @ ?t = take (j + k) stream" by (simp add: take_add)
  have "spec p (c @ take (j + k) stream) = (q, n + l, More)"
    using more_law [OF assms(2), of "take (j + k) stream"] q by (simp add: tt)
  then have "length (c @ take (j + k) stream) - (n + l) < cap"
    using assms(1) by (auto simp: fits_def)
  moreover have "n \<le> length c" using more_law [OF assms(2)] by blast
  ultimately show "length (?c @ ?t) - l < cap"
    unfolding append_assoc tt by simp
qed

lemma got_prefix:
  assumes "spec p (c @ stream) = (p', n, Got v)" "n \<le> length c"
  shows "spec p c = (p', n, Got v)"
  using got_law [OF assms(1), of "drop n c"] assms(2) by simp

text \<open>A state that still waits has fewer bytes than its message, so a message that the ring can hold fits.\<close>

lemma waiting_short:
  assumes "spec p (c @ stream) = (p', n, Got v)" "spec p (c @ take k stream) = (q, l, More)"
  shows "length (c @ take k stream) < n"
  using got_prefix [of p "c @ take k stream" "drop k stream" p' n v] assms by fastforce

lemma fits_got:
  assumes "spec p (c @ stream) = (p', n, Got v)" "n \<le> cap"
  shows "fits p c stream cap"
  using waiting_short [OF assms(1)] assms(2) by (fastforce simp: fits_def)

lemma got_split:
  assumes "spec p (c @ stream) = (p', n, Got v)"
  obtains "n \<le> length c" "spec p c = (p', n, Got v)"
  | q k where "length c < n" "spec p c = (q, k, More)" "stream \<noteq> []" "k \<le> n" "k \<le> length c"
      "spec q (drop k c @ stream) = (p', n - k, Got v)"
proof (cases "n \<le> length c")
  case True
  then show ?thesis using that(1) got_prefix [OF assms] by blast
next
  case False
  obtain q k out where s: "spec p c = (q, k, out)" by (cases "spec p c") auto
  show ?thesis
  proof (cases out)
    case More
    have "stream \<noteq> []" using assms s More by auto
    moreover have "\<exists>l. n = k + l \<and> spec q (drop k c @ stream) = (p', l, Got v)" "k \<le> length c"
      using more_law [of p c q k stream] s More assms by (auto split: prod.splits)
    ultimately show ?thesis using that(2) False s More by auto
  next
    case (Fail e)
    then show ?thesis using fail_law [of p c q k e stream] s assms by auto
  next
    case (Got w)
    then have "k \<le> length c" "spec p (c @ stream) = (q, k, Got w)"
      using got_law [of p c q k w "drop k c @ stream"] s by (auto simp flip: append_assoc)
    then show ?thesis using assms False by simp
  qed
qed

text \<open>One round of the driver while the message is incomplete: some bytes move from the stream to the ring.\<close>

lemma deliver_room:
  assumes "active valid m" "ring_inv (machine_ring m)" "0 < k" "stream \<noteq> []"
    and more: "spec (phase (machine_self m)) (ring_content ops mem (machine_ring m)) = (q, l, More)"
    and room: "length (ring_content ops mem (machine_ring m)) - l < ring_capacity ops (machine_ring m)"
  obtains mem1 m1 j where
    "read_run ops parse (Deliver k # evs) mem m stream = read_run ops parse evs mem1 m1 (drop j stream)"
    "active valid m1" "ring_inv (machine_ring m1)" "phase (machine_self m1) = q" "0 < j" "j \<le> length stream"
    "ring_content ops mem1 (machine_ring m1) = drop l (ring_content ops mem (machine_ring m)) @ take j stream"
    "ring_capacity ops (machine_ring m1) = ring_capacity ops (machine_ring m)"
proof -
  let ?c = "ring_content ops mem (machine_ring m)"
  from advance_more [OF assms(1,2) more room] obtain m1 where
    m1: "read_advance ops parse mem m = Some (WaitReadv (rb_getWriteIovecs ops (machine_ring m1)), m1)"
      "active valid m1" "ring_inv (machine_ring m1)" "phase (machine_self m1) = q"
      "\<forall>mem'. ring_content ops mem' (machine_ring m1) = drop l (ring_content ops mem' (machine_ring m))"
      "ring_capacity ops (machine_ring m1) = ring_capacity ops (machine_ring m)"
      "0 < ring_space ops (machine_ring m1)" .
  define j where "j = min (length stream) (min k (ring_space ops (machine_ring m1)))"
  let ?bs = "take j stream"
  let ?mem = "mem_write mem (iovs_addrs (rb_getWriteIovecs ops (machine_ring m1))) ?bs"
  let ?m = "read_onRead ops (Inr (length ?bs)) m1"
  have j: "0 < j" "j \<le> length stream" "length ?bs = j"
    using assms(3,4) m1(7) by (auto simp: j_def)
  have bs: "?bs \<noteq> []" "length ?bs \<le> ring_space ops (machine_ring m1)"
    using j by (auto simp: j_def)
  note r = receive_reading [OF m1(2,3) bs]
  have c': "ring_content ops ?mem (machine_ring ?m) = drop l ?c @ ?bs" using r(4) m1(5) by simp
  have "take (min k (length (iovs_addrs (rb_getWriteIovecs ops (machine_ring m1))))) stream = ?bs"
    by (simp add: j_def ring_space_def min_def)
  then have run: "read_run ops parse (Deliver k # evs) mem m stream = read_run ops parse evs ?mem ?m (drop j stream)"
    using m1(1) j write_ok [OF m1(3)] by (simp add: Let_def)
  with r c' j m1 show ?thesis using that [of ?mem ?m j] by simp
qed

lemma deliver_step:
  assumes "active valid m" "ring_inv (machine_ring m)" "0 < k" "stream \<noteq> []"
    and more: "spec (phase (machine_self m)) (ring_content ops mem (machine_ring m)) = (q, l, More)"
    and fit: "fits (phase (machine_self m)) (ring_content ops mem (machine_ring m)) stream (ring_capacity ops (machine_ring m))"
  obtains mem1 m1 j where
    "read_run ops parse (Deliver k # evs) mem m stream = read_run ops parse evs mem1 m1 (drop j stream)"
    "active valid m1" "ring_inv (machine_ring m1)" "phase (machine_self m1) = q" "0 < j" "j \<le> length stream"
    "ring_content ops mem1 (machine_ring m1) = drop l (ring_content ops mem (machine_ring m)) @ take j stream"
    "ring_capacity ops (machine_ring m1) = ring_capacity ops (machine_ring m)"
    "fits q (ring_content ops mem1 (machine_ring m1)) (drop j stream) (ring_capacity ops (machine_ring m1))"
proof -
  have "length (ring_content ops mem (machine_ring m)) - l < ring_capacity ops (machine_ring m)"
    using fit more by (auto simp: fits_def dest: spec [where x = 0])
  from deliver_room [OF assms(1-5) this, of evs] obtain mem1 m1 j where
    s: "read_run ops parse (Deliver k # evs) mem m stream = read_run ops parse evs mem1 m1 (drop j stream)"
      "active valid m1" "ring_inv (machine_ring m1)" "phase (machine_self m1) = q" "0 < j" "j \<le> length stream"
      "ring_content ops mem1 (machine_ring m1) = drop l (ring_content ops mem (machine_ring m)) @ take j stream"
      "ring_capacity ops (machine_ring m1) = ring_capacity ops (machine_ring m)" .
  then show ?thesis using that fits_step [OF fit more, of j] by simp
qed

lemma read_complete:
  assumes "active valid m" "ring_inv (machine_ring m)" "delivers evs"
    and "spec (phase (machine_self m)) (ring_content ops mem (machine_ring m) @ stream) = (p', n, Got v)"
    and "fits (phase (machine_self m)) (ring_content ops mem (machine_ring m)) stream (ring_capacity ops (machine_ring m))"
    and "n \<le> length (ring_content ops mem (machine_ring m)) + length evs"
  shows "\<exists>mem' m' rest. read_run ops parse evs mem m stream = Finished (Inr True) mem' m' rest \<and>
    val mem' (machine_self m') = v \<and> ring_inv (machine_ring m') \<and>
    ring_capacity ops (machine_ring m') = ring_capacity ops (machine_ring m) \<and>
    ring_content ops mem' (machine_ring m') @ rest = drop n (ring_content ops mem (machine_ring m) @ stream)"
  using assms
proof (induction evs arbitrary: mem m stream n)
  case Nil
  let ?c = "ring_content ops mem (machine_ring m)" and ?p = "phase (machine_self m)"
  have n: "n \<le> length ?c" using Nil.prems(6) by simp
  then have "spec ?p ?c = (p', n, Got v)" using got_prefix [OF Nil.prems(4)] by simp
  from advance_got [OF Nil.prems(1,2) this] obtain m' where "read_advance ops parse mem m = Some (Complete (Inr True), m')"
      "ring_inv (machine_ring m')" "ring_content ops mem (machine_ring m') = drop n ?c"
      "ring_capacity ops (machine_ring m') = ring_capacity ops (machine_ring m)" "val mem (machine_self m') = v" .
    then show ?case using n by simp
next
  case (Cons ev evs)
  let ?c = "ring_content ops mem (machine_ring m)" and ?p = "phase (machine_self m)"
  obtain k where ev: "ev = Deliver k" "0 < k" "delivers evs" using Cons.prems(3) by (cases ev) auto
  from Cons.prems(4) show ?case
  proof (rule got_split)
    assume n: "n \<le> length ?c" and "spec ?p ?c = (p', n, Got v)"
    from advance_got [OF Cons.prems(1,2) this(2)] obtain m' where "read_advance ops parse mem m = Some (Complete (Inr True), m')"
      "ring_inv (machine_ring m')" "ring_content ops mem (machine_ring m') = drop n ?c"
      "ring_capacity ops (machine_ring m') = ring_capacity ops (machine_ring m)" "val mem (machine_self m') = v" .
    then show ?case using n by simp
  next
    fix q l assume l: "length ?c < n" "spec ?p ?c = (q, l, More)" "stream \<noteq> []" "l \<le> n" "l \<le> length ?c"
      "spec q (drop l ?c @ stream) = (p', n - l, Got v)"
    from deliver_step [OF Cons.prems(1,2) ev(2) l(3,2) Cons.prems(5), of evs] obtain mem1 m1 j where
      s: "read_run ops parse (Deliver k # evs) mem m stream = read_run ops parse evs mem1 m1 (drop j stream)"
        "active valid m1" "ring_inv (machine_ring m1)" "phase (machine_self m1) = q" "0 < j" "j \<le> length stream"
        "ring_content ops mem1 (machine_ring m1) = drop l ?c @ take j stream"
        "ring_capacity ops (machine_ring m1) = ring_capacity ops (machine_ring m)"
        "fits q (ring_content ops mem1 (machine_ring m1)) (drop j stream) (ring_capacity ops (machine_ring m1))" .
    have all: "ring_content ops mem1 (machine_ring m1) @ drop j stream = drop l (?c @ stream)"
      using s(7) l(5) by simp
    have "spec (phase (machine_self m1)) (ring_content ops mem1 (machine_ring m1) @ drop j stream) = (p', n - l, Got v)"
      using l(5,6) s(4) all by simp
    moreover have "n - l \<le> length (ring_content ops mem1 (machine_ring m1)) + length evs"
      using Cons.prems(6) s(5,6,7) l(5) by simp
    ultimately have "\<exists>mem' m' rest. read_run ops parse evs mem1 m1 (drop j stream) = Finished (Inr True) mem' m' rest \<and>
        val mem' (machine_self m') = v \<and> ring_inv (machine_ring m') \<and>
        ring_capacity ops (machine_ring m') = ring_capacity ops (machine_ring m1) \<and>
        ring_content ops mem' (machine_ring m') @ rest = drop (n - l) (drop l (?c @ stream))"
      using Cons.IH [OF s(2,3) ev(3), of mem1 "drop j stream" "n - l"] s(4,9) all by simp
    then show ?case using s(1,8) ev(1) l(4) by (simp only: drop_drop) simp
  qed
qed

text \<open>
  A read ends whatever the peer and the transport do, for a state that leaves an incomplete message in
  the ring: every completion fails, reports the end of the stream or takes room from the ring.
\<close>

lemma advance_stops:
  assumes "active valid m" "ring_inv (machine_ring m)"
    and keeps: "\<And>p c p' n. spec p c = (p', n, More) \<Longrightarrow> n = 0"
  obtains (stops) r m' where "read_advance ops parse mem m = Some (Complete r, m')"
  | (waits) p' where "spec (phase (machine_self m)) (ring_content ops mem (machine_ring m)) = (p', 0, More)"
      "length (ring_content ops mem (machine_ring m)) - 0 < ring_capacity ops (machine_ring m)"
      "0 < ring_space ops (machine_ring m)"
proof -
  let ?c = "ring_content ops mem (machine_ring m)" and ?p = "phase (machine_self m)"
  obtain p' n out where s: "spec ?p ?c = (p', n, out)" by (cases "spec ?p ?c") auto
  show thesis
  proof (cases out)
    case More
    then have "n = 0" using s keeps by blast
    then show ?thesis
      using s More stops waits advance_full [OF assms(1,2), of mem p' 0] capacity_split [OF assms(2), of mem]
      by (cases "ring_space ops (machine_ring m) = 0") auto
  next
    case (Fail e)
    then show ?thesis using advance_fail [OF assms(1,2), of mem p' n e] s stops by blast
  next
    case (Got v)
    then show ?thesis using advance_got [OF assms(1,2), of mem p' n v] s stops by blast
  qed
qed

lemma barren_event_ends:
  assumes "active valid m" "ring_inv (machine_ring m)" "(case ev of Deliver k \<Rightarrow> k = 0 \<or> stream = [] | IoFail e \<Rightarrow> True)"
    and "spec (phase (machine_self m)) (ring_content ops mem (machine_ring m)) = (p', n, More)"
    and "length (ring_content ops mem (machine_ring m)) - n < ring_capacity ops (machine_ring m)"
  shows "\<exists>r mem' m'. read_run ops parse (ev # evs) mem m stream = Finished r mem' m' stream"
proof -
  from advance_more [OF assms(1,2,4,5)] obtain m1 where
    "read_advance ops parse mem m = Some (WaitReadv (rb_getWriteIovecs ops (machine_ring m1)), m1)"
    "ring_inv (machine_ring m1)" .
  then show ?thesis
    using assms(3) write_ok by (cases ev) (auto simp: read_run_done read_onRead_def Let_def)
qed

lemma read_terminates:
  assumes "active valid m" "ring_inv (machine_ring m)" "ring_space ops (machine_ring m) \<le> length evs"
    and keeps: "\<And>p c p' n. spec p c = (p', n, More) \<Longrightarrow> n = 0"
  shows "\<exists>r mem' m' j. read_run ops parse evs mem m stream = Finished r mem' m' (drop j stream) \<and>
    j \<le> ring_space ops (machine_ring m)"
  using assms(1-3)
proof (induction evs arbitrary: mem m stream)
  case Nil
  show ?case
    by (rule advance_stops [OF Nil.prems(1,2) keeps, where mem = mem]) (use Nil.prems(3) in \<open>auto intro!: exI [of _ 0]\<close>)
next
  case (Cons ev evs)
  let ?c = "ring_content ops mem (machine_ring m)"
  consider (stops) r m' where "read_advance ops parse mem m = Some (Complete r, m')"
    | (waits) p' where "spec (phase (machine_self m)) ?c = (p', 0, More)"
      "length ?c - 0 < ring_capacity ops (machine_ring m)"
    by (rule advance_stops [OF Cons.prems(1,2) keeps, where mem = mem]) blast+
  then show ?case
  proof cases
    case (stops r m')
    then show ?thesis by (intro exI [of _ r] exI [of _ mem] exI [of _ m'] exI [of _ 0]) simp
  next
    case (waits p')
    show ?thesis
    proof (cases "case ev of Deliver k \<Rightarrow> k = 0 \<or> stream = [] | IoFail e \<Rightarrow> True")
      case True
      from barren_event_ends [OF Cons.prems(1,2) True waits(1,2), of evs] show ?thesis
        by (metis drop0 le0)
    next
      case False
      then obtain k where k: "ev = Deliver k" "0 < k" "stream \<noteq> []" by (cases ev) auto
      from deliver_room [OF Cons.prems(1,2) k(2,3) waits(1,2), of evs] obtain mem1 m1 j where
        d: "read_run ops parse (Deliver k # evs) mem m stream = read_run ops parse evs mem1 m1 (drop j stream)"
          "active valid m1" "ring_inv (machine_ring m1)" "0 < j" "j \<le> length stream"
          "ring_content ops mem1 (machine_ring m1) = drop 0 ?c @ take j stream"
          "ring_capacity ops (machine_ring m1) = ring_capacity ops (machine_ring m)" .
      have sp: "ring_space ops (machine_ring m1) + j = ring_space ops (machine_ring m)"
        using capacity_split [OF d(3), of mem1] capacity_split [OF Cons.prems(2), of mem] d(5-7) by simp
      from Cons.IH [OF d(2,3), of mem1 "drop j stream"] sp d(4) Cons.prems(3) obtain r mem' m' i where
        "read_run ops parse evs mem1 m1 (drop j stream) = Finished r mem' m' (drop i (drop j stream))"
        "i \<le> ring_space ops (machine_ring m1)" by auto
      then show ?thesis
        using k d(1) sp by (intro exI [of _ r] exI [of _ mem'] exI [of _ m'] exI [of _ "i + j"]) simp
    qed
  qed
qed

text \<open>A turn of the machine, whatever the ring holds.\<close>

lemma advance_safe:
  assumes "active valid m" "ring_inv (machine_ring m)"
  obtains (ends) r m' where "read_advance ops parse mem m = Some (Complete r, m')" "ring_inv (machine_ring m')"
      "ring_capacity ops (machine_ring m') = ring_capacity ops (machine_ring m)"
      "\<forall>b. r = Inr b \<longrightarrow> (\<exists>p c p' n v. spec p c = (p', n, Got v) \<and> val mem (machine_self m') = v)"
  | (waits) m' where "read_advance ops parse mem m = Some (WaitReadv (rb_getWriteIovecs ops (machine_ring m')), m')"
      "active valid m'" "ring_inv (machine_ring m')" "ring_capacity ops (machine_ring m') = ring_capacity ops (machine_ring m)"
proof -
  obtain p' n out where s: "spec (phase (machine_self m)) (ring_content ops mem (machine_ring m)) = (p', n, out)"
    by (metis prod_cases3)
  obtain st' where st: "parse mem (rm_state m) = Some (out \<noteq> More, st')" "ring_inv (r_ring_buffer st')"
      "ring_capacity ops (r_ring_buffer st') = ring_capacity ops (machine_ring m)"
      "r_error st' = (case out of Fail e \<Rightarrow> Some e | _ \<Rightarrow> r_error (rm_state m))"
      "case out of Got v \<Rightarrow> val mem (r_self st') = v | _ \<Rightarrow> True"
    using parse_law [OF assms(2) active_valid [OF assms(1)] s] by blast
  then have valid: "valid (r_self st')" using valid_law active_valid [OF assms(1)] by blast
  note defs = read_advance_def active_def reading_def takeReadResult_def prepareReadWindow_def prepareRingBufferReadWindow_def Let_def
  show thesis
  proof (cases out)
    case More
    show thesis
    proof (cases "iovecsReadableBytes (rb_getWriteIovecs ops (r_ring_buffer st')) > 0")
      case True
      then show thesis
        using More st assms(1) valid waits [of "\<lparr>rm_state = st'\<lparr>r_read_iovecs := rb_getWriteIovecs ops (r_ring_buffer st')\<rparr>, rm_result = None\<rparr>"]
        by (simp add: defs)
    next
      case False
      let ?e = "mkRpcError INTERNAL_ERROR ''No writable ring buffer space''"
      show thesis
        using False More st assms(1)
        by (intro ends [of "Inl ?e" "\<lparr>rm_state = st'\<lparr>r_read_iovecs := rb_getWriteIovecs ops (r_ring_buffer st'), r_error := Some ?e\<rparr>,
            rm_result = Some (Inl ?e)\<rparr>"]) (auto simp: defs)
    qed
  next
    case (Fail e)
    then show thesis using st assms(1) by (intro ends [of "Inl e" "\<lparr>rm_state = st', rm_result = Some (Inl e)\<rparr>"]) (auto simp: defs)
  next
    case (Got v)
    then show thesis using st assms(1) s by (intro ends [of "Inr True" "\<lparr>rm_state = st', rm_result = Some (Inr True)\<rparr>"]) (auto simp: defs)
  qed
qed

text \<open>
  What every read ends with, whatever the peer sends and the transport does: no access outside a buffer,
  a ring that is still in order, and on success a value that the state's specification gives.
\<close>

definition read_ok :: "nat \<Rightarrow> ('rb, 's) ReadMachine run_result \<Rightarrow> bool" where
  "read_ok cap result \<longleftrightarrow>
     (case result of
        Undefined \<Rightarrow> False
      | Suspended _ _ _ \<Rightarrow> True
      | Finished r mem m rest \<Rightarrow> ring_inv (machine_ring m) \<and> ring_capacity ops (machine_ring m) = cap \<and>
          (\<forall>b. r = Inr b \<longrightarrow> (\<exists>p c p' n v. spec p c = (p', n, Got v) \<and> val mem (machine_self m) = v)))"

lemma read_safe:
  assumes "active valid m" "ring_inv (machine_ring m)" "ring_capacity ops (machine_ring m) = cap"
  shows "read_ok cap (read_run ops parse evs mem m stream)"
  using assms
proof (induction evs arbitrary: mem m stream)
  case Nil
  show ?case by (rule advance_safe [OF Nil(1,2), of mem]) (simp_all add: read_ok_def Nil(3))
next
  case (Cons ev evs)
  show ?case
  proof (rule advance_safe [OF Cons.prems(1,2), of mem])
    fix m1 assume m1: "read_advance ops parse mem m = Some (WaitReadv (rb_getWriteIovecs ops (machine_ring m1)), m1)"
      "active valid m1" "ring_inv (machine_ring m1)" "ring_capacity ops (machine_ring m1) = ring_capacity ops (machine_ring m)"
    have fails: "read_ok cap (read_run ops parse evs mem' (read_onRead ops r m1) stream')"
      if "\<forall>n. r = Inr n \<longrightarrow> n = 0" for r mem' stream'
      using that m1(2-4) Cons.prems(3)
      by (cases r) (auto simp: read_ok_def read_onRead_def read_run_done setRecvError_def onPeerClosed_def takeReadResult_def Let_def)
    have receives: "read_ok cap (read_run ops parse evs mem' (read_onRead ops (Inr (length bs)) m1) stream')"
      if "length bs \<le> ring_space ops (machine_ring m1)" for bs :: bytes and mem' stream'
      using fails [of "Inr 0"] Cons.IH receive_reading [OF m1(2,3) _ that] m1(4) Cons.prems(3) by (cases "bs = []") simp_all
    have room: "length (take (min k (length (iovs_addrs (rb_getWriteIovecs ops (machine_ring m1))))) stream) \<le> ring_space ops (machine_ring m1)"
      for k by (simp add: ring_space_def)
    show ?case
      using m1(1) write_ok [OF m1(3)] fails [of "Inl _"] receives [OF room] by (cases ev) (simp_all add: Let_def del: length_take)
  qed (simp add: read_ok_def Cons.prems(3))
qed

lemma read_fails:
  assumes "active valid m" "ring_inv (machine_ring m)" "delivers evs"
    and "spec (phase (machine_self m)) (ring_content ops mem (machine_ring m) @ stream) = (p', n, Fail e)"
    and "fits (phase (machine_self m)) (ring_content ops mem (machine_ring m)) stream (ring_capacity ops (machine_ring m))"
    and "length stream \<le> length evs"
  shows "\<exists>mem' m' rest e'. read_run ops parse evs mem m stream = Finished (Inl e') mem' m' rest \<and>
    err_code e' = err_code e \<and> ring_inv (machine_ring m') \<and>
    ring_content ops mem' (machine_ring m') @ rest = drop n (ring_content ops mem (machine_ring m) @ stream)"
  using assms
proof (induction evs arbitrary: mem m stream n)
  case Nil
  then have "spec (phase (machine_self m)) (ring_content ops mem (machine_ring m)) = (p', n, Fail e)" by simp
  from advance_fail [OF Nil.prems(1,2) this] obtain m' where "read_advance ops parse mem m = Some (Complete (Inl e), m')"
      "ring_inv (machine_ring m')" "ring_content ops mem (machine_ring m') = drop n (ring_content ops mem (machine_ring m))" .
  then show ?case using Nil.prems(6) by simp
next
  case (Cons ev evs)
  let ?c = "ring_content ops mem (machine_ring m)" and ?p = "phase (machine_self m)"
  obtain k where ev: "ev = Deliver k" "0 < k" "delivers evs" using Cons.prems(3) by (cases ev) auto
  obtain q l out where s: "spec ?p ?c = (q, l, out)" by (cases "spec ?p ?c") auto
  show ?case
  proof (cases out)
    case (Got w)
    then have "spec ?p (take l ?c @ drop l ?c @ stream) = (q, l, Got w)"
      using got_law [of ?p ?c q l w] s by blast
    then show ?thesis using Cons.prems(4) by (simp flip: append_assoc)
  next
    case (Fail e1)
    then have "err_code e1 = err_code e" "l = n" "l \<le> length ?c"
      using fail_law [of ?p ?c q l e1 stream] s Cons.prems(4) by auto
    moreover from Fail s advance_fail [OF Cons.prems(1,2), of mem q l e1] obtain m'
      where "read_advance ops parse mem m = Some (Complete (Inl e1), m')" "ring_inv (machine_ring m')"
        "ring_content ops mem (machine_ring m') = drop l ?c" by blast
    ultimately show ?thesis by simp
  next
    case More
    then obtain i where l: "l \<le> length ?c" "spec q (drop l ?c @ stream) = (p', i, Fail e)" "n = l + i"
      using more_law [of ?p ?c q l stream] s Cons.prems(4) by (auto split: prod.splits)
    have "stream \<noteq> []" using s More Cons.prems(4) by auto
    from deliver_step [OF Cons.prems(1,2) ev(2) this s [unfolded More] Cons.prems(5), of evs] obtain mem1 m1 j where
      d: "read_run ops parse (Deliver k # evs) mem m stream = read_run ops parse evs mem1 m1 (drop j stream)"
        "active valid m1" "ring_inv (machine_ring m1)" "phase (machine_self m1) = q" "0 < j" "j \<le> length stream"
        "ring_content ops mem1 (machine_ring m1) = drop l ?c @ take j stream"
        "fits q (ring_content ops mem1 (machine_ring m1)) (drop j stream) (ring_capacity ops (machine_ring m1))" .
    have all: "ring_content ops mem1 (machine_ring m1) @ drop j stream = drop l (?c @ stream)"
      using d(7) l(1) by simp
    have "spec (phase (machine_self m1)) (ring_content ops mem1 (machine_ring m1) @ drop j stream) = (p', i, Fail e)"
      using l(2) d(4,7) by simp
    then have "\<exists>mem' m' rest e'. read_run ops parse evs mem1 m1 (drop j stream) = Finished (Inl e') mem' m' rest \<and>
        err_code e' = err_code e \<and> ring_inv (machine_ring m') \<and>
        ring_content ops mem' (machine_ring m') @ rest = drop i (drop l (?c @ stream))"
      using Cons.IH [OF d(2,3) ev(3), of mem1 "drop j stream" i] d(4,5,6,8) Cons.prems(6) all by simp
    then show ?thesis using d(1) ev(1) l(3) by (simp only: drop_drop add.commute)
  qed
qed

text \<open>The peer closes before the message is complete.\<close>

lemma read_eof:
  assumes "active valid m" "ring_inv (machine_ring m)" "delivers evs"
    and "spec (phase (machine_self m)) (ring_content ops mem (machine_ring m) @ stream) = (p', n, More)"
    and "fits (phase (machine_self m)) (ring_content ops mem (machine_ring m)) stream (ring_capacity ops (machine_ring m))"
    and "length stream < length evs"
  shows "\<exists>mem' m' rest. read_run ops parse evs mem m stream =
    Finished (Inl (mkRpcError CONNECTION_CLOSED ''Connection closed'')) mem' m' rest"
  using assms
proof (induction evs arbitrary: mem m stream n)
  case (Cons ev evs)
  let ?c = "ring_content ops mem (machine_ring m)" and ?p = "phase (machine_self m)"
  obtain k where ev: "ev = Deliver k" "0 < k" "delivers evs" using Cons.prems(3) by (cases ev) auto
  obtain q l out where s: "spec ?p ?c = (q, l, out)" by (cases "spec ?p ?c") auto
  have More: "out = More"
    using s Cons.prems(4) got_law [of ?p ?c q l _ "drop l ?c @ stream"] fail_law [of ?p ?c q l _ stream]
    by (cases out) (auto simp flip: append_assoc)
  show ?case
  proof (cases "stream = []")
    case True
    have "length ?c - l < ring_capacity ops (machine_ring m)"
      using Cons.prems(5) s More by (auto simp: fits_def dest: spec [where x = 0])
    from advance_more [OF Cons.prems(1,2) s [unfolded More] this] obtain m' where
      "read_advance ops parse mem m = Some (WaitReadv (rb_getWriteIovecs ops (machine_ring m')), m')"
      "ring_inv (machine_ring m')" .
    then show ?thesis
      using True ev(1) write_ok
      by (simp add: read_run_done read_onRead_def onPeerClosed_def takeReadResult_def Let_def)
  next
    case False
    from deliver_step [OF Cons.prems(1,2) ev(2) False s [unfolded More] Cons.prems(5), of evs] obtain mem1 m1 j where
      d: "read_run ops parse (Deliver k # evs) mem m stream = read_run ops parse evs mem1 m1 (drop j stream)"
        "active valid m1" "ring_inv (machine_ring m1)" "phase (machine_self m1) = q" "0 < j" "j \<le> length stream"
        "ring_content ops mem1 (machine_ring m1) = drop l ?c @ take j stream"
        "fits q (ring_content ops mem1 (machine_ring m1)) (drop j stream) (ring_capacity ops (machine_ring m1))" .
    have "\<exists>i. spec (phase (machine_self m1)) (ring_content ops mem1 (machine_ring m1) @ drop j stream) = (p', i, More)"
      using more_law [of ?p ?c q l stream] s More Cons.prems(4) d(4,7) by (auto split: prod.splits)
    then show ?thesis
      using Cons.IH [OF d(2,3) ev(3)] d Cons.prems(6) ev(1) by fastforce
  qed
qed simp

text \<open>
  The ring fills up before the message is complete: the machine gives up, however the transport
  cuts the stream.
\<close>

lemma read_overflow:
  assumes "active valid m" "ring_inv (machine_ring m)" "delivers evs"
    and "\<forall>k. length (ring_content ops mem (machine_ring m) @ take k stream) \<le> ring_capacity ops (machine_ring m) \<longrightarrow>
      spec (phase (machine_self m)) (ring_content ops mem (machine_ring m) @ take k stream) =
        (phase (machine_self m), 0, More)"
    and "ring_capacity ops (machine_ring m) \<le> length (ring_content ops mem (machine_ring m) @ stream)"
    and "ring_capacity ops (machine_ring m) \<le> length (ring_content ops mem (machine_ring m)) + length evs"
  shows "\<exists>mem' m' rest. read_run ops parse evs mem m stream =
    Finished (Inl (mkRpcError INTERNAL_ERROR ''No writable ring buffer space'')) mem' m' rest"
  using assms
proof (induction evs arbitrary: mem m stream)
  case Nil
  let ?c = "ring_content ops mem (machine_ring m)"
  have len: "length ?c = ring_capacity ops (machine_ring m)"
    using Nil.prems(6) capacity_split [OF Nil.prems(2), of mem] by simp
  then have "spec (phase (machine_self m)) ?c = (phase (machine_self m), 0, More)"
    using Nil.prems(4) [rule_format, of 0] by simp
  from advance_full [OF Nil.prems(1,2) this] len show ?case by auto
next
  case (Cons ev evs)
  let ?c = "ring_content ops mem (machine_ring m)" and ?p = "phase (machine_self m)"
  obtain k where ev: "ev = Deliver k" "0 < k" "delivers evs" using Cons.prems(3) by (cases ev) auto
  have le: "length ?c \<le> ring_capacity ops (machine_ring m)"
    using capacity_split [OF Cons.prems(2), of mem] by simp
  then have more: "spec ?p ?c = (?p, 0, More)" using Cons.prems(4) [rule_format, of 0] by simp
  show ?case
  proof (cases "length ?c = ring_capacity ops (machine_ring m)")
    case True
    from advance_full [OF Cons.prems(1,2) more] True show ?thesis by auto
  next
    case False
    then have room: "length ?c - 0 < ring_capacity ops (machine_ring m)" and "stream \<noteq> []"
      using le Cons.prems(5) by auto
    from deliver_room [OF Cons.prems(1,2) ev(2) this(2) more this(1), of evs] obtain mem1 m1 j where
      d: "read_run ops parse (Deliver k # evs) mem m stream = read_run ops parse evs mem1 m1 (drop j stream)"
        "active valid m1" "ring_inv (machine_ring m1)" "phase (machine_self m1) = ?p" "0 < j" "j \<le> length stream"
        "ring_content ops mem1 (machine_ring m1) = drop 0 ?c @ take j stream"
        "ring_capacity ops (machine_ring m1) = ring_capacity ops (machine_ring m)" .
    have next_more: "\<forall>i. length (ring_content ops mem1 (machine_ring m1) @ take i (drop j stream)) \<le> ring_capacity ops (machine_ring m1) \<longrightarrow>
        spec (phase (machine_self m1)) (ring_content ops mem1 (machine_ring m1) @ take i (drop j stream)) =
          (phase (machine_self m1), 0, More)"
    proof (intro allI)
      fix i
      have "ring_content ops mem1 (machine_ring m1) @ take i (drop j stream) = ?c @ take (j + i) stream"
        using d(7) by (simp add: take_add)
      then show "length (ring_content ops mem1 (machine_ring m1) @ take i (drop j stream)) \<le> ring_capacity ops (machine_ring m1) \<longrightarrow>
          spec (phase (machine_self m1)) (ring_content ops mem1 (machine_ring m1) @ take i (drop j stream)) =
            (phase (machine_self m1), 0, More)"
        using Cons.prems(4) [rule_format, of "j + i"] d(4,8) by simp
    qed
    have "ring_capacity ops (machine_ring m1) \<le> length (ring_content ops mem1 (machine_ring m1) @ drop j stream)"
      "ring_capacity ops (machine_ring m1) \<le> length (ring_content ops mem1 (machine_ring m1)) + length evs"
      using Cons.prems(5,6) d(5-8) by simp_all
    from Cons.IH [OF d(2,3) ev(3) next_more this] show ?thesis using d(1) ev(1) by simp
  qed
qed

end

end
