(* ===== verification/Rpc_Message.thy ===== *)
theory Rpc_Message
  imports Rpc_View
begin

text \<open>
  Model of \<^verbatim>\<open>src/galay-rpc/protoc/rpc_message.h\<close>: the 16-byte header, requests and responses, their
  payload ownership and their wire format. A result \<open>None\<close> is an access outside a buffer; the lemmas
  show where it cannot happen.
\<close>

section \<open>The header\<close>

record RpcHeader =
  h_magic :: u32
  h_version :: byte
  h_type :: byte
  h_flags :: byte
  h_reserved :: byte
  h_request_id :: u32
  h_body_length :: u32

definition RpcHeader_init :: RpcHeader where
  "RpcHeader_init = \<lparr>h_magic = RPC_MAGIC, h_version = RPC_VERSION, h_type = 0, h_flags = 0,
     h_reserved = 0, h_request_id = 0, h_body_length = 0\<rparr>"

definition RpcHeader_serialize :: "endian \<Rightarrow> RpcHeader \<Rightarrow> bytes \<Rightarrow> bytes option" where
  "RpcHeader_serialize en h buffer = (
     let magic = rpcHtonl en (h_magic h);
         request_id = rpcHtonl en (h_request_id h);
         body_length = rpcHtonl en (h_body_length h)
     in do {
       b \<leftarrow> wr buffer 0 (host_store32 en magic);
       b \<leftarrow> wr b 4 [h_version h];
       b \<leftarrow> wr b 5 [h_type h];
       b \<leftarrow> wr b 6 [h_flags h];
       b \<leftarrow> wr b 7 [h_reserved h];
       b \<leftarrow> wr b 8 (host_store32 en request_id);
       wr b 12 (host_store32 en body_length) })"

text \<open>The result is the return value and the header as it stands after the call.\<close>

definition RpcHeader_deserialize :: "endian \<Rightarrow> RpcHeader \<Rightarrow> bytes \<Rightarrow> (bool \<times> RpcHeader) option" where
  "RpcHeader_deserialize en h buffer = do {
     magic \<leftarrow> rd buffer 0 4;
     let h = h\<lparr>h_magic := rpcNtohl en (host_load32 en magic)\<rparr>;
     if h_magic h \<noteq> RPC_MAGIC then Some (False, h)
     else do {
       ver \<leftarrow> rd buffer 4 1;
       ty \<leftarrow> rd buffer 5 1;
       fl \<leftarrow> rd buffer 6 1;
       re \<leftarrow> rd buffer 7 1;
       request_id \<leftarrow> rd buffer 8 4;
       body_length \<leftarrow> rd buffer 12 4;
       let h = h\<lparr>h_version := hd ver, h_type := hd ty, h_flags := hd fl, h_reserved := hd re,
                 h_request_id := rpcNtohl en (host_load32 en request_id),
                 h_body_length := rpcNtohl en (host_load32 en body_length)\<rparr>;
       Some (unat (h_body_length h) \<le> RPC_MAX_BODY_SIZE, h) } }"

text \<open>The header layout as a specification: the bytes of a header, and the header of 16 bytes.\<close>

definition header_bytes :: "RpcHeader \<Rightarrow> bytes" where
  "header_bytes h = be32 (h_magic h) @ [h_version h, h_type h, h_flags h, h_reserved h] @
     be32 (h_request_id h) @ be32 (h_body_length h)"

definition header_of :: "bytes \<Rightarrow> RpcHeader" where
  "header_of b = \<lparr>h_magic = from_be32 (take 4 b), h_version = b ! 4, h_type = b ! 5, h_flags = b ! 6,
     h_reserved = b ! 7, h_request_id = from_be32 (take 4 (drop 8 b)),
     h_body_length = from_be32 (take 4 (drop 12 b))\<rparr>"

definition header_valid :: "RpcHeader \<Rightarrow> bool" where
  "header_valid h \<longleftrightarrow> h_magic h = RPC_MAGIC \<and> unat (h_body_length h) \<le> RPC_MAX_BODY_SIZE"

lemma length_header_bytes [simp]: "length (header_bytes h) = 16"
  by (simp add: header_bytes_def)

lemma header_of_bytes [simp, wire_simps]: "header_of (header_bytes h @ rest) = h"
  by (cases h) (simp add: header_of_def header_bytes_def nth_append take_append drop_append)

lemma header_of_take: "16 \<le> n \<Longrightarrow> n \<le> length b \<Longrightarrow> header_of (take n b) = header_of b"
  by (simp add: header_of_def drop_take min_def)

lemma header_of_append: "16 \<le> length b \<Longrightarrow> header_of (b @ c) = header_of b"
  by (simp add: header_of_def nth_append)

lemma header_deserialize_eq:
  assumes "16 \<le> length b"
  shows "RpcHeader_deserialize en h b =
    Some (if h_magic (header_of b) \<noteq> RPC_MAGIC then (False, h\<lparr>h_magic := h_magic (header_of b)\<rparr>)
          else (header_valid (header_of b), header_of b))"
  using assms
  by (cases h) (auto simp: RpcHeader_deserialize_def header_of_def header_valid_def rd_def wire_simps
      hd_drop_conv_nth Let_def)

lemma header_serialize_eq:
  assumes "16 \<le> length b"
  shows "RpcHeader_serialize en h b = Some (header_bytes h @ drop 16 b)"
proof -
  have "wr b 0 (be32 (h_magic h)) = Some (be32 (h_magic h) @ drop 4 b)"
    using wr_over [of 0 "[]" "be32 (h_magic h)" b] assms by simp
  then show ?thesis
    using assms
    by (simp add: RpcHeader_serialize_def wire_simps wr_over header_bytes_def del: append_assoc)
qed

section \<open>Requests\<close>

record RpcRequest =
  rq_request_id :: u32
  rq_call_mode :: RpcCallMode
  rq_end_of_stream :: bool
  rq_service_name :: bytes
  rq_method_name :: bytes
  rq_payload :: bytes
  rq_payload_view :: RpcPayloadView
  rq_payload_owned :: bool

definition RpcRequest_init :: RpcRequest where
  "RpcRequest_init = \<lparr>rq_request_id = 0, rq_call_mode = UNARY, rq_end_of_stream = True,
     rq_service_name = [], rq_method_name = [], rq_payload = [],
     rq_payload_view = RpcPayloadView_init, rq_payload_owned = True\<rparr>"

definition mkRpcRequest :: "u32 \<Rightarrow> bytes \<Rightarrow> bytes \<Rightarrow> RpcRequest" where
  "mkRpcRequest request_id service method = RpcRequest_init
     \<lparr>rq_request_id := request_id, rq_service_name := service, rq_method_name := method\<rparr>"

definition RpcRequest_materialize :: "memory \<Rightarrow> RpcRequest \<Rightarrow> RpcRequest option" where
  "RpcRequest_materialize mem r =
     (if rq_payload_owned r then Some r
      else do {
        let sz = view_size (rq_payload_view r);
        let buf = resize (rq_payload r) sz;
        buf \<leftarrow> copy_segments mem (rq_payload_view r) buf 0;
        Some (r\<lparr>rq_payload := buf, rq_payload_view := own_view buf, rq_payload_owned := True\<rparr>) })"

definition RpcRequest_payload :: "memory \<Rightarrow> RpcRequest \<Rightarrow> (bytes \<times> RpcRequest) option" where
  "RpcRequest_payload mem r = do {
     r \<leftarrow> RpcRequest_materialize mem r;
     Some (rq_payload r, r) }"

definition RpcRequest_payloadSize :: "RpcRequest \<Rightarrow> nat" where
  "RpcRequest_payloadSize r =
     (if rq_payload_owned r then length (rq_payload r) else view_size (rq_payload_view r))"

definition RpcRequest_payloadView :: "RpcRequest \<Rightarrow> RpcPayloadView" where
  "RpcRequest_payloadView r =
     (if rq_payload_owned r then own_view (rq_payload r) else rq_payload_view r)"

definition RpcRequest_set_payload_move :: "bytes \<Rightarrow> RpcRequest \<Rightarrow> RpcRequest" where
  "RpcRequest_set_payload_move data r =
     r\<lparr>rq_payload := data, rq_payload_owned := True, rq_payload_view := own_view data\<rparr>"

definition RpcRequest_set_payload :: "memory \<Rightarrow> ptr \<Rightarrow> nat \<Rightarrow> RpcRequest \<Rightarrow> RpcRequest option" where
  "RpcRequest_set_payload mem data len r = do {
     b \<leftarrow> rdp mem data len;
     Some (r\<lparr>rq_payload := b, rq_payload_owned := True, rq_payload_view := own_view b\<rparr>) }"

definition RpcRequest_set_payloadView :: "RpcPayloadView \<Rightarrow> RpcRequest \<Rightarrow> RpcRequest" where
  "RpcRequest_set_payloadView v r =
     r\<lparr>rq_payload := [], rq_payload_view := v, rq_payload_owned := False\<rparr>"

definition RpcRequest_serialize :: "endian \<Rightarrow> memory \<Rightarrow> RpcRequest \<Rightarrow> bytes option" where
  "RpcRequest_serialize en mem r = (
     let payload_view = RpcRequest_payloadView r;
         ns = length (rq_service_name r);
         nm = length (rq_method_name r);
         body_size = 2 + ns + 2 + nm + view_size payload_view;
         buffer = replicate (RPC_HEADER_SIZE + body_size) 0;
         header = RpcHeader_init
           \<lparr>h_type := msgtype_to_u8 REQUEST,
            h_flags := rpcEncodeFlags (rq_call_mode r) (rq_end_of_stream r),
            h_request_id := rq_request_id r,
            h_body_length := word_of_nat body_size\<rparr>;
         service_len = rpcHtons en (word_of_nat ns);
         method_len = rpcHtons en (word_of_nat nm)
     in do {
       b \<leftarrow> RpcHeader_serialize en header buffer;
       let offset = RPC_HEADER_SIZE;
       b \<leftarrow> wr b offset (host_store16 en service_len);
       let offset = offset + 2;
       b \<leftarrow> wr b offset (rq_service_name r);
       let offset = offset + ns;
       b \<leftarrow> wr b offset (host_store16 en method_len);
       let offset = offset + 2;
       b \<leftarrow> wr b offset (rq_method_name r);
       let offset = offset + nm;
       copy_segments mem payload_view b offset })"

text \<open>
  \<open>body\<close> is the memory the body pointer gives access to, \<open>len\<close> the length argument. The result is
  the return value and the request as the call leaves it, also when it returns false.
\<close>

definition RpcRequest_deserializeBody ::
  "endian \<Rightarrow> RpcRequest \<Rightarrow> bytes \<Rightarrow> nat \<Rightarrow> (bool \<times> RpcRequest) option" where
  "RpcRequest_deserializeBody en r body len =
     (if len < 4 then Some (False, r)
      else do {
        let offset = 0;
        sl \<leftarrow> rd body offset 2;
        let service_len = unat (rpcNtohs en (host_load16 en sl));
        let offset = offset + 2;
        if offset + service_len > len then Some (False, r)
        else do {
          sname \<leftarrow> rd body offset service_len;
          let r = r\<lparr>rq_service_name := sname\<rparr>;
          let offset = offset + service_len;
          if offset + 2 > len then Some (False, r)
          else do {
            ml \<leftarrow> rd body offset 2;
            let method_len = unat (rpcNtohs en (host_load16 en ml));
            let offset = offset + 2;
            if offset + method_len > len then Some (False, r)
            else do {
              mname \<leftarrow> rd body offset method_len;
              let r = r\<lparr>rq_method_name := mname\<rparr>;
              let offset = offset + method_len;
              if offset < len
              then do {
                p \<leftarrow> rd body offset (len - offset);
                Some (True, r\<lparr>rq_payload := p, rq_payload_owned := True, rq_payload_view := own_view p\<rparr>) }
              else Some (True, r\<lparr>rq_payload := [], rq_payload_owned := True,
                                  rq_payload_view := RpcPayloadView_init\<rparr>) } } } })"

section \<open>Responses\<close>

record RpcResponse =
  rs_request_id :: u32
  rs_call_mode :: RpcCallMode
  rs_end_of_stream :: bool
  rs_error_code :: RpcErrorCode
  rs_payload :: bytes
  rs_payload_view :: RpcPayloadView
  rs_payload_owned :: bool

definition RpcResponse_init :: RpcResponse where
  "RpcResponse_init = \<lparr>rs_request_id = 0, rs_call_mode = UNARY, rs_end_of_stream = True,
     rs_error_code = OK, rs_payload = [], rs_payload_view = RpcPayloadView_init,
     rs_payload_owned = True\<rparr>"

definition mkRpcResponse :: "u32 \<Rightarrow> RpcErrorCode \<Rightarrow> RpcResponse" where
  "mkRpcResponse request_id error_code =
     RpcResponse_init\<lparr>rs_request_id := request_id, rs_error_code := error_code\<rparr>"

definition RpcResponse_materialize :: "memory \<Rightarrow> RpcResponse \<Rightarrow> RpcResponse option" where
  "RpcResponse_materialize mem r =
     (if rs_payload_owned r then Some r
      else do {
        let sz = view_size (rs_payload_view r);
        let buf = resize (rs_payload r) sz;
        buf \<leftarrow> copy_segments mem (rs_payload_view r) buf 0;
        Some (r\<lparr>rs_payload := buf, rs_payload_view := own_view buf, rs_payload_owned := True\<rparr>) })"

definition RpcResponse_payload :: "memory \<Rightarrow> RpcResponse \<Rightarrow> (bytes \<times> RpcResponse) option" where
  "RpcResponse_payload mem r = do {
     r \<leftarrow> RpcResponse_materialize mem r;
     Some (rs_payload r, r) }"

definition RpcResponse_payloadSize :: "RpcResponse \<Rightarrow> nat" where
  "RpcResponse_payloadSize r =
     (if rs_payload_owned r then length (rs_payload r) else view_size (rs_payload_view r))"

definition RpcResponse_payloadView :: "RpcResponse \<Rightarrow> RpcPayloadView" where
  "RpcResponse_payloadView r =
     (if rs_payload_owned r then own_view (rs_payload r) else rs_payload_view r)"

definition RpcResponse_set_payload_move :: "bytes \<Rightarrow> RpcResponse \<Rightarrow> RpcResponse" where
  "RpcResponse_set_payload_move data r =
     r\<lparr>rs_payload := data, rs_payload_owned := True, rs_payload_view := own_view data\<rparr>"

definition RpcResponse_set_payload :: "memory \<Rightarrow> ptr \<Rightarrow> nat \<Rightarrow> RpcResponse \<Rightarrow> RpcResponse option" where
  "RpcResponse_set_payload mem data len r = do {
     b \<leftarrow> rdp mem data len;
     Some (r\<lparr>rs_payload := b, rs_payload_owned := True, rs_payload_view := own_view b\<rparr>) }"

definition RpcResponse_set_payloadView :: "RpcPayloadView \<Rightarrow> RpcResponse \<Rightarrow> RpcResponse" where
  "RpcResponse_set_payloadView v r =
     r\<lparr>rs_payload := [], rs_payload_view := v, rs_payload_owned := False\<rparr>"

definition RpcResponse_isOk :: "RpcResponse \<Rightarrow> bool" where
  "RpcResponse_isOk r \<longleftrightarrow> rs_error_code r = OK"

definition RpcResponse_serialize :: "endian \<Rightarrow> memory \<Rightarrow> RpcResponse \<Rightarrow> bytes option" where
  "RpcResponse_serialize en mem r = (
     let payload_view = RpcResponse_payloadView r;
         body_size = 2 + view_size payload_view;
         buffer = replicate (RPC_HEADER_SIZE + body_size) 0;
         header = RpcHeader_init
           \<lparr>h_type := msgtype_to_u8 RESPONSE,
            h_flags := rpcEncodeFlags (rs_call_mode r) (rs_end_of_stream r),
            h_request_id := rs_request_id r,
            h_body_length := word_of_nat body_size\<rparr>;
         error_code = rpcHtons en (errorcode_to_u16 (rs_error_code r))
     in do {
       b \<leftarrow> RpcHeader_serialize en header buffer;
       b \<leftarrow> wr b RPC_HEADER_SIZE (host_store16 en error_code);
       copy_segments mem payload_view b (RPC_HEADER_SIZE + 2) })"

definition RpcResponse_deserializeBody ::
  "endian \<Rightarrow> RpcResponse \<Rightarrow> bytes \<Rightarrow> nat \<Rightarrow> (bool \<times> RpcResponse) option" where
  "RpcResponse_deserializeBody en r body len =
     (if len < 2 then Some (False, r)
      else do {
        ec \<leftarrow> rd body 0 2;
        let r = r\<lparr>rs_error_code := errorcode_of_u16 (rpcNtohs en (host_load16 en ec))\<rparr>;
        if len > 2
        then do {
          p \<leftarrow> rd body 2 (len - 2);
          Some (True, r\<lparr>rs_payload := p, rs_payload_owned := True, rs_payload_view := own_view p\<rparr>) }
        else Some (True, r\<lparr>rs_payload := [], rs_payload_owned := True,
                            rs_payload_view := RpcPayloadView_init\<rparr>) })"

section \<open>Payload ownership\<close>

lemma length_resize [simp]: "length (resize b n) = n"
  by (simp add: resize_def)

lemma copy_segments_fill:
  assumes "view_ok v" "length b = view_size v"
  shows "copy_segments mem v b 0 = Some (view_bytes mem v)"
proof -
  let ?s1 = "deref mem (segment1 v) (segment1_len v)" and ?s2 = "deref mem (segment2 v) (segment2_len v)"
  have ok: "ptr_ok (segment1 v) (segment1_len v)" "ptr_ok (segment2 v) (segment2_len v)"
    using assms(1) by (auto simp: view_ok_def)
  have len: "length ?s1 = segment1_len v" "length ?s2 = segment2_len v"
    using ok by (simp_all add: length_deref)
  have "wr b 0 ?s1 = Some (?s1 @ drop (segment1_len v) b)"
    "wr (?s1 @ drop (segment1_len v) b) (segment1_len v) ?s2 = Some (?s1 @ ?s2)"
    using wr_over [of 0 "[]" ?s1 b] wr_over [of "segment1_len v" ?s1 ?s2 "drop (segment1_len v) b"] assms(2) len
    by (simp_all add: view_size_def)
  then show ?thesis
    using ok len assms(2)
    by (cases "segment1_len v = 0"; cases "segment2_len v = 0")
       (auto simp: copy_segments_def rdp_Some view_bytes_def view_size_def)
qed

lemma copy_segments_resize:
  assumes "view_ok v"
  shows "copy_segments mem v (resize b (view_size v)) 0 = Some (view_bytes mem v)"
  using copy_segments_fill [OF assms, of "resize b (view_size v)"] by simp

interpretation request_payload: payload_carrier rq_payload_owned rq_payload rq_payload_view
  RpcRequest_payloadSize RpcRequest_payloadView RpcRequest_materialize
  RpcRequest_set_payload_move RpcRequest_set_payloadView
  by unfold_locales (auto simp: RpcRequest_payloadSize_def RpcRequest_payloadView_def
      RpcRequest_materialize_def RpcRequest_set_payload_move_def RpcRequest_set_payloadView_def
      copy_segments_resize)

interpretation response_payload: payload_carrier rs_payload_owned rs_payload rs_payload_view
  RpcResponse_payloadSize RpcResponse_payloadView RpcResponse_materialize
  RpcResponse_set_payload_move RpcResponse_set_payloadView
  by unfold_locales (auto simp: RpcResponse_payloadSize_def RpcResponse_payloadView_def
      RpcResponse_materialize_def RpcResponse_set_payload_move_def RpcResponse_set_payloadView_def
      copy_segments_resize)

section \<open>Wire format of the bodies\<close>

definition route_bytes :: "bytes \<Rightarrow> bytes \<Rightarrow> bytes" where
  "route_bytes s m = be16 (word_of_nat (length s)) @ s @ be16 (word_of_nat (length m)) @ m"

text \<open>The header a request or response with a body of \<open>n\<close> bytes is sent with.\<close>

definition frame_header :: "RpcMessageType \<Rightarrow> byte \<Rightarrow> u32 \<Rightarrow> nat \<Rightarrow> RpcHeader" where
  "frame_header t flags i n = RpcHeader_init
     \<lparr>h_type := msgtype_to_u8 t, h_flags := flags, h_request_id := i, h_body_length := word_of_nat n\<rparr>"

definition request_wire :: "memory \<Rightarrow> RpcRequest \<Rightarrow> bytes" where
  "request_wire mem r =
     (let body = route_bytes (rq_service_name r) (rq_method_name r) @ view_bytes mem (RpcRequest_payloadView r)
      in header_bytes (frame_header REQUEST (rpcEncodeFlags (rq_call_mode r) (rq_end_of_stream r))
           (rq_request_id r) (length body)) @ body)"

definition response_wire :: "memory \<Rightarrow> RpcResponse \<Rightarrow> bytes" where
  "response_wire mem r =
     (let body = be16 (errorcode_to_u16 (rs_error_code r)) @ view_bytes mem (RpcResponse_payloadView r)
      in header_bytes (frame_header RESPONSE (rpcEncodeFlags (rs_call_mode r) (rs_end_of_stream r))
           (rs_request_id r) (length body)) @ body)"

lemma length_route_bytes [simp]: "length (route_bytes s m) = 4 + length s + length m"
  by (simp add: route_bytes_def)

lemma copy_segments_over:
  assumes "view_ok v" "n = length p" "k = view_size v"
  shows "copy_segments mem v (p @ replicate k 0) n = Some (p @ view_bytes mem v)"
  using copy_segments_extend [of v k mem p] assms by simp

lemma request_serialize_eq:
  assumes "view_ok (RpcRequest_payloadView r)"
  shows "RpcRequest_serialize en mem r = Some (request_wire mem r)"
  using assms
  by (simp add: RpcRequest_serialize_def Let_def header_serialize_eq host_store16_htons wr_over
        copy_segments_over request_wire_def frame_header_def route_bytes_def length_view_bytes
        add.assoc drop_replicate del: append_assoc replicate_add)

lemma response_serialize_eq:
  assumes "view_ok (RpcResponse_payloadView r)"
  shows "RpcResponse_serialize en mem r = Some (response_wire mem r)"
  using assms
  by (simp add: RpcResponse_serialize_def Let_def header_serialize_eq host_store16_htons wr_over
        copy_segments_over response_wire_def frame_header_def length_view_bytes
        del: append_assoc)

text \<open>
  The two length-prefixed names at the front of a request or stream-init body, and what follows
  them: the reference for every routine of the program that reads them.
\<close>

definition parse_route :: "bytes \<Rightarrow> (bytes \<times> bytes \<times> bytes) option" where
  "parse_route b =
     (if length b < 4 then None
      else let sl = unat (from_be16 (take 2 b)) in
        if length b < 4 + sl then None
        else let ml = unat (from_be16 (take 2 (drop (2 + sl) b))) in
          if length b < 4 + sl + ml then None
          else Some (take sl (drop 2 b), take ml (drop (4 + sl) b), drop (4 + sl + ml) b))"

lemma parse_route_bytes:
  assumes "length s < 65536" "length m < 65536"
  shows "parse_route (route_bytes s m @ p) = Some (s, m, p)"
  using assms by (simp add: parse_route_def route_bytes_def unat_of_nat_small16)

text \<open>Conversely a body that parses is the encoding of what was parsed: nothing is lost or skipped.\<close>

lemma route_bytes_parse:
  assumes "parse_route b = Some (s, m, p)"
  shows "b = route_bytes s m @ p" "length s < 65536" "length m < 65536"
proof -
  define sl where "sl = unat (from_be16 (take 2 b))"
  define ml where "ml = unat (from_be16 (take 2 (drop (2 + sl) b)))"
  have len: "4 + sl + ml \<le> length b"
    and parts: "s = take sl (drop 2 b)" "m = take ml (drop (4 + sl) b)" "p = drop (4 + sl + ml) b"
    using assms by (auto simp: parse_route_def sl_def ml_def Let_def split: if_splits)
  have ls: "length s = sl" "length m = ml" using len parts by auto
  have bs: "be16 (word_of_nat sl) = take 2 b" "be16 (word_of_nat ml) = take 2 (drop (2 + sl) b)"
    using len by (simp_all add: sl_def ml_def be_from_be)
  have "b = take 2 b @ take sl (drop 2 b) @ take 2 (drop (2 + sl) b) @ take ml (drop (4 + sl) b) @
      drop (4 + sl + ml) b"
    by (metis (no_types, lifting) add.commute add.left_commute append_take_drop_id drop_drop numeral_Bit0)
  then show "b = route_bytes s m @ p"
    using ls bs parts by (simp add: route_bytes_def)
  show "length s < 65536" "length m < 65536"
    using ls unat16_bound by (simp_all add: sl_def ml_def)
qed

definition request_with :: "bytes \<Rightarrow> bytes \<Rightarrow> bytes \<Rightarrow> RpcRequest \<Rightarrow> RpcRequest" where
  "request_with s m p r = r\<lparr>rq_service_name := s, rq_method_name := m, rq_payload := p,
     rq_payload_owned := True, rq_payload_view := (if p = [] then RpcPayloadView_init else own_view p)\<rparr>"

lemma request_deserializeBody_ok:
  assumes "parse_route (take len body) = Some (s, m, p)" "len \<le> length body"
  shows "RpcRequest_deserializeBody en r body len = Some (True, request_with s m p r)"
proof -
  have b: "take len body = route_bytes s m @ p" and l: "length s < 65536" "length m < 65536"
    using route_bytes_parse [OF assms(1)] by auto
  have len: "len = 4 + length s + length m + length p"
    using arg_cong [OF b, of length] assms(2) by simp
  have body: "body = (route_bytes s m @ p) @ drop len body"
    using b by (metis append_take_drop_id)
  have u: "unat (word_of_nat (length s) :: u16) = length s" "unat (word_of_nat (length m) :: u16) = length m"
    using l by (simp_all add: unat_of_nat_small16)
  have rds: "rd body 0 2 = Some (be16 (word_of_nat (length s)))" "rd body 2 (length s) = Some s"
      "rd body (2 + length s) 2 = Some (be16 (word_of_nat (length m)))"
      "rd body (2 + length s + 2) (length m) = Some m"
      "rd body (2 + length s + 2 + length m) (length p) = Some p"
    by (subst body, simp add: route_bytes_def rd_def)+
  show ?thesis
    using len u rds
    by (auto simp: RpcRequest_deserializeBody_def Let_def wire_simps request_with_def
        numeral_2_eq_2 [symmetric])
qed

lemma request_deserializeBody_fail:
  assumes "parse_route (take len body) = None" "len \<le> length body"
  shows "\<exists>r'. RpcRequest_deserializeBody en r body len = Some (False, r')"
proof (cases "len < 4")
  case True
  then show ?thesis by (simp add: RpcRequest_deserializeBody_def)
next
  case False
  define sl where "sl = unat (from_be16 (take 2 body))"
  define ml where "ml = unat (from_be16 (take 2 (drop (2 + sl) body)))"
  have t1: "take 2 (take len body) = take 2 body"
    using False by (simp add: min_def)
  have t2: "take 2 (drop (2 + sl) (take len body)) = take 2 (drop (2 + sl) body)" if "4 + sl \<le> len"
    using that by (simp add: drop_take min_def)
  have short: "len < 4 + sl \<or> len < 4 + sl + ml"
  proof (rule ccontr)
    assume "\<not> ?thesis"
    then show False
      using assms False t1 t2 by (simp add: parse_route_def sl_def [symmetric] ml_def Let_def)
  qed
  have r1: "rd body 0 2 = Some (take 2 body)" using False assms(2) by (simp add: rd_def)
  have r2: "rd body 2 sl = Some (take sl (drop 2 body))" if "2 + sl \<le> len"
    using that assms(2) by (simp add: rd_def)
  have r3: "rd body (2 + sl) 2 = Some (take 2 (drop (2 + sl) body))" if "4 + sl \<le> len"
    using that assms(2) by (simp add: rd_def)
  have l2: "length (take 2 body) = 2" using False assms(2) by simp
  have l3: "length (take 2 (drop (2 + sl) body)) = 2" if "4 + sl \<le> len"
    using that assms(2) by simp
  consider "len < 2 + sl" | "2 + sl \<le> len" "len < 4 + sl" | "4 + sl \<le> len" "len < 4 + sl + ml"
    using short by linarith
  then show ?thesis
  proof cases
    case 1
    then show ?thesis
      using False r1 l2 by (simp add: RpcRequest_deserializeBody_def Let_def ntoh_load sl_def)
  next
    case 2
    then show ?thesis
      using False r1 l2 r2
      by (simp add: RpcRequest_deserializeBody_def Let_def ntoh_load sl_def [symmetric]
          numeral_2_eq_2 [symmetric])
  next
    case 3
    then show ?thesis
      using False r1 l2 r2 r3 l3
      by (simp add: RpcRequest_deserializeBody_def Let_def ntoh_load sl_def [symmetric]
          ml_def numeral_2_eq_2 [symmetric])
  qed
qed

definition response_with :: "u16 \<Rightarrow> bytes \<Rightarrow> RpcResponse \<Rightarrow> RpcResponse" where
  "response_with c p r = r\<lparr>rs_error_code := errorcode_of_u16 c, rs_payload := p,
     rs_payload_owned := True, rs_payload_view := (if p = [] then RpcPayloadView_init else own_view p)\<rparr>"

lemma response_deserializeBody_eq:
  assumes "len \<le> length body"
  shows "RpcResponse_deserializeBody en r body len =
    (if len < 2 then Some (False, r)
     else Some (True, response_with (from_be16 (take 2 body)) (take (len - 2) (drop 2 body)) r))"
  using assms
  by (auto simp: RpcResponse_deserializeBody_def Let_def rd_def wire_simps response_with_def)

end
