(* ===== verification/Rpc_Codec.thy ===== *)
theory Rpc_Codec
  imports Rpc_Message
begin

text \<open>
  Model of \<^verbatim>\<open>src/galay-rpc/protoc/rpc_codec.h\<close>: the static decoders over one contiguous buffer. \<open>data\<close>
  is the memory behind the data pointer and \<open>len\<close> the length argument; callers pass a length that
  the memory has. The closed forms \<open>decodeRequest_eq\<close> and \<open>decodeResponse_eq\<close> are what the later
  theories compare the zero-copy parsers with.
\<close>

datatype DecodeResult = COMPLETE | INCOMPLETE | DECODE_ERROR

definition decodeHeader :: "endian \<Rightarrow> bytes \<Rightarrow> nat \<Rightarrow> RpcHeader \<Rightarrow> (DecodeResult \<times> RpcHeader) option" where
  "decodeHeader en data len header =
     (if len < RPC_HEADER_SIZE then Some (INCOMPLETE, header)
      else do {
        (ok, header) \<leftarrow> RpcHeader_deserialize en header data;
        Some (if \<not> ok then DECODE_ERROR else COMPLETE, header) })"

definition decodeRequest :: "endian \<Rightarrow> bytes \<Rightarrow> nat \<Rightarrow> (RpcError + RpcRequest) option" where
  "decodeRequest en data len = do {
     (result, header) \<leftarrow> decodeHeader en data len RpcHeader_init;
     if result = INCOMPLETE then Some (Inl (mkRpcError INVALID_REQUEST ''Incomplete data''))
     else if result = DECODE_ERROR then Some (Inl (mkRpcError INVALID_REQUEST ''Invalid header''))
     else if h_type header \<noteq> msgtype_to_u8 REQUEST
       then Some (Inl (mkRpcError INVALID_REQUEST ''Not a request message''))
     else if len < RPC_HEADER_SIZE + unat (h_body_length header)
       then Some (Inl (mkRpcError INVALID_REQUEST ''Incomplete body''))
     else do {
       let request = RpcRequest_init
         \<lparr>rq_request_id := h_request_id header,
          rq_call_mode := rpcDecodeCallMode (h_flags header),
          rq_end_of_stream := rpcIsEndStream (h_flags header)\<rparr>;
       (ok, request) \<leftarrow> RpcRequest_deserializeBody en request (drop RPC_HEADER_SIZE data)
          (unat (h_body_length header));
       Some (if \<not> ok then Inl (mkRpcError DESERIALIZATION_ERROR ''Failed to parse request body'')
             else Inr request) } }"

definition decodeResponse :: "endian \<Rightarrow> bytes \<Rightarrow> nat \<Rightarrow> (RpcError + RpcResponse) option" where
  "decodeResponse en data len = do {
     (result, header) \<leftarrow> decodeHeader en data len RpcHeader_init;
     if result = INCOMPLETE then Some (Inl (mkRpcError INVALID_RESPONSE ''Incomplete data''))
     else if result = DECODE_ERROR then Some (Inl (mkRpcError INVALID_RESPONSE ''Invalid header''))
     else if h_type header \<noteq> msgtype_to_u8 RESPONSE
       then Some (Inl (mkRpcError INVALID_RESPONSE ''Not a response message''))
     else if len < RPC_HEADER_SIZE + unat (h_body_length header)
       then Some (Inl (mkRpcError INVALID_RESPONSE ''Incomplete body''))
     else do {
       let response = RpcResponse_init
         \<lparr>rs_request_id := h_request_id header,
          rs_call_mode := rpcDecodeCallMode (h_flags header),
          rs_end_of_stream := rpcIsEndStream (h_flags header)\<rparr>;
       (ok, response) \<leftarrow> RpcResponse_deserializeBody en response (drop RPC_HEADER_SIZE data)
          (unat (h_body_length header));
       Some (if \<not> ok then Inl (mkRpcError DESERIALIZATION_ERROR ''Failed to parse response body'')
             else Inr response) } }"

definition messageLength :: "endian \<Rightarrow> bytes \<Rightarrow> nat \<Rightarrow> nat option" where
  "messageLength en data len =
     (if len < RPC_HEADER_SIZE then Some 0
      else do {
        (ok, header) \<leftarrow> RpcHeader_deserialize en RpcHeader_init data;
        Some (if \<not> ok then 0 else RPC_HEADER_SIZE + unat (h_body_length header)) })"

section \<open>Closed forms\<close>

definition body_len :: "bytes \<Rightarrow> nat" where
  "body_len b = unat (h_body_length (header_of b))"

definition body_of :: "bytes \<Rightarrow> bytes" where
  "body_of b = take (body_len b) (drop 16 b)"

definition request_header :: "RpcHeader \<Rightarrow> RpcRequest" where
  "request_header h = RpcRequest_init\<lparr>rq_request_id := h_request_id h,
     rq_call_mode := rpcDecodeCallMode (h_flags h), rq_end_of_stream := rpcIsEndStream (h_flags h)\<rparr>"

definition response_header :: "RpcHeader \<Rightarrow> RpcResponse" where
  "response_header h = RpcResponse_init\<lparr>rs_request_id := h_request_id h,
     rs_call_mode := rpcDecodeCallMode (h_flags h), rs_end_of_stream := rpcIsEndStream (h_flags h)\<rparr>"

lemma decodeHeader_eq:
  assumes "len \<le> length data"
  shows "\<exists>h'. decodeHeader en data len h = Some
    (if len < 16 then INCOMPLETE else if header_valid (header_of data) then COMPLETE else DECODE_ERROR, h') \<and>
    (16 \<le> len \<and> header_valid (header_of data) \<longrightarrow> h' = header_of data)"
  using assms by (auto simp: decodeHeader_def header_deserialize_eq header_valid_def)

lemma decodeRequest_eq:
  assumes "len \<le> length data"
  shows "decodeRequest en data len = Some (
    if len < 16 then Inl (mkRpcError INVALID_REQUEST ''Incomplete data'')
    else if \<not> header_valid (header_of data) then Inl (mkRpcError INVALID_REQUEST ''Invalid header'')
    else if h_type (header_of data) \<noteq> 1 then Inl (mkRpcError INVALID_REQUEST ''Not a request message'')
    else if len < 16 + body_len data then Inl (mkRpcError INVALID_REQUEST ''Incomplete body'')
    else case parse_route (body_of data) of
        None \<Rightarrow> Inl (mkRpcError DESERIALIZATION_ERROR ''Failed to parse request body'')
      | Some (s, m, p) \<Rightarrow> Inr (request_with s m p (request_header (header_of data))))"
proof -
  obtain h' where h: "decodeHeader en data len RpcHeader_init = Some
     (if len < 16 then INCOMPLETE else if header_valid (header_of data) then COMPLETE else DECODE_ERROR, h')"
     "16 \<le> len \<and> header_valid (header_of data) \<longrightarrow> h' = header_of data"
    using decodeHeader_eq [OF assms] by blast
  show ?thesis
  proof (cases "16 \<le> len \<and> header_valid (header_of data) \<and> h_type (header_of data) = 1 \<and>
      16 + body_len data \<le> len")
    case True
    then have "body_len data \<le> length (drop 16 data)" using assms by auto
    then show ?thesis
      using h True request_deserializeBody_ok [of "body_len data" "drop 16 data"]
        request_deserializeBody_fail [of "body_len data" "drop 16 data" en "request_header (header_of data)"]
      by (auto simp: decodeRequest_def body_of_def body_len_def request_header_def split: option.splits)
  next
    case False
    then show ?thesis
      using h by (auto simp: decodeRequest_def body_len_def)
  qed
qed

lemma decodeResponse_eq:
  assumes "len \<le> length data"
  shows "decodeResponse en data len = Some (
    if len < 16 then Inl (mkRpcError INVALID_RESPONSE ''Incomplete data'')
    else if \<not> header_valid (header_of data) then Inl (mkRpcError INVALID_RESPONSE ''Invalid header'')
    else if h_type (header_of data) \<noteq> 2 then Inl (mkRpcError INVALID_RESPONSE ''Not a response message'')
    else if len < 16 + body_len data then Inl (mkRpcError INVALID_RESPONSE ''Incomplete body'')
    else if body_len data < 2
      then Inl (mkRpcError DESERIALIZATION_ERROR ''Failed to parse response body'')
    else Inr (response_with (from_be16 (take 2 (body_of data))) (drop 2 (body_of data))
                (response_header (header_of data))))"
proof -
  obtain h' where h: "decodeHeader en data len RpcHeader_init = Some
     (if len < 16 then INCOMPLETE else if header_valid (header_of data) then COMPLETE else DECODE_ERROR, h')"
     "16 \<le> len \<and> header_valid (header_of data) \<longrightarrow> h' = header_of data"
    using decodeHeader_eq [OF assms] by blast
  show ?thesis
  proof (cases "16 \<le> len \<and> header_valid (header_of data) \<and> h_type (header_of data) = 2 \<and>
      16 + body_len data \<le> len")
    case True
    then have "body_len data \<le> length (drop 16 data)" using assms by auto
    then show ?thesis
      using h True
      by (auto simp: decodeResponse_def body_of_def body_len_def response_header_def
          response_deserializeBody_eq drop_take min_def)
  next
    case False
    then show ?thesis
      using h by (auto simp: decodeResponse_def body_len_def)
  qed
qed

lemma messageLength_eq:
  assumes "len \<le> length data"
  shows "messageLength en data len = Some (if 16 \<le> len \<and> header_valid (header_of data)
     then 16 + body_len data else 0)"
  using assms by (auto simp: messageLength_def header_deserialize_eq header_valid_def body_len_def)

section \<open>Frames\<close>

text \<open>A header followed by the body it announces, as every sender of the program produces it.\<close>

definition frame :: "RpcMessageType \<Rightarrow> byte \<Rightarrow> u32 \<Rightarrow> bytes \<Rightarrow> bytes" where
  "frame t flags i body = header_bytes (frame_header t flags i (length body)) @ body"

lemma request_wire_frame: "request_wire mem r =
  frame REQUEST (rpcEncodeFlags (rq_call_mode r) (rq_end_of_stream r)) (rq_request_id r)
    (route_bytes (rq_service_name r) (rq_method_name r) @ view_bytes mem (RpcRequest_payloadView r))"
  by (simp add: request_wire_def frame_def Let_def)

lemma response_wire_frame: "response_wire mem r =
  frame RESPONSE (rpcEncodeFlags (rs_call_mode r) (rs_end_of_stream r)) (rs_request_id r)
    (be16 (errorcode_to_u16 (rs_error_code r)) @ view_bytes mem (RpcResponse_payloadView r))"
  by (simp add: response_wire_def frame_def Let_def)

lemma length_frame [simp]: "length (frame t f i body) = 16 + length body"
  by (simp add: frame_def)

lemma header_of_frame [simp]: "header_of (frame t f i body @ rest) = frame_header t f i (length body)"
  by (simp add: frame_def)

lemma header_of_frame' [simp]: "header_of (frame t f i body) = frame_header t f i (length body)"
  using header_of_frame [of t f i body "[]"] by simp

lemma frame_header_sel [simp]:
  "h_type (frame_header t f i n) = msgtype_to_u8 t" "h_flags (frame_header t f i n) = f"
  "h_request_id (frame_header t f i n) = i" "h_body_length (frame_header t f i n) = word_of_nat n"
  "h_magic (frame_header t f i n) = RPC_MAGIC"
  by (simp_all add: frame_header_def RpcHeader_init_def)

lemma frame_header_valid: "n \<le> RPC_MAX_BODY_SIZE \<Longrightarrow> header_valid (frame_header t f i n)"
  by (simp add: header_valid_def max_body_eq unat_of_nat_small32)

lemma body_len_frame:
  "length body \<le> RPC_MAX_BODY_SIZE \<Longrightarrow> body_len (frame t f i body @ rest) = length body"
  by (simp add: body_len_def max_body_eq unat_of_nat_small32)

lemma body_of_frame:
  "length body \<le> RPC_MAX_BODY_SIZE \<Longrightarrow> body_of (frame t f i body @ rest) = body"
  by (simp add: body_of_def body_len_frame) (simp add: frame_def)

lemmas frame_simps = frame_header_valid body_len_frame body_of_frame
  body_len_frame [of _ _ _ _ "[]", simplified] body_of_frame [of _ _ _ _ "[]", simplified]

lemma request_decode_wire:
  assumes "length (rq_service_name r) < 65536" "length (rq_method_name r) < 65536"
    and "4 + length (rq_service_name r) + length (rq_method_name r) +
         length (view_bytes mem (RpcRequest_payloadView r)) \<le> RPC_MAX_BODY_SIZE"
  shows "decodeRequest en (request_wire mem r) (length (request_wire mem r)) =
    Some (Inr (request_with (rq_service_name r) (rq_method_name r)
       (view_bytes mem (RpcRequest_payloadView r))
       (request_header (header_of (request_wire mem r)))))"
  using assms
  by (simp add: decodeRequest_eq request_wire_frame frame_simps parse_route_bytes add.assoc)

lemma response_decode_wire:
  assumes "2 + length (view_bytes mem (RpcResponse_payloadView r)) \<le> RPC_MAX_BODY_SIZE"
  shows "decodeResponse en (response_wire mem r) (length (response_wire mem r)) =
    Some (Inr (response_with (errorcode_to_u16 (rs_error_code r))
       (view_bytes mem (RpcResponse_payloadView r))
       (response_header (header_of (response_wire mem r)))))"
  using assms
  by (simp add: decodeResponse_eq response_wire_frame frame_simps)

section \<open>Properties\<close>

text \<open>C21. A request that a peer serialises (on either byte order) and another decodes (on either byte
  order) comes back with every field and the payload it had, as long as the two names fit their 16-bit
  length fields and the body is within the 16 MB limit. The decoded payload is owned: it can be read
  in any later memory.\<close>

theorem request_roundtrip:
  assumes "view_ok (RpcRequest_payloadView r)"
    and "length (rq_service_name r) < 65536" "length (rq_method_name r) < 65536"
    and "4 + length (rq_service_name r) + length (rq_method_name r) + RpcRequest_payloadSize r \<le> RPC_MAX_BODY_SIZE"
  shows "\<exists>b r'. RpcRequest_serialize en mem r = Some b \<and> decodeRequest en' b (length b) = Some (Inr r') \<and>
    rq_request_id r' = rq_request_id r \<and> rq_call_mode r' = rq_call_mode r \<and>
    rq_end_of_stream r' = rq_end_of_stream r \<and> rq_service_name r' = rq_service_name r \<and>
    rq_method_name r' = rq_method_name r \<and>
    RpcRequest_payload mem' r' = Some (view_bytes mem (RpcRequest_payloadView r), r')"
  using request_serialize_eq [OF assms(1), of en mem] request_decode_wire [OF assms(2,3), of mem en'] assms
  by (simp add: request_payload.size_is_length [of _ mem] request_wire_frame request_header_def
      request_with_def RpcRequest_payload_def RpcRequest_materialize_def)

theorem request_roundtrip_witness:
  "\<exists>b r'. RpcRequest_serialize Little (\<lambda>a. of_nat a)
      (RpcRequest_set_payloadView \<lparr>segment1 = Mem 14 2, segment1_len = 2, segment2 = Mem 0 3, segment2_len = 3\<rparr>
        (mkRpcRequest 7 [69, 99] [101])) = Some b \<and>
    decodeRequest Big b (length b) = Some (Inr r') \<and> rq_service_name r' = [69, 99] \<and>
    RpcRequest_payload (\<lambda>_. 0) r' = Some ([14, 15, 0, 1, 2], r')"
  using request_roundtrip [of "RpcRequest_set_payloadView \<lparr>segment1 = Mem 14 2, segment1_len = 2,
      segment2 = Mem 0 3, segment2_len = 3\<rparr> (mkRpcRequest 7 [69, 99] [101])" Little "\<lambda>a. of_nat a" Big "\<lambda>_. 0"]
  by (auto simp: RpcRequest_payloadView_def RpcRequest_set_payloadView_def mkRpcRequest_def RpcRequest_init_def
      view_ok_def view_bytes_def view_size_def RpcRequest_payloadSize_def max_body_eq upt_rec)

text \<open>A response that is serialised and decoded comes back with every field and its payload; an
  error code that is none of the enumeration's constants is kept as the number it is.\<close>

lemma response_roundtrip:
  assumes "view_ok (RpcResponse_payloadView r)"
    and "2 + RpcResponse_payloadSize r \<le> RPC_MAX_BODY_SIZE" and "errorcode_canonical (rs_error_code r)"
  shows "\<exists>b r'. RpcResponse_serialize en mem r = Some b \<and> decodeResponse en' b (length b) = Some (Inr r') \<and>
    rs_request_id r' = rs_request_id r \<and> rs_call_mode r' = rs_call_mode r \<and>
    rs_end_of_stream r' = rs_end_of_stream r \<and> rs_error_code r' = rs_error_code r \<and>
    RpcResponse_payload mem' r' = Some (view_bytes mem (RpcResponse_payloadView r), r')"
  using response_serialize_eq [OF assms(1), of en mem] response_decode_wire [of mem r en'] assms
  by (simp add: response_payload.size_is_length [of _ mem] response_wire_frame response_header_def
      response_with_def RpcResponse_payload_def RpcResponse_materialize_def errorcode_canonical_def)

lemma header_bytes_of: "16 \<le> length b \<Longrightarrow> header_bytes (header_of b) = take 16 b"
proof -
  assume l: "16 \<le> length b"
  have "take 16 b = take 4 b @ take 4 (drop 4 b) @ take 4 (drop 8 b) @ take 4 (drop 12 b)"
    using take_add [of 4 12 b] take_add [of 4 8 "drop 4 b"] take_add [of 4 4 "drop 8 b"] by simp
  moreover have "take 4 (drop 4 b) = [b ! 4, b ! 5, b ! 6, b ! 7]"
    using l by (intro nth_equalityI) (auto simp: nth_append nth_Cons split: nat.splits)
  ultimately show ?thesis
    using l by (simp add: header_bytes_def header_of_def be_from_be)
qed

text \<open>C24. The request decoder accepts a buffer exactly when it starts with a well-formed request: the
  magic number, the request type, a body length within the limit and within the buffer, and a body
  made of two length-prefixed names and the payload. The names and the payload it returns are those
  bytes, and what follows the message is not looked at.\<close>

theorem decodeRequest_accepts_iff:
  assumes "len \<le> length data"
  shows "(\<exists>r. decodeRequest en data len = Some (Inr r) \<and> rq_service_name r = s \<and>
            rq_method_name r = m \<and> rq_payload r = p) \<longleftrightarrow>
    (\<exists>h rest. data = header_bytes h @ route_bytes s m @ p @ rest \<and> h_magic h = RPC_MAGIC \<and>
       h_type h = msgtype_to_u8 REQUEST \<and> length s < 65536 \<and> length m < 65536 \<and>
       unat (h_body_length h) = 4 + length s + length m + length p \<and>
       unat (h_body_length h) \<le> RPC_MAX_BODY_SIZE \<and> 16 + unat (h_body_length h) \<le> len)" (is "?l \<longleftrightarrow> ?r")
proof
  assume ?l
  then have hd: "16 \<le> len" "header_valid (header_of data)" "h_type (header_of data) = 1" "16 + body_len data \<le> len"
    and body: "parse_route (body_of data) = Some (s, m, p)"
    by (auto simp: decodeRequest_eq [OF assms] request_with_def split: if_splits option.splits)
  note r = route_bytes_parse [OF body]
  have "data = take 16 data @ body_of data @ drop (16 + body_len data) data"
    by (simp add: body_of_def) (metis add.commute append_take_drop_id drop_drop)
  moreover have "length (body_of data) = body_len data"
    using hd assms by (simp add: body_of_def)
  ultimately show ?r
    using hd r assms
    by (intro exI [of _ "header_of data"] exI [of _ "drop (16 + body_len data) data"])
       (auto simp: header_bytes_of header_valid_def body_len_def)
next
  assume ?r
  then obtain h rest where d: "data = header_bytes h @ (route_bytes s m @ p) @ rest"
      and h: "h_magic h = RPC_MAGIC" "h_type h = 1" "length s < 65536" "length m < 65536"
       "unat (h_body_length h) = length (route_bytes s m @ p)"
       "unat (h_body_length h) \<le> RPC_MAX_BODY_SIZE" "16 + unat (h_body_length h) \<le> len"
    by auto
  have "header_of data = h" using d by (simp only: header_of_bytes)
  moreover from this have "body_len data = length (route_bytes s m @ p)" using h by (simp add: body_len_def)
  moreover from this have "body_of data = route_bytes s m @ p" using d by (simp add: body_of_def)
  ultimately show ?l
    using h by (simp add: decodeRequest_eq [OF assms] header_valid_def parse_route_bytes request_with_def)
qed

theorem decodeRequest_accepts_iff_witness:
  "\<exists>r. decodeRequest Little
      (header_bytes (frame_header REQUEST 4 7 7) @ route_bytes [69] [70] @ [1] @ [9, 9]) 25 = Some (Inr r) \<and>
    rq_service_name r = [69] \<and> rq_method_name r = [70] \<and> rq_payload r = [1]"
  by (subst decodeRequest_accepts_iff)
     (auto simp: max_body_eq intro!: exI [of _ "frame_header REQUEST 4 7 7"] exI [of _ "[9, 9]"])

text \<open>C25. Decoding is memory safe on every input: whatever the bytes are, none of the static decoders
  reads outside the buffer it is given; a rejected buffer is an INVALID_REQUEST, INVALID_RESPONSE or
  DESERIALIZATION_ERROR, and an accepted request has a payload of at most the body length.\<close>

theorem decoders_total:
  assumes "len \<le> length data"
  shows "\<exists>q p n. decodeRequest en data len = Some q \<and> decodeResponse en data len = Some p \<and>
    messageLength en data len = Some n \<and> n \<le> 16 + RPC_MAX_BODY_SIZE \<and>
    (case q of Inl e \<Rightarrow> err_code e \<in> {INVALID_REQUEST, DESERIALIZATION_ERROR}
     | Inr r \<Rightarrow> n \<le> len \<and> rq_payload_owned r \<and>
         20 + length (rq_service_name r) + length (rq_method_name r) + length (rq_payload r) = n) \<and>
    (case p of Inl e \<Rightarrow> err_code e \<in> {INVALID_RESPONSE, DESERIALIZATION_ERROR}
     | Inr r \<Rightarrow> n \<le> len \<and> rs_payload_owned r \<and> 18 + length (rs_payload r) = n)"
proof -
  have route: "4 + length s + length m + length p = body_len data"
    if "parse_route (body_of data) = Some (s, m, p)" "16 + body_len data \<le> len" for s m p
    using arg_cong [OF route_bytes_parse(1) [OF that(1)], of length] that(2) assms by (simp add: body_of_def)
  show ?thesis
    using route assms
    by (auto simp: decodeRequest_eq decodeResponse_eq messageLength_eq mkRpcError_def request_with_def
        response_with_def body_of_def header_valid_def body_len_def split: option.splits)
qed

theorem decoders_total_witness:
  "\<exists>q p n. decodeRequest Big [82, 80, 67] 3 = Some q \<and> decodeResponse Big [82, 80, 67] 3 = Some p \<and>
    messageLength Big [82, 80, 67] 3 = Some n \<and> n \<le> 16 + RPC_MAX_BODY_SIZE"
  using decoders_total [of 3 "[82, 80, 67]" Big] by auto

text \<open>The length fields of the names have 16 bits, and the serialiser does not check that the lengths fit:
  a request with a longer name is sent all the same, and no receiver gets its route back.\<close>

lemma long_names_lost:
  assumes "view_ok (RpcRequest_payloadView r)" "65536 \<le> length (rq_service_name r) \<or> 65536 \<le> length (rq_method_name r)"
  shows "\<exists>b. RpcRequest_serialize en mem r = Some b \<and>
    (\<forall>d. decodeRequest en' b (length b) = Some (Inr d) \<longrightarrow>
      (rq_service_name d, rq_method_name d) \<noteq> (rq_service_name r, rq_method_name r))"
proof -
  have "length (rq_service_name d) < 65536 \<and> length (rq_method_name d) < 65536" if "decodeRequest en' b (length b) = Some (Inr d)" for b d
    using that route_bytes_parse
    by (fastforce simp: decodeRequest_eq [OF order_refl] request_with_def split: if_splits option.splits)
  then show ?thesis using assms request_serialize_eq [OF assms(1)] by fastforce
qed

end
