(* ===== verification/Rpc_Conn.thy ===== *)
theory Rpc_Conn
  imports Rpc_Reader Rpc_Codec
begin

text \<open>
  Model of \<^verbatim>\<open>src/galay-rpc/kernel/rpc_conn.h\<close>: the zero-copy parsers over the segments of the ring
  buffer, the read states and write states of one connection, and the reader and writer objects that
  build them. The parsers are compared with the reference \<open>request_spec\<close> and \<open>response_spec\<close>, and through it
  with the contiguous decoders of \<^verbatim>\<open>rpc_codec.h\<close>.
\<close>

section \<open>Parsing a message in place\<close>

text \<open>
  \<^verbatim>\<open>std::expected<size_t, RpcError>\<close> is a sum; the second component is the output object as the call
  leaves it. Each local array, integer or string that a field is copied into is a buffer of its size.
\<close>

definition tryParseRequestMessage ::
  "endian \<Rightarrow> memory \<Rightarrow> iovec list \<Rightarrow> nat \<Rightarrow> nat \<Rightarrow> RpcRequest \<Rightarrow> ((RpcError + nat) \<times> RpcRequest) option" where
  "tryParseRequestMessage en mem iovecs total_readable max_message_size request =
     (if total_readable < RPC_HEADER_SIZE then Some (Inr 0, request)
      else do {
        (ok, header_buf) \<leftarrow> copyFromIovecs mem iovecs 0 (replicate RPC_HEADER_SIZE 0) RPC_HEADER_SIZE;
        if \<not> ok then Some (Inl (mkRpcError INVALID_REQUEST ''Failed to read request header''), request)
        else do {
          (ok, header) \<leftarrow> RpcHeader_deserialize en RpcHeader_init header_buf;
          if \<not> ok then Some (Inl (mkRpcError INVALID_REQUEST ''Invalid message header''), request)
          else if h_type header \<noteq> msgtype_to_u8 REQUEST
            then Some (Inl (mkRpcError INVALID_REQUEST ''Not a request message''), request)
          else do {
            let msg_len = RPC_HEADER_SIZE + unat (h_body_length header);
            if msg_len > size_add max_message_size RPC_HEADER_SIZE
            then Some (Inl (mkRpcError INVALID_REQUEST ''Message too large''), request)
            else if total_readable < msg_len then Some (Inr 0, request)
            else do {
              let cursor = RPC_HEADER_SIZE;
              (ok, service_len_net) \<leftarrow> copyFromIovecs mem iovecs cursor (replicate 2 0) 2;
              if \<not> ok then Some (Inl (mkRpcError DESERIALIZATION_ERROR ''Invalid service length''), request)
              else do {
                let service_len = unat (rpcNtohs en (host_load16 en service_len_net));
                let cursor = cursor + 2;
                if cursor + service_len > msg_len
                then Some (Inl (mkRpcError DESERIALIZATION_ERROR ''Service field out of range''), request)
                else do {
                  (ok, service_name) \<leftarrow>
                    (if service_len > 0 then copyFromIovecs mem iovecs cursor (replicate service_len 0) service_len
                      else Some (True, replicate service_len 0));
                  if \<not> ok then Some (Inl (mkRpcError DESERIALIZATION_ERROR ''Invalid service field''), request)
                  else do {
                    let cursor = cursor + service_len;
                    (ok, method_len_net) \<leftarrow> copyFromIovecs mem iovecs cursor (replicate 2 0) 2;
                    if \<not> ok then Some (Inl (mkRpcError DESERIALIZATION_ERROR ''Invalid method length''), request)
                    else do {
                      let method_len = unat (rpcNtohs en (host_load16 en method_len_net));
                      let cursor = cursor + 2;
                      if cursor + method_len > msg_len
                      then Some (Inl (mkRpcError DESERIALIZATION_ERROR ''Method field out of range''), request)
                      else do {
                        (ok, method_name) \<leftarrow>
                          (if method_len > 0 then copyFromIovecs mem iovecs cursor (replicate method_len 0) method_len
                            else Some (True, replicate method_len 0));
                        if \<not> ok then Some (Inl (mkRpcError DESERIALIZATION_ERROR ''Invalid method field''), request)
                        else do {
                          let cursor = cursor + method_len;
                          let payload_len = msg_len - cursor;
                          let (ok, payload_view) = payloadViewFromIovecs iovecs cursor payload_len;
                          if \<not> ok
                          then Some (Inl (mkRpcError DESERIALIZATION_ERROR ''Invalid request payload view''), request)
                          else Some (Inr msg_len,
                            RpcRequest_set_payloadView payload_view
                              (request\<lparr>rq_request_id := h_request_id header,
                                 rq_call_mode := rpcDecodeCallMode (h_flags header),
                                 rq_end_of_stream := rpcIsEndStream (h_flags header),
                                 rq_service_name := service_name,
                                 rq_method_name := method_name\<rparr>))
                        } } } } } } } } } })"

definition tryParseResponseMessage ::
  "endian \<Rightarrow> memory \<Rightarrow> iovec list \<Rightarrow> nat \<Rightarrow> nat \<Rightarrow> RpcResponse \<Rightarrow> ((RpcError + nat) \<times> RpcResponse) option" where
  "tryParseResponseMessage en mem iovecs total_readable max_message_size response =
     (if total_readable < RPC_HEADER_SIZE then Some (Inr 0, response)
      else do {
        (ok, header_buf) \<leftarrow> copyFromIovecs mem iovecs 0 (replicate RPC_HEADER_SIZE 0) RPC_HEADER_SIZE;
        if \<not> ok then Some (Inl (mkRpcError INVALID_RESPONSE ''Failed to read response header''), response)
        else do {
          (ok, header) \<leftarrow> RpcHeader_deserialize en RpcHeader_init header_buf;
          if \<not> ok then Some (Inl (mkRpcError INVALID_RESPONSE ''Invalid message header''), response)
          else if h_type header \<noteq> msgtype_to_u8 RESPONSE
            then Some (Inl (mkRpcError INVALID_RESPONSE ''Not a response message''), response)
          else do {
            let msg_len = RPC_HEADER_SIZE + unat (h_body_length header);
            if msg_len > size_add max_message_size RPC_HEADER_SIZE
            then Some (Inl (mkRpcError INVALID_RESPONSE ''Message too large''), response)
            else if total_readable < msg_len then Some (Inr 0, response)
            else if unat (h_body_length header) < 2
            then Some (Inl (mkRpcError DESERIALIZATION_ERROR ''Response body too short''), response)
            else do {
              let cursor = RPC_HEADER_SIZE;
              (ok, error_code_net) \<leftarrow> copyFromIovecs mem iovecs cursor (replicate 2 0) 2;
              if \<not> ok
              then Some (Inl (mkRpcError DESERIALIZATION_ERROR ''Invalid response error code''), response)
              else do {
                let cursor = cursor + 2;
                let payload_len = msg_len - cursor;
                let (ok, payload_view) = payloadViewFromIovecs iovecs cursor payload_len;
                if \<not> ok
                then Some (Inl (mkRpcError DESERIALIZATION_ERROR ''Invalid response payload view''), response)
                else Some (Inr msg_len,
                  RpcResponse_set_payloadView payload_view
                    (response\<lparr>rs_request_id := h_request_id header,
                       rs_call_mode := rpcDecodeCallMode (h_flags header),
                       rs_end_of_stream := rpcIsEndStream (h_flags header),
                       rs_error_code := errorcode_of_u16 (rpcNtohs en (host_load16 en error_code_net))\<rparr>))
              } } } } })"

section \<open>Read states\<close>

record RpcReaderSetting =
  max_message_size :: nat

definition RpcReaderSetting_init :: RpcReaderSetting where
  "RpcReaderSetting_init = \<lparr>max_message_size = RPC_MAX_BODY_SIZE\<rparr>"

record RequestRead =
  rqs_setting :: RpcReaderSetting
  rqs_request :: RpcRequest

definition RpcRequestReadState :: "'rb \<Rightarrow> RpcReaderSetting \<Rightarrow> RpcRequest \<Rightarrow> ('rb, RequestRead) ReadState" where
  "RpcRequestReadState rb setting request = mkReadState rb \<lparr>rqs_setting = setting, rqs_request = request\<rparr>"

definition request_parseFromRingBuffer :: "endian \<Rightarrow> 'rb ring_ops \<Rightarrow> ('rb, RequestRead) parser" where
  "request_parseFromRingBuffer en ops mem st =
     (if rb_readable ops (r_ring_buffer st) = 0 then Some (False, st)
      else let read_iovecs = rb_getReadIovecs ops (r_ring_buffer st) in
        if read_iovecs = [] then Some (False, st)
        else do {
          (parse_result, request) \<leftarrow> tryParseRequestMessage en mem read_iovecs
             (iovecsReadableBytes read_iovecs) (max_message_size (rqs_setting (r_self st)))
             (rqs_request (r_self st));
          let st = st\<lparr>r_self := (r_self st)\<lparr>rqs_request := request\<rparr>\<rparr>;
          case parse_result of
            Inl e \<Rightarrow> Some (True, setReadError e st)
          | Inr n \<Rightarrow>
              if n = 0 then Some (False, st)
              else Some (True, st\<lparr>r_ring_buffer := rb_consume ops (r_ring_buffer st) n\<rparr>) })"

record ResponseRead =
  rss_setting :: RpcReaderSetting
  rss_response :: RpcResponse

definition RpcResponseReadState :: "'rb \<Rightarrow> RpcReaderSetting \<Rightarrow> RpcResponse \<Rightarrow> ('rb, ResponseRead) ReadState" where
  "RpcResponseReadState rb setting response = mkReadState rb \<lparr>rss_setting = setting, rss_response = response\<rparr>"

definition response_parseFromRingBuffer :: "endian \<Rightarrow> 'rb ring_ops \<Rightarrow> ('rb, ResponseRead) parser" where
  "response_parseFromRingBuffer en ops mem st =
     (if rb_readable ops (r_ring_buffer st) = 0 then Some (False, st)
      else let read_iovecs = rb_getReadIovecs ops (r_ring_buffer st) in
        if read_iovecs = [] then Some (False, st)
        else do {
          (parse_result, response) \<leftarrow> tryParseResponseMessage en mem read_iovecs
             (iovecsReadableBytes read_iovecs) (max_message_size (rss_setting (r_self st)))
             (rss_response (r_self st));
          let st = st\<lparr>r_self := (r_self st)\<lparr>rss_response := response\<rparr>\<rparr>;
          case parse_result of
            Inl e \<Rightarrow> Some (True, setReadError e st)
          | Inr n \<Rightarrow>
              if n = 0 then Some (False, st)
              else Some (True, st\<lparr>r_ring_buffer := rb_consume ops (r_ring_buffer st) n\<rparr>) })"

definition RpcHeaderReadState :: "'rb \<Rightarrow> RpcHeader \<Rightarrow> ('rb, RpcHeader) ReadState" where
  "RpcHeaderReadState rb header = mkReadState rb header"

definition header_parseFromRingBuffer :: "endian \<Rightarrow> 'rb ring_ops \<Rightarrow> ('rb, RpcHeader) parser" where
  "header_parseFromRingBuffer en ops mem st =
     (let read_iovecs = rb_getReadIovecs ops (r_ring_buffer st) in
      if iovecsReadableBytes read_iovecs < RPC_HEADER_SIZE then Some (False, st)
      else do {
        (_, header_buf) \<leftarrow> copyFromIovecs mem read_iovecs 0 (replicate RPC_HEADER_SIZE 0) RPC_HEADER_SIZE;
        (ok, header) \<leftarrow> RpcHeader_deserialize en (r_self st) header_buf;
        let st = st\<lparr>r_self := header\<rparr>;
        Some (True,
          if \<not> ok then setReadError (mkRpcError INVALID_REQUEST ''Invalid header'') st
          else st\<lparr>r_ring_buffer := rb_consume ops (r_ring_buffer st) RPC_HEADER_SIZE\<rparr>) })"

text \<open>
  The caller's output buffer of the body state and the length asked for. A buffer shorter than that
  makes the copy undefined.
\<close>

record BodyRead =
  bd_body :: bytes
  bd_body_len :: nat

definition RpcBodyReadState :: "'rb \<Rightarrow> bytes \<Rightarrow> nat \<Rightarrow> ('rb, BodyRead) ReadState" where
  "RpcBodyReadState rb body len = mkReadState rb \<lparr>bd_body = body, bd_body_len = len\<rparr>"

definition body_parseFromRingBuffer :: "'rb ring_ops \<Rightarrow> ('rb, BodyRead) parser" where
  "body_parseFromRingBuffer ops mem st =
     (let read_iovecs = rb_getReadIovecs ops (r_ring_buffer st) in
      if iovecsReadableBytes read_iovecs < bd_body_len (r_self st) then Some (False, st)
      else do {
        (_, body) \<leftarrow> copyFromIovecs mem read_iovecs 0 (bd_body (r_self st)) (bd_body_len (r_self st));
        Some (True, st\<lparr>r_self := (r_self st)\<lparr>bd_body := body\<rparr>,
          r_ring_buffer := rb_consume ops (r_ring_buffer st) (bd_body_len (r_self st))\<rparr>) })"

section \<open>Write states\<close>

definition payload_iovecs :: "RpcPayloadView \<Rightarrow> iovec list" where
  "payload_iovecs v =
     (if segment1_len v > 0 then [mk_iovec (segment1 v) (segment1_len v)] else []) @
     (if segment2_len v > 0 then [mk_iovec (segment2 v) (segment2_len v)] else [])"

definition RpcRequestWriteState :: "endian \<Rightarrow> RpcRequest \<Rightarrow> WriteState option" where
  "RpcRequestWriteState en request = (
     let payload_view = RpcRequest_payloadView request;
         service = rq_service_name request;
         method = rq_method_name request;
         body_size = 2 + length service + 2 + length method + view_size payload_view;
         header = RpcHeader_init
           \<lparr>h_type := msgtype_to_u8 REQUEST,
            h_flags := rpcEncodeFlags (rq_call_mode request) (rq_end_of_stream request),
            h_request_id := rq_request_id request,
            h_body_length := word_of_nat body_size\<rparr>;
         m_service_len = host_store16 en (rpcHtons en (word_of_nat (length service)));
         m_method_len = host_store16 en (rpcHtons en (word_of_nat (length method)))
     in do {
       m_header \<leftarrow> RpcHeader_serialize en header (replicate RPC_HEADER_SIZE 0);
       Some (mkWriteState (
         [mk_iovec (Buf m_header 0) RPC_HEADER_SIZE, mk_iovec (Buf m_service_len 0) 2] @
         (if service \<noteq> [] then [mk_iovec (Buf service 0) (length service)] else []) @
         [mk_iovec (Buf m_method_len 0) 2] @
         (if method \<noteq> [] then [mk_iovec (Buf method 0) (length method)] else []) @
         payload_iovecs payload_view)) })"

definition RpcResponseWriteState :: "endian \<Rightarrow> RpcResponse \<Rightarrow> WriteState option" where
  "RpcResponseWriteState en response = (
     let payload_view = RpcResponse_payloadView response;
         body_size = 2 + view_size payload_view;
         header = RpcHeader_init
           \<lparr>h_type := msgtype_to_u8 RESPONSE,
            h_flags := rpcEncodeFlags (rs_call_mode response) (rs_end_of_stream response),
            h_request_id := rs_request_id response,
            h_body_length := word_of_nat body_size\<rparr>;
         m_error_code = host_store16 en (rpcHtons en (errorcode_to_u16 (rs_error_code response)))
     in do {
       m_header \<leftarrow> RpcHeader_serialize en header (replicate RPC_HEADER_SIZE 0);
       Some (mkWriteState (
         [mk_iovec (Buf m_header 0) RPC_HEADER_SIZE, mk_iovec (Buf m_error_code 0) 2] @
         payload_iovecs payload_view)) })"

section \<open>The connection\<close>

definition kDefaultRpcRingBufferSize :: nat where
  "kDefaultRpcRingBufferSize = 8 * 1024"

definition normalizeRingBufferSize :: "nat \<Rightarrow> nat" where
  "normalizeRingBufferSize ring_buffer_size =
     (if ring_buffer_size = 0 then kDefaultRpcRingBufferSize else ring_buffer_size)"

text \<open>
  \<open>mk_ring\<close> is the kernel's \<^verbatim>\<open>RingBuffer\<close> constructor. The socket is the handle the driver reads and
  writes through, so the connection keeps only what the library itself stores.
\<close>

record 'rb RpcConn =
  cn_ring_buffer :: 'rb
  cn_reader_setting :: RpcReaderSetting

definition mkRpcConn :: "(nat \<Rightarrow> 'rb) \<Rightarrow> RpcReaderSetting \<Rightarrow> nat \<Rightarrow> 'rb RpcConn" where
  "mkRpcConn mk_ring reader_setting ring_buffer_size =
     \<lparr>cn_ring_buffer = mk_ring (normalizeRingBufferSize ring_buffer_size), cn_reader_setting = reader_setting\<rparr>"

text \<open>
  The awaitable classes: each builds the state of its operation and the machine around it. Resuming and
  suspending is the driver's part, \<open>read_run\<close> for the reads; a send is given by its write state, which
  \<open>send_run\<close> puts into its machine and drives.
\<close>

definition GetRpcRequestAwaitable :: "'rb \<Rightarrow> RpcReaderSetting \<Rightarrow> RpcRequest \<Rightarrow> ('rb, RequestRead) ReadMachine" where
  "GetRpcRequestAwaitable rb setting request = RpcRingBufferReadMachine (RpcRequestReadState rb setting request)"

definition GetRpcResponseAwaitable :: "'rb \<Rightarrow> RpcReaderSetting \<Rightarrow> RpcResponse \<Rightarrow> ('rb, ResponseRead) ReadMachine" where
  "GetRpcResponseAwaitable rb setting response = RpcRingBufferReadMachine (RpcResponseReadState rb setting response)"

definition GetRpcHeaderAwaitable :: "'rb \<Rightarrow> RpcHeader \<Rightarrow> ('rb, RpcHeader) ReadMachine" where
  "GetRpcHeaderAwaitable rb header = RpcRingBufferReadMachine (RpcHeaderReadState rb header)"

definition GetRpcBodyAwaitable :: "'rb \<Rightarrow> bytes \<Rightarrow> nat \<Rightarrow> ('rb, BodyRead) ReadMachine" where
  "GetRpcBodyAwaitable rb body len = RpcRingBufferReadMachine (RpcBodyReadState rb body len)"

definition SendRpcRequestAwaitable :: "endian \<Rightarrow> RpcRequest \<Rightarrow> WriteState option" where
  "SendRpcRequestAwaitable en request = RpcRequestWriteState en request"

definition SendRpcResponseAwaitable :: "endian \<Rightarrow> RpcResponse \<Rightarrow> WriteState option" where
  "SendRpcResponseAwaitable en response = RpcResponseWriteState en response"

definition SendRawDataAwaitable :: "bytes \<Rightarrow> WriteState option" where
  "SendRawDataAwaitable data = Some (RpcVectorWriteState data)"

text \<open>The reader and the writer of a connection.\<close>

definition getRequest :: "'rb RpcConn \<Rightarrow> RpcRequest \<Rightarrow> ('rb, RequestRead) ReadMachine" where
  "getRequest conn request = GetRpcRequestAwaitable (cn_ring_buffer conn) (cn_reader_setting conn) request"

definition getResponse :: "'rb RpcConn \<Rightarrow> RpcResponse \<Rightarrow> ('rb, ResponseRead) ReadMachine" where
  "getResponse conn response = GetRpcResponseAwaitable (cn_ring_buffer conn) (cn_reader_setting conn) response"

definition getHeader :: "'rb RpcConn \<Rightarrow> RpcHeader \<Rightarrow> ('rb, RpcHeader) ReadMachine" where
  "getHeader conn header = GetRpcHeaderAwaitable (cn_ring_buffer conn) header"

definition getBody :: "'rb RpcConn \<Rightarrow> bytes \<Rightarrow> nat \<Rightarrow> ('rb, BodyRead) ReadMachine" where
  "getBody conn body len = GetRpcBodyAwaitable (cn_ring_buffer conn) body len"

definition sendRequest :: "endian \<Rightarrow> RpcRequest \<Rightarrow> WriteState option" where
  "sendRequest en request = SendRpcRequestAwaitable en request"

definition sendResponse :: "endian \<Rightarrow> RpcResponse \<Rightarrow> WriteState option" where
  "sendResponse en response = SendRpcResponseAwaitable en response"

definition sendRaw :: "memory \<Rightarrow> ptr \<Rightarrow> nat \<Rightarrow> WriteState option" where
  "sendRaw mem data len = do {
     buf \<leftarrow> rdp mem data len;
     SendRawDataAwaitable buf }"

lemmas getRequest_machine = getRequest_def GetRpcRequestAwaitable_def
lemmas getResponse_machine = getResponse_def GetRpcResponseAwaitable_def
lemmas getHeader_machine = getHeader_def GetRpcHeaderAwaitable_def RpcHeaderReadState_def
lemmas getBody_machine = getBody_def GetRpcBodyAwaitable_def RpcBodyReadState_def

lemma send_states [simp]: "sendRequest en = RpcRequestWriteState en" "sendResponse en = RpcResponseWriteState en"
  by (simp_all add: fun_eq_iff sendRequest_def sendResponse_def SendRpcRequestAwaitable_def SendRpcResponseAwaitable_def)

section \<open>What the parsers compute\<close>

text \<open>
  A request as its accessors show it; \<open>None\<close> when the payload view points outside a buffer. Payload
  bytes are read in the given memory.
\<close>

record request_fields =
  qf_id :: u32
  qf_mode :: RpcCallMode
  qf_end :: bool
  qf_service :: bytes
  qf_method :: bytes
  qf_payload :: bytes

definition request_value :: "memory \<Rightarrow> RpcRequest \<Rightarrow> request_fields option" where
  "request_value mem r =
     (if view_ok (RpcRequest_payloadView r)
      then Some \<lparr>qf_id = rq_request_id r, qf_mode = rq_call_mode r, qf_end = rq_end_of_stream r,
             qf_service = rq_service_name r, qf_method = rq_method_name r,
             qf_payload = view_bytes mem (RpcRequest_payloadView r)\<rparr>
      else None)"

record response_fields =
  pf_id :: u32
  pf_mode :: RpcCallMode
  pf_end :: bool
  pf_error :: RpcErrorCode
  pf_payload :: bytes

definition response_value :: "memory \<Rightarrow> RpcResponse \<Rightarrow> response_fields option" where
  "response_value mem r =
     (if view_ok (RpcResponse_payloadView r)
      then Some \<lparr>pf_id = rs_request_id r, pf_mode = rs_call_mode r, pf_end = rs_end_of_stream r,
             pf_error = rs_error_code r, pf_payload = view_bytes mem (RpcResponse_payloadView r)\<rparr>
      else None)"

text \<open>Which of its messages the request parser reports for a body that does not parse.\<close>

definition route_error :: "bytes \<Rightarrow> string" where
  "route_error c =
     (if length c < 18 then ''Invalid service length''
      else let sl = unat (from_be16 (take 2 (drop 16 c))) in
        if 18 + sl > 16 + body_len c then ''Service field out of range''
        else if length c < 20 + sl then ''Invalid method length''
        else ''Method field out of range'')"

definition request_spec :: "nat \<Rightarrow> bytes \<Rightarrow> nat \<times> nat \<times> request_fields option parse_outcome" where
  "request_spec mx c =
     (if length c < 16 then (mx, 0, More)
      else if \<not> header_valid (header_of c)
        then (mx, 0, Fail (mkRpcError INVALID_REQUEST ''Invalid message header''))
      else if h_type (header_of c) \<noteq> 1
        then (mx, 0, Fail (mkRpcError INVALID_REQUEST ''Not a request message''))
      else if 16 + body_len c > size_add mx 16
        then (mx, 0, Fail (mkRpcError INVALID_REQUEST ''Message too large''))
      else if length c < 16 + body_len c then (mx, 0, More)
      else case parse_route (body_of c) of
          None \<Rightarrow> (mx, 0, Fail (mkRpcError DESERIALIZATION_ERROR (route_error c)))
        | Some (s, m, p) \<Rightarrow> (mx, 16 + body_len c, Got (Some
            \<lparr>qf_id = h_request_id (header_of c), qf_mode = rpcDecodeCallMode (h_flags (header_of c)),
             qf_end = rpcIsEndStream (h_flags (header_of c)), qf_service = s, qf_method = m, qf_payload = p\<rparr>)))"

definition response_spec :: "nat \<Rightarrow> bytes \<Rightarrow> nat \<times> nat \<times> response_fields option parse_outcome" where
  "response_spec mx c =
     (if length c < 16 then (mx, 0, More)
      else if \<not> header_valid (header_of c)
        then (mx, 0, Fail (mkRpcError INVALID_RESPONSE ''Invalid message header''))
      else if h_type (header_of c) \<noteq> 2
        then (mx, 0, Fail (mkRpcError INVALID_RESPONSE ''Not a response message''))
      else if 16 + body_len c > size_add mx 16
        then (mx, 0, Fail (mkRpcError INVALID_RESPONSE ''Message too large''))
      else if length c < 16 + body_len c then (mx, 0, More)
      else if body_len c < 2
        then (mx, 0, Fail (mkRpcError DESERIALIZATION_ERROR ''Response body too short''))
      else (mx, 16 + body_len c, Got (Some
            \<lparr>pf_id = h_request_id (header_of c), pf_mode = rpcDecodeCallMode (h_flags (header_of c)),
             pf_end = rpcIsEndStream (h_flags (header_of c)),
             pf_error = errorcode_of_u16 (from_be16 (take 2 (body_of c))), pf_payload = drop 2 (body_of c)\<rparr>)))"

lemma header_deserialize_take:
  assumes "16 \<le> length c"
  shows "RpcHeader_deserialize en h (take 16 c) =
    Some (if h_magic (header_of c) \<noteq> RPC_MAGIC then (False, h\<lparr>h_magic := h_magic (header_of c)\<rparr>)
          else (header_valid (header_of c), header_of c))"
  using assms by (simp add: header_deserialize_eq header_of_take)

lemma ntohs_slice:
  "k + 2 \<le> length c \<Longrightarrow>
    rpcNtohs en (host_load16 en (take 2 (drop k c))) = from_be16 (take 2 (drop k c))"
  by (simp add: ntoh_load)

text \<open>What the parser of one message reports, from the outcome of its reference.\<close>

fun parse_report :: "nat \<times> nat \<times> 'v parse_outcome \<Rightarrow> RpcError + nat" where
  "parse_report (p, n, More) = Inr 0"
| "parse_report (p, n, Fail e) = Inl e"
| "parse_report (p, n, Got v) = Inr n"

lemma tryParseResponseMessage_eq:
  assumes "iovs_ok iovs" "length iovs \<le> 2"
  shows "\<exists>r'. tryParseResponseMessage en mem iovs (iovecsReadableBytes iovs) mx r =
      Some (parse_report (response_spec mx (iovs_bytes mem iovs)), r') \<and>
    (case snd (snd (response_spec mx (iovs_bytes mem iovs))) of
       Got v \<Rightarrow> response_value mem r' = v | _ \<Rightarrow> r' = r)"
proof -
  let ?c = "iovs_bytes mem iovs"
  have rd: "iovecsReadableBytes iovs = length ?c" using assms readable_length by simp
  note copy = copyFromIovecs_eq [OF assms(1), of mem, unfolded rd]
  show ?thesis
  proof (cases "16 \<le> length ?c \<and> header_valid (header_of ?c) \<and> h_type (header_of ?c) = 2 \<and>
      16 + body_len ?c \<le> size_add mx 16 \<and> 16 + body_len ?c \<le> length ?c \<and> 2 \<le> body_len ?c")
    case True
    then obtain v where v: "payloadViewFromIovecs iovs 18 (16 + body_len ?c - 18) = (True, v)" "view_ok v"
        "view_bytes mem v = take (16 + body_len ?c - 18) (drop 18 ?c)"
      using payloadViewFromIovecs_ok [of iovs 18 "16 + body_len ?c - 18" mem] assms rd by auto
    then show ?thesis
      using True
      by (simp add: tryParseResponseMessage_def response_spec_def rd copy header_deserialize_take ntohs_slice
          header_valid_def response_value_def RpcResponse_payloadView_def RpcResponse_set_payloadView_def
          flip: body_len_def) (simp add: body_of_def drop_take)
  next
    case False
    then show ?thesis
      by (auto simp: tryParseResponseMessage_def response_spec_def rd copy header_deserialize_take
          header_valid_def simp flip: body_len_def)
  qed
qed

lemma parse_route_slices:
  assumes "16 + body_len c \<le> length c" "4 \<le> body_len c"
  defines "sl \<equiv> unat (from_be16 (take 2 (drop 16 c)))"
  defines "ml \<equiv> unat (from_be16 (take 2 (drop (18 + sl) c)))"
  shows "parse_route (body_of c) = (if 4 + sl \<le> body_len c \<and> 4 + sl + ml \<le> body_len c
    then Some (take sl (drop 18 c), take ml (drop (20 + sl) c), take (body_len c - 4 - sl - ml) (drop (20 + sl + ml) c))
    else None)"
proof -
  have len: "length (body_of c) = body_len c" using assms by (simp add: body_of_def)
  have sl: "take 2 (body_of c) = take 2 (drop 16 c)"
    using assms(2) by (simp add: body_of_def min_def)
  have ml: "take 2 (drop (2 + sl) (body_of c)) = take 2 (drop (18 + sl) c)" if "4 + sl \<le> body_len c"
    using that by (simp add: body_of_def drop_take min_def)
  show ?thesis
  proof (cases "4 + sl \<le> body_len c")
    case True
    then show ?thesis
      using assms(2) len ml
      by (auto simp: parse_route_def sl sl_def [symmetric] ml_def [symmetric] Let_def)
         (auto simp: body_of_def drop_take min_def add.assoc)
  next
    case False
    then show ?thesis
      using assms(2) len by (simp add: parse_route_def sl sl_def [symmetric] Let_def)
  qed
qed

lemma tryParseRequestMessage_head:
  assumes "iovs_ok iovs" "c = iovs_bytes mem iovs"
    and "\<not> (16 \<le> length c \<and> header_valid (header_of c) \<and> h_type (header_of c) = 1 \<and>
      16 + body_len c \<le> size_add mx 16 \<and> 16 + body_len c \<le> length c)"
  shows "tryParseRequestMessage en mem iovs (length c) mx r = Some (parse_report (request_spec mx c), r)"
    "\<nexists>v. snd (snd (request_spec mx c)) = Got v"
proof -
  note copy = copyFromIovecs_eq [OF assms(1), of mem] readable_length [OF assms(1), of mem, symmetric]
  show "tryParseRequestMessage en mem iovs (length c) mx r = Some (parse_report (request_spec mx c), r)"
    using assms
    by (auto simp: tryParseRequestMessage_def request_spec_def copy header_deserialize_take
          header_valid_def simp flip: body_len_def)
  show "\<nexists>v. snd (snd (request_spec mx c)) = Got v"
    using assms by (auto simp: request_spec_def)
qed

lemma tryParseRequestMessage_body:
  assumes ok: "iovs_ok iovs" and c: "c = iovs_bytes mem iovs"
    and head: "16 \<le> length c" "header_valid (header_of c)" "h_type (header_of c) = 1"
      "16 + body_len c \<le> size_add mx 16" "16 + body_len c \<le> length c"
    and sl: "sl = unat (from_be16 (take 2 (drop 16 c)))"
    and ml: "ml = unat (from_be16 (take 2 (drop (18 + sl) c)))"
  shows "length c < 18 \<or> body_len c < 4 + sl \<or> body_len c < 4 + sl + ml \<Longrightarrow>
      tryParseRequestMessage en mem iovs (length c) mx r =
        Some (Inl (mkRpcError DESERIALIZATION_ERROR (route_error c)), r)"
    and "4 + sl + ml \<le> body_len c \<Longrightarrow>
      payloadViewFromIovecs iovs (20 + sl + ml) (body_len c - (4 + sl + ml)) = (True, v) \<Longrightarrow>
      tryParseRequestMessage en mem iovs (length c) mx r = Some (Inr (16 + body_len c),
        RpcRequest_set_payloadView v (r\<lparr>rq_request_id := h_request_id (header_of c),
          rq_call_mode := rpcDecodeCallMode (h_flags (header_of c)),
          rq_end_of_stream := rpcIsEndStream (h_flags (header_of c)),
          rq_service_name := take sl (drop 18 c), rq_method_name := take ml (drop (20 + sl) c)\<rparr>))"
proof -
  have copy: "copyFromIovecs mem iovs off (replicate n 0) n = Some (n = 0 \<or> off + n \<le> length c,
      if n = 0 \<or> off + n \<le> length c then take n (drop off c)
      else drop off c @ replicate (n - (length c - off)) 0)" for off n
    using ok c by (simp add: copyFromIovecs_eq readable_length)
  have hdr: "RpcHeader_deserialize en RpcHeader_init (take 16 c) = Some (True, header_of c)"
    using head by (simp add: header_deserialize_take header_valid_def)
  note start = tryParseRequestMessage_def copy [of 0] hdr head head(1,4,5) [THEN leD] body_len_def [symmetric] Let_def
  have nsl: "unat (rpcNtohs en (host_load16 en (take 2 (drop 16 c)))) = sl" if "18 \<le> length c"
    using that sl by (simp add: ntohs_slice)
  have nml: "unat (rpcNtohs en (host_load16 en (take 2 (drop (18 + sl) c)))) = ml" if "20 + sl \<le> length c"
    using that ml by (simp add: ntohs_slice)
  have nml0: "unat (rpcNtohs en (host_load16 en (take 2 (drop 18 c)))) = ml" if "20 + sl \<le> length c" "sl = 0"
    using nml that by simp
  show "tryParseRequestMessage en mem iovs (length c) mx r =
        Some (Inl (mkRpcError DESERIALIZATION_ERROR (route_error c)), r)"
    if bad: "length c < 18 \<or> body_len c < 4 + sl \<or> body_len c < 4 + sl + ml"
  proof -
    consider "length c < 18" | "18 \<le> length c" "body_len c < 2 + sl"
      | "18 \<le> length c" "2 + sl \<le> body_len c" "length c < 20 + sl"
      | "20 + sl \<le> length c" "2 + sl \<le> body_len c" "body_len c < 4 + sl + ml"
      using bad head by linarith
    then show ?thesis
    proof cases
      case 1
      then show ?thesis by (simp add: start copy [of 16] route_error_def)
    next
      case 2
      then show ?thesis by (simp add: start copy [of 16] nsl route_error_def sl [symmetric])
    next
      case 3
      moreover have "18 + sl \<le> length c" using 3 head by linarith
      ultimately show ?thesis
        by (simp add: start copy [of 16] nsl copy [of 18] copy [of "18 + sl"] route_error_def sl [symmetric])
    next
      case 4
      moreover have "18 + sl \<le> length c" "18 \<le> length c" using 4 by linarith+
      ultimately show ?thesis
        by (simp add: start copy [of 16] nsl copy [of 18] copy [of "18 + sl"] nml nml0 route_error_def sl [symmetric])
    qed
  qed
  show "tryParseRequestMessage en mem iovs (length c) mx r = Some (Inr (16 + body_len c),
        RpcRequest_set_payloadView v (r\<lparr>rq_request_id := h_request_id (header_of c),
          rq_call_mode := rpcDecodeCallMode (h_flags (header_of c)),
          rq_end_of_stream := rpcIsEndStream (h_flags (header_of c)),
          rq_service_name := take sl (drop 18 c), rq_method_name := take ml (drop (20 + sl) c)\<rparr>))"
    if fit: "4 + sl + ml \<le> body_len c"
      and v: "payloadViewFromIovecs iovs (20 + sl + ml) (body_len c - (4 + sl + ml)) = (True, v)"
  proof -
    have "18 \<le> length c" "18 + sl \<le> length c" "20 + sl \<le> length c" "20 + sl + ml \<le> length c"
      using fit head by linarith+
    then show ?thesis
      using fit v by (simp add: start copy [of 16] nsl copy [of 18] copy [of "18 + sl"] nml nml0 copy [of "20 + sl"] copy [of 20])
         (auto simp: add.assoc)
  qed
qed

lemma tryParseRequestMessage_eq:
  assumes "iovs_ok iovs" "length iovs \<le> 2"
  shows "\<exists>r'. tryParseRequestMessage en mem iovs (iovecsReadableBytes iovs) mx r =
      Some (parse_report (request_spec mx (iovs_bytes mem iovs)), r') \<and>
    (case snd (snd (request_spec mx (iovs_bytes mem iovs))) of
       Got v \<Rightarrow> request_value mem r' = v | _ \<Rightarrow> r' = r)"
proof -
  define c where "c = iovs_bytes mem iovs"
  define sl where "sl = unat (from_be16 (take 2 (drop 16 c)))"
  define ml where "ml = unat (from_be16 (take 2 (drop (18 + sl) c)))"
  have rd: "iovecsReadableBytes iovs = length c" using assms readable_length by (simp add: c_def)
  show ?thesis
  proof (cases "16 \<le> length c \<and> header_valid (header_of c) \<and> h_type (header_of c) = 1 \<and>
      16 + body_len c \<le> size_add mx 16 \<and> 16 + body_len c \<le> length c")
    case False
    note h = tryParseRequestMessage_head [OF assms(1) c_def False]
    show ?thesis unfolding rd c_def [symmetric] using h by (auto split: parse_outcome.splits)
  next
    case True
    note body = tryParseRequestMessage_body [OF assms(1) c_def _ _ _ _ _ sl_def ml_def]
    show ?thesis
    proof (cases "4 + sl + ml \<le> body_len c")
      case fit: True
      let ?n = "body_len c - (4 + sl + ml)"
      obtain v where v: "payloadViewFromIovecs iovs (20 + sl + ml) ?n = (True, v)" "view_ok v"
          "view_bytes mem v = take ?n (drop (20 + sl + ml) c)"
        using payloadViewFromIovecs_ok [of iovs "20 + sl + ml" ?n mem] assms rd fit True c_def by auto
      have "parse_route (body_of c) = Some (take sl (drop 18 c), take ml (drop (20 + sl) c),
          take ?n (drop (20 + sl + ml) c))"
        using parse_route_slices [of c] True fit by (simp add: sl_def ml_def)
      then show ?thesis
        unfolding rd c_def [symmetric]
        using True fit v body(2) [of mx v en r]
        by (simp add: request_spec_def request_value_def RpcRequest_payloadView_def RpcRequest_set_payloadView_def)
    next
      case bad: False
      have "parse_route (body_of c) = None"
        using parse_route_slices [of c] True bad
        by (cases "4 \<le> body_len c") (auto simp: sl_def ml_def parse_route_def body_of_def)
      then show ?thesis
        unfolding rd c_def [symmetric]
        using True bad body(1) [of mx en r] by (simp add: request_spec_def)
    qed
  qed
qed

section \<open>The read states keep the reader contract\<close>

lemma body_len_append: "16 \<le> length c \<Longrightarrow> body_len (c @ d) = body_len c"
  by (simp add: body_len_def header_of_append)

lemma body_of_append: "16 + body_len c \<le> length c \<Longrightarrow> body_of (c @ d) = body_of c"
  by (simp add: body_of_def body_len_append)

lemma header_of_take_append: "16 \<le> n \<Longrightarrow> n \<le> length c \<Longrightarrow> header_of (take n c @ d) = header_of c"
  by (simp add: header_of_append header_of_take)

lemma body_len_take_append: "16 \<le> n \<Longrightarrow> n \<le> length c \<Longrightarrow> body_len (take n c @ d) = body_len c"
  by (simp add: body_len_def header_of_take_append)

lemma body_of_take_append:
  "16 + body_len c \<le> length c \<Longrightarrow> body_of (take (16 + body_len c) c @ d) = body_of c"
  by (simp add: body_of_def body_len_take_append drop_take)

lemmas append_simps = body_len_append body_of_append header_of_append
lemmas take_append_simps = body_len_take_append body_of_take_append header_of_take_append

lemma request_spec_more:
  "request_spec p c = (p', n, More) \<Longrightarrow> p' = p \<and> n = 0"
  by (auto simp: request_spec_def split: if_splits option.splits)

lemma request_spec_got:
  assumes "request_spec p c = (p', n, Got v)"
  shows "n \<le> length c" "request_spec p (take n c @ d) = (p', n, Got v)"
  using assms by (auto simp: request_spec_def take_append_simps split: if_splits option.splits)

lemma request_spec_fail:
  assumes "request_spec p c = (p', n, Fail e)"
  shows "n \<le> length c" "\<exists>p'' e'. request_spec p (c @ d) = (p'', n, Fail e') \<and> err_code e' = err_code e"
  using assms by (auto simp: request_spec_def append_simps mkRpcError_def split: if_splits option.splits)

lemma response_spec_more:
  "response_spec p c = (p', n, More) \<Longrightarrow> p' = p \<and> n = 0"
  by (auto simp: response_spec_def split: if_splits)

lemma response_spec_got:
  assumes "response_spec p c = (p', n, Got v)"
  shows "n \<le> length c" "response_spec p (take n c @ d) = (p', n, Got v)"
  using assms by (auto simp: response_spec_def take_append_simps split: if_splits)

lemma response_spec_fail:
  assumes "response_spec p c = (p', n, Fail e)"
  shows "n \<le> length c" "\<exists>p'' e'. response_spec p (c @ d) = (p'', n, Fail e') \<and> err_code e' = err_code e"
  using assms by (auto simp: response_spec_def append_simps split: if_splits)

lemma spec_zero:
  "request_spec p c = (p', n, out) \<Longrightarrow> p' = p \<and> (out = More \<or> (\<exists>e. out = Fail e) \<longrightarrow> n = 0) \<and> (\<forall>v. out = Got v \<longrightarrow> 0 < n)"
  "response_spec p c = (p', n, out2) \<Longrightarrow> p' = p \<and> (out2 = More \<or> (\<exists>e. out2 = Fail e) \<longrightarrow> n = 0) \<and> (\<forall>v. out2 = Got v \<longrightarrow> 0 < n)"
  by (auto simp: request_spec_def response_spec_def split: if_splits option.splits)

lemma spec_short: "length c < 16 \<Longrightarrow> request_spec p c = (p, 0, More)"
    "length c < 16 \<Longrightarrow> response_spec p c = (p, 0, More)"
  by (simp_all add: request_spec_def response_spec_def)

sublocale ring_buffer \<subseteq> request: ring_reader ops ring_inv "request_parseFromRingBuffer en ops"
    "\<lambda>s. max_message_size (rqs_setting s)" request_spec "\<lambda>mem s. request_value mem (rqs_request s)" "\<lambda>_. True"
  rewrites "(active (\<lambda>_. True) :: ('rb, RequestRead) ReadMachine \<Rightarrow> bool) = reading"
  for en
proof unfold_locales
  fix st :: "('rb, RequestRead) ReadState" and mem p' n out
  let ?rb = "r_ring_buffer st" and ?p = "max_message_size (rqs_setting (r_self st))"
  let ?iovs = "rb_getReadIovecs ops ?rb"
  assume inv: "ring_inv ?rb" and spec: "request_spec ?p (ring_content ops mem ?rb) = (p', n, out)"
  obtain r' where r': "tryParseRequestMessage en mem ?iovs (iovecsReadableBytes ?iovs) ?p (rqs_request (r_self st)) =
      Some (parse_report (p', n, out), r')" "case out of Got v \<Rightarrow> request_value mem r' = v | _ \<Rightarrow> r' = rqs_request (r_self st)"
    using tryParseRequestMessage_eq [OF read_ok [OF inv] segments [OF inv], of en mem ?p] spec
    by (auto simp: ring_content_def)
  note z = spec_zero(1) [OF spec]
  have "n \<le> length (ring_content ops mem ?rb)"
    using request_spec_got(1) request_spec_fail(1) spec z by (cases out) auto
  note c = consume_content [OF inv this]
  have nonempty: "out \<noteq> More \<longrightarrow> 0 < rb_readable ops ?rb \<and> ?iovs \<noteq> []"
    using spec spec_short length_content [OF inv, of mem]
    by (cases "length (ring_content ops mem ?rb) < 16") (auto simp: ring_content_def)
  show "\<exists>st'. request_parseFromRingBuffer en ops mem st = Some (out \<noteq> More, st') \<and>
        ring_inv (r_ring_buffer st') \<and>
        (\<forall>mem'. ring_content ops mem' (r_ring_buffer st') = drop n (ring_content ops mem' ?rb)) \<and>
        ring_capacity ops (r_ring_buffer st') = ring_capacity ops ?rb \<and>
        max_message_size (rqs_setting (r_self st')) = p' \<and>
        r_error st' = (case out of Fail e \<Rightarrow> Some e | _ \<Rightarrow> r_error st) \<and>
        (case out of Got v \<Rightarrow> request_value mem (rqs_request (r_self st')) = v | _ \<Rightarrow> True)"
    using r' z c inv nonempty
    by (cases out) (auto simp: request_parseFromRingBuffer_def setReadError_def Let_def)
next
  fix p c p' n d assume "request_spec p c = (p', n, More)"
  then show "n \<le> length c \<and> request_spec p (c @ d) =
      (case request_spec p' (drop n c @ d) of (p'', k, out) \<Rightarrow> (p'', n + k, out))"
    using request_spec_more by force
next
  fix p c p' n v d assume "request_spec p c = (p', n, Got v)"
  then show "n \<le> length c \<and> request_spec p (take n c @ d) = (p', n, Got v)"
    using request_spec_got by blast
next
  fix p c p' n e d assume "request_spec p c = (p', n, Fail e)"
  then show "n \<le> length c \<and> (\<exists>p'' e'. request_spec p (c @ d) = (p'', n, Fail e') \<and> err_code e' = err_code e)"
    using request_spec_fail by blast
qed (simp_all add: active_True)

sublocale ring_buffer \<subseteq> response: ring_reader ops ring_inv "response_parseFromRingBuffer en ops"
    "\<lambda>s. max_message_size (rss_setting s)" response_spec "\<lambda>mem s. response_value mem (rss_response s)" "\<lambda>_. True"
  rewrites "(active (\<lambda>_. True) :: ('rb, ResponseRead) ReadMachine \<Rightarrow> bool) = reading"
  for en
proof unfold_locales
  fix st :: "('rb, ResponseRead) ReadState" and mem p' n out
  let ?rb = "r_ring_buffer st" and ?p = "max_message_size (rss_setting (r_self st))"
  let ?iovs = "rb_getReadIovecs ops ?rb"
  assume inv: "ring_inv ?rb" and spec: "response_spec ?p (ring_content ops mem ?rb) = (p', n, out)"
  obtain r' where r': "tryParseResponseMessage en mem ?iovs (iovecsReadableBytes ?iovs) ?p (rss_response (r_self st)) =
      Some (parse_report (p', n, out), r')" "case out of Got v \<Rightarrow> response_value mem r' = v | _ \<Rightarrow> r' = rss_response (r_self st)"
    using tryParseResponseMessage_eq [OF read_ok [OF inv] segments [OF inv], of en mem ?p] spec
    by (auto simp: ring_content_def)
  note z = spec_zero(2) [OF spec]
  have "n \<le> length (ring_content ops mem ?rb)"
    using response_spec_got(1) response_spec_fail(1) spec z by (cases out) auto
  note c = consume_content [OF inv this]
  have nonempty: "out \<noteq> More \<longrightarrow> 0 < rb_readable ops ?rb \<and> ?iovs \<noteq> []"
    using spec spec_short length_content [OF inv, of mem]
    by (cases "length (ring_content ops mem ?rb) < 16") (auto simp: ring_content_def)
  show "\<exists>st'. response_parseFromRingBuffer en ops mem st = Some (out \<noteq> More, st') \<and>
        ring_inv (r_ring_buffer st') \<and>
        (\<forall>mem'. ring_content ops mem' (r_ring_buffer st') = drop n (ring_content ops mem' ?rb)) \<and>
        ring_capacity ops (r_ring_buffer st') = ring_capacity ops ?rb \<and>
        max_message_size (rss_setting (r_self st')) = p' \<and>
        r_error st' = (case out of Fail e \<Rightarrow> Some e | _ \<Rightarrow> r_error st) \<and>
        (case out of Got v \<Rightarrow> response_value mem (rss_response (r_self st')) = v | _ \<Rightarrow> True)"
    using r' z c inv nonempty
    by (cases out) (auto simp: response_parseFromRingBuffer_def setReadError_def Let_def)
next
  fix p c p' n d assume "response_spec p c = (p', n, More)"
  then show "n \<le> length c \<and> response_spec p (c @ d) =
      (case response_spec p' (drop n c @ d) of (p'', k, out) \<Rightarrow> (p'', n + k, out))"
    using response_spec_more by force
next
  fix p c p' n v d assume "response_spec p c = (p', n, Got v)"
  then show "n \<le> length c \<and> response_spec p (take n c @ d) = (p', n, Got v)"
    using response_spec_got by blast
next
  fix p c p' n e d assume "response_spec p c = (p', n, Fail e)"
  then show "n \<le> length c \<and> (\<exists>p'' e'. response_spec p (c @ d) = (p'', n, Fail e') \<and> err_code e' = err_code e)"
    using response_spec_fail by blast
qed (simp_all add: active_True)

definition header_spec :: "unit \<Rightarrow> bytes \<Rightarrow> unit \<times> nat \<times> RpcHeader parse_outcome" where
  "header_spec p c =
     (if length c < 16 then (p, 0, More)
      else if \<not> header_valid (header_of c) then (p, 0, Fail (mkRpcError INVALID_REQUEST ''Invalid header''))
      else (p, 16, Got (header_of c)))"

definition body_spec :: "nat \<Rightarrow> bytes \<Rightarrow> nat \<times> nat \<times> bytes parse_outcome" where
  "body_spec k c = (if length c < k then (k, 0, More) else (k, k, Got (take k c)))"

sublocale ring_buffer \<subseteq> header: ring_reader ops ring_inv "header_parseFromRingBuffer en ops"
    "\<lambda>_. ()" header_spec "\<lambda>mem s. s" "\<lambda>_. True"
  rewrites "(active (\<lambda>_. True) :: ('rb, RpcHeader) ReadMachine \<Rightarrow> bool) = reading"
  for en
proof unfold_locales
  fix st :: "('rb, RpcHeader) ReadState" and mem and p' :: unit and n out
  let ?rb = "r_ring_buffer st"
  assume inv: "ring_inv ?rb" and spec: "header_spec () (ring_content ops mem ?rb) = (p', n, out)"
  have "n \<le> length (ring_content ops mem ?rb)"
    using spec by (auto simp: header_spec_def split: if_splits)
  note c = consume_content [OF inv this]
  note cp = copyFromIovecs_eq [OF read_ok [OF inv], of mem, folded ring_content_def]
  show "\<exists>st'. header_parseFromRingBuffer en ops mem st = Some (out \<noteq> More, st') \<and>
        ring_inv (r_ring_buffer st') \<and>
        (\<forall>mem'. ring_content ops mem' (r_ring_buffer st') = drop n (ring_content ops mem' ?rb)) \<and>
        ring_capacity ops (r_ring_buffer st') = ring_capacity ops ?rb \<and> () = p' \<and>
        r_error st' = (case out of Fail e \<Rightarrow> Some e | _ \<Rightarrow> r_error st) \<and>
        (case out of Got v \<Rightarrow> r_self st' = v | _ \<Rightarrow> True)"
    using spec c inv readable_content [OF inv, of mem]
    by (auto simp: header_parseFromRingBuffer_def header_spec_def setReadError_def cp
        header_deserialize_take header_valid_def Let_def split: if_splits)
next
  fix p c p' n d assume "header_spec p c = (p', n, More)"
  then show "n \<le> length c \<and> header_spec p (c @ d) =
      (case header_spec p' (drop n c @ d) of (p'', k, out) \<Rightarrow> (p'', n + k, out))"
    by (auto simp: header_spec_def split: if_splits)
next
  fix p c p' n v d assume "header_spec p c = (p', n, Got v)"
  then show "n \<le> length c \<and> header_spec p (take n c @ d) = (p', n, Got v)"
    by (auto simp: header_spec_def header_of_take_append split: if_splits)
next
  fix p c p' n e d assume "header_spec p c = (p', n, Fail e)"
  then show "n \<le> length c \<and> (\<exists>p'' e'. header_spec p (c @ d) = (p'', n, Fail e') \<and> err_code e' = err_code e)"
    by (auto simp: header_spec_def header_of_append split: if_splits)
qed (simp_all add: active_True)

sublocale ring_buffer \<subseteq> body: ring_reader ops ring_inv "body_parseFromRingBuffer ops"
    bd_body_len body_spec "\<lambda>mem s. take (bd_body_len s) (bd_body s)" "\<lambda>s. bd_body_len s \<le> length (bd_body s)"
proof unfold_locales
  fix st :: "('rb, BodyRead) ReadState" and mem p' n out
  let ?rb = "r_ring_buffer st"
  assume inv: "ring_inv ?rb" and room: "bd_body_len (r_self st) \<le> length (bd_body (r_self st))"
    and spec: "body_spec (bd_body_len (r_self st)) (ring_content ops mem ?rb) = (p', n, out)"
  have "n \<le> length (ring_content ops mem ?rb)"
    using spec by (auto simp: body_spec_def split: if_splits)
  note c = consume_content [OF inv this]
  note cp = copyFromIovecs_into [OF read_ok [OF inv] room, of mem 0, folded ring_content_def]
  show "\<exists>st'. body_parseFromRingBuffer ops mem st = Some (out \<noteq> More, st') \<and>
        ring_inv (r_ring_buffer st') \<and>
        (\<forall>mem'. ring_content ops mem' (r_ring_buffer st') = drop n (ring_content ops mem' ?rb)) \<and>
        ring_capacity ops (r_ring_buffer st') = ring_capacity ops ?rb \<and> bd_body_len (r_self st') = p' \<and>
        r_error st' = (case out of Fail e \<Rightarrow> Some e | _ \<Rightarrow> r_error st) \<and>
        (case out of Got v \<Rightarrow> take (bd_body_len (r_self st')) (bd_body (r_self st')) = v | _ \<Rightarrow> True)"
    using spec c inv readable_content [OF inv, of mem]
    by (auto simp: body_parseFromRingBuffer_def body_spec_def cp Let_def split: if_splits)
next
  fix mem found and st st' :: "('rb, BodyRead) ReadState"
  assume "body_parseFromRingBuffer ops mem st = Some (found, st')" "bd_body_len (r_self st) \<le> length (bd_body (r_self st))"
  then show "bd_body_len (r_self st') \<le> length (bd_body (r_self st'))"
    by (auto simp: body_parseFromRingBuffer_def Let_def bind_eq_Some_conv copyFromIovecs_length split: if_splits)
qed (auto simp: body_spec_def split: if_splits)

section \<open>The write states keep the writer contract\<close>

lemma payload_iovecs_ok:
  assumes "view_ok v"
  shows "iovs_ok (payload_iovecs v)" "iovs_nonempty (payload_iovecs v)"
    "iovs_bytes mem (payload_iovecs v) = view_bytes mem v"
  using assms by (auto simp: payload_iovecs_def view_ok_def view_bytes_def iov_ok_def iov_bytes_def)

lemma iov_Buf: "iov_ok (mk_iovec (Buf b 0) n) \<longleftrightarrow> n \<le> length b"
    "iov_bytes mem (mk_iovec (Buf b 0) n) = take n b"
  by (simp_all add: iov_ok_def iov_bytes_def)

interpretation request_writer: frame_writer "RpcRequestWriteState en" request_wire
    "\<lambda>r. view_ok (RpcRequest_payloadView r)" for en
proof unfold_locales
  fix r assume ok: "view_ok (RpcRequest_payloadView r)"
  note p = payload_iovecs_ok [OF ok]
  show "\<exists>iovs. RpcRequestWriteState en r = Some (mkWriteState iovs) \<and> iovs_ok iovs \<and> iovs_nonempty iovs \<and>
    (\<forall>mem. iovs_bytes mem iovs = request_wire mem r)"
    using p ok
    by (auto simp: RpcRequestWriteState_def Let_def header_serialize_eq host_store16_htons iov_Buf
        request_wire_def route_bytes_def frame_header_def length_view_bytes)
qed

interpretation response_writer: frame_writer "RpcResponseWriteState en" response_wire
    "\<lambda>r. view_ok (RpcResponse_payloadView r)" for en
proof unfold_locales
  fix r assume ok: "view_ok (RpcResponse_payloadView r)"
  note p = payload_iovecs_ok [OF ok]
  show "\<exists>iovs. RpcResponseWriteState en r = Some (mkWriteState iovs) \<and> iovs_ok iovs \<and> iovs_nonempty iovs \<and>
    (\<forall>mem. iovs_bytes mem iovs = response_wire mem r)"
    using p ok
    by (auto simp: RpcResponseWriteState_def Let_def header_serialize_eq host_store16_htons iov_Buf
        response_wire_def frame_header_def length_view_bytes)
qed

section \<open>The parsers and the contiguous decoders\<close>

lemma request_value_decoded:
  "request_value mem (request_with s m p (request_header h)) =
    Some \<lparr>qf_id = h_request_id h, qf_mode = rpcDecodeCallMode (h_flags h), qf_end = rpcIsEndStream (h_flags h),
      qf_service = s, qf_method = m, qf_payload = p\<rparr>"
  by (simp add: request_value_def request_with_def request_header_def RpcRequest_payloadView_def view_simps)

lemma response_value_decoded:
  "response_value mem (response_with c p (response_header h)) =
    Some \<lparr>pf_id = h_request_id h, pf_mode = rpcDecodeCallMode (h_flags h), pf_end = rpcIsEndStream (h_flags h),
      pf_error = errorcode_of_u16 c, pf_payload = p\<rparr>"
  by (simp add: response_value_def response_with_def response_header_def RpcResponse_payloadView_def view_simps)

lemma request_spec_decode:
  assumes "mx + 16 < 2 ^ 64"
  shows "(\<exists>n. request_spec mx c = (mx, n, Got (Some f)) \<and> messageLength en c (length c) = Some n) \<longleftrightarrow>
    (\<exists>d. decodeRequest en c (length c) = Some (Inr d) \<and> request_value mem d = Some f \<and> body_len c \<le> mx)"
proof (cases "16 \<le> length c \<and> header_valid (header_of c) \<and> h_type (header_of c) = 1 \<and>
    body_len c \<le> mx \<and> 16 + body_len c \<le> length c")
  case True
  have "size_add mx 16 = mx + 16" using assms by (simp add: size_add_def)
  then show ?thesis
    using True
    by (cases "parse_route (body_of c)")
       (auto simp: request_spec_def decodeRequest_eq messageLength_eq request_value_decoded)
next
  case False
  have "size_add mx 16 = mx + 16" using assms by (simp add: size_add_def)
  then have "snd (snd (request_spec mx c)) \<noteq> Got (Some f)"
    using False by (auto simp: request_spec_def)
  moreover have "body_len c \<le> mx \<Longrightarrow> decodeRequest en c (length c) \<noteq> Some (Inr d)" for d
    using False by (auto simp: decodeRequest_eq)
  ultimately show ?thesis by auto
qed

lemma response_spec_decode:
  assumes "mx + 16 < 2 ^ 64"
  shows "(\<exists>n. response_spec mx c = (mx, n, Got (Some f)) \<and> messageLength en c (length c) = Some n) \<longleftrightarrow>
    (\<exists>d. decodeResponse en c (length c) = Some (Inr d) \<and> response_value mem d = Some f \<and> body_len c \<le> mx)"
proof (cases "16 \<le> length c \<and> header_valid (header_of c) \<and> h_type (header_of c) = 2 \<and>
    body_len c \<le> mx \<and> 16 + body_len c \<le> length c \<and> 2 \<le> body_len c")
  case True
  have "size_add mx 16 = mx + 16" using assms by (simp add: size_add_def)
  then show ?thesis
    using True by (auto simp: response_spec_def decodeResponse_eq messageLength_eq response_value_decoded)
next
  case False
  have "size_add mx 16 = mx + 16" using assms by (simp add: size_add_def)
  then have "snd (snd (response_spec mx c)) \<noteq> Got (Some f)"
    using False by (auto simp: response_spec_def)
  moreover have "body_len c \<le> mx \<Longrightarrow> decodeResponse en c (length c) \<noteq> Some (Inr d)" for d
    using False by (auto simp: decodeResponse_eq)
  ultimately show ?thesis by auto
qed

section \<open>Properties\<close>

text \<open>C22. The zero-copy request parser and the contiguous decoder agree: over any one or two segments, it
  takes a message off exactly when the decoder accepts the same bytes laid out contiguously and the
  body is within the configured limit, with the same fields and payload; and it takes exactly that
  message's bytes.\<close>

theorem zero_copy_request_agrees:
  assumes "iovs_ok iovs" "length iovs \<le> 2" "mx + 16 < 2 ^ 64"
  shows "(\<exists>n r'. tryParseRequestMessage en mem iovs (iovecsReadableBytes iovs) mx r = Some (Inr n, r') \<and> 0 < n \<and>
            request_value mem r' = Some f \<and>
            messageLength en (iovs_bytes mem iovs) (length (iovs_bytes mem iovs)) = Some n) \<longleftrightarrow>
    (\<exists>d. decodeRequest en (iovs_bytes mem iovs) (length (iovs_bytes mem iovs)) = Some (Inr d) \<and>
       request_value mem d = Some f \<and> body_len (iovs_bytes mem iovs) \<le> mx)"
proof -
  obtain p n out where spec: "request_spec mx (iovs_bytes mem iovs) = (p, n, out)" by (metis prod_cases3)
  note z = spec_zero(1) [OF spec]
  obtain r1 where "tryParseRequestMessage en mem iovs (iovecsReadableBytes iovs) mx r =
      Some (parse_report (p, n, out), r1)"
      "case out of Got v \<Rightarrow> request_value mem r1 = v | _ \<Rightarrow> r1 = r"
    using tryParseRequestMessage_eq [OF assms(1,2), of en mem mx r] spec by auto
  then show ?thesis
    unfolding request_spec_decode [OF assms(3), of "iovs_bytes mem iovs" f en mem, symmetric] spec
    using z by (cases out) auto
qed

theorem zero_copy_request_agrees_witness:
  "\<exists>n r'. tryParseRequestMessage Little (\<lambda>_. 0)
      [mk_iovec (Buf (take 18 (frame REQUEST (rpcEncodeFlags UNARY True) 7 (route_bytes [69] [70] @ [1]))) 0) 18,
       mk_iovec (Buf (drop 18 (frame REQUEST (rpcEncodeFlags UNARY True) 7 (route_bytes [69] [70] @ [1])) @ [9]) 0) 6]
      24 RPC_MAX_BODY_SIZE RpcRequest_init = Some (Inr n, r') \<and> 0 < n \<and>
    request_value (\<lambda>_. 0) r' = Some \<lparr>qf_id = 7, qf_mode = UNARY, qf_end = True, qf_service = [69],
      qf_method = [70], qf_payload = [1]\<rparr>"
proof -
  let ?f = "frame REQUEST (rpcEncodeFlags UNARY True) 7 (route_bytes [69] [70] @ [1])"
  let ?iovs = "[mk_iovec (Buf (take 18 ?f) 0) 18, mk_iovec (Buf (drop 18 ?f @ [9]) 0) 6]"
  have ok: "iovs_ok ?iovs" by (simp add: iov_Buf)
  have bytes: "iovs_bytes (\<lambda>_. 0) ?iovs = ?f @ [9]" by (simp add: iov_Buf flip: append_assoc)
  have readable: "iovecsReadableBytes ?iovs = 24" by (simp add: iovecsReadableBytes_def)
  have "\<exists>d. decodeRequest Little (?f @ [9]) (length (?f @ [9])) = Some (Inr d) \<and>
       request_value (\<lambda>_. 0) d = Some \<lparr>qf_id = 7, qf_mode = UNARY, qf_end = True, qf_service = [69],
      qf_method = [70], qf_payload = [1]\<rparr> \<and> body_len (?f @ [9]) \<le> RPC_MAX_BODY_SIZE"
    by (simp add: decodeRequest_eq frame_simps max_body_eq parse_route_bytes request_value_decoded)
  moreover have "length ?iovs \<le> 2" "RPC_MAX_BODY_SIZE + 16 < 2 ^ 64" by (simp_all add: max_body_eq)
  ultimately show ?thesis
    using iffD2 [OF zero_copy_request_agrees [OF ok, of RPC_MAX_BODY_SIZE Little "\<lambda>_. 0" RpcRequest_init,
        unfolded bytes readable]] by blast
qed

text \<open>The zero-copy response parser and the contiguous decoder agree in the same way.\<close>

lemma zero_copy_response_agrees:
  assumes "iovs_ok iovs" "length iovs \<le> 2" "mx + 16 < 2 ^ 64"
  shows "(\<exists>n r'. tryParseResponseMessage en mem iovs (iovecsReadableBytes iovs) mx r = Some (Inr n, r') \<and> 0 < n \<and>
            response_value mem r' = Some f \<and>
            messageLength en (iovs_bytes mem iovs) (length (iovs_bytes mem iovs)) = Some n) \<longleftrightarrow>
    (\<exists>d. decodeResponse en (iovs_bytes mem iovs) (length (iovs_bytes mem iovs)) = Some (Inr d) \<and>
       response_value mem d = Some f \<and> body_len (iovs_bytes mem iovs) \<le> mx)"
proof -
  obtain p n out where spec: "response_spec mx (iovs_bytes mem iovs) = (p, n, out)" by (metis prod_cases3)
  note z = spec_zero(2) [OF spec]
  obtain r1 where "tryParseResponseMessage en mem iovs (iovecsReadableBytes iovs) mx r =
      Some (parse_report (p, n, out), r1)"
      "case out of Got v \<Rightarrow> response_value mem r1 = v | _ \<Rightarrow> r1 = r"
    using tryParseResponseMessage_eq [OF assms(1,2), of en mem mx r] spec by auto
  then show ?thesis
    unfolding response_spec_decode [OF assms(3), of "iovs_bytes mem iovs" f en mem, symmetric] spec
    using z by (cases out) auto
qed

text \<open>C23. A gather write sends exactly what the contiguous serialiser produces. Under any schedule of
  partial writes and failures, the bytes on the wire are always a prefix of the serialised request,
  a write that reports success has sent all of it, and a schedule without failures that is long
  enough does report success.\<close>

theorem request_gather_write:
  assumes "view_ok (RpcRequest_payloadView r)"
  shows "\<exists>b. RpcRequest_serialize en mem r = Some b \<and>
    (\<exists>j. sent (send_run sf evs mem (RpcRequestWriteState en r) out) = Some (out @ take j b)) \<and>
    (succeeded (send_run sf evs mem (RpcRequestWriteState en r) out) \<longrightarrow>
       sent (send_run sf evs mem (RpcRequestWriteState en r) out) = Some (out @ b)) \<and>
    (delivers evs \<and> length b \<le> length evs \<longrightarrow>
       (\<exists>m'. send_run sf evs mem (RpcRequestWriteState en r) out = Finished (Inr True) mem m' (out @ b)))"
  using request_writer.send_prefix [OF assms, of sf evs mem en out]
    request_writer.send_success_exact [OF assms, of sf evs mem en out]
    request_writer.send_completes [OF assms, of evs mem sf en out] request_serialize_eq [OF assms]
  by auto

theorem request_gather_write_witness:
  "\<exists>b. RpcRequest_serialize Little (\<lambda>_. 0) (mkRpcRequest 1 [69] [70]) = Some b \<and>
    (\<exists>m'. send_run \<lparr>ioe_timeout = False, ioe_disconnect = False, ioe_message = []\<rparr> (replicate 22 (Deliver 3)) (\<lambda>_. 0)
       (RpcRequestWriteState Little (mkRpcRequest 1 [69] [70])) [] = Finished (Inr True) (\<lambda>_. 0) m' b)"
proof -
  let ?r = "mkRpcRequest 1 [69] [70]" and ?sf = "\<lparr>ioe_timeout = False, ioe_disconnect = False, ioe_message = []\<rparr>"
  have ok: "view_ok (RpcRequest_payloadView ?r)"
    by (simp add: mkRpcRequest_def RpcRequest_init_def RpcRequest_payloadView_def view_simps)
  have len: "length (request_wire (\<lambda>_. 0) ?r) = 22"
    by (simp add: request_wire_frame mkRpcRequest_def RpcRequest_init_def RpcRequest_payloadView_def view_simps)
  have "delivers (replicate 22 (Deliver 3))" by (simp add: delivers_def)
  then show ?thesis
    using request_gather_write [OF ok, of Little "\<lambda>_. 0" ?sf "replicate 22 (Deliver 3)" "[]"] len
      request_serialize_eq [OF ok, of Little "\<lambda>_. 0"] by auto
qed

end
