(* ===== verification/Rpc_Ring.thy ===== *)
theory Rpc_Ring
  imports Rpc_Conn
begin

text \<open>
  A circular buffer that keeps the \<open>ring_buffer\<close> contract. The program uses galay-kernel's
  \<^verbatim>\<open>RingBuffer\<close>, whose source is not part of this repository; this one shows that the contract can be
  met, at every capacity and with messages wrapping around the end of the storage, and the concrete
  runs of the other theories use it.
\<close>

record circ =
  c_base :: addr
  c_cap :: nat
  c_head :: nat
  c_size :: nat

definition circ_inv :: "circ \<Rightarrow> bool" where
  "circ_inv rb \<longleftrightarrow> c_head rb < c_cap rb \<and> c_size rb \<le> c_cap rb"

definition circ_segments :: "addr \<Rightarrow> nat \<Rightarrow> nat \<Rightarrow> nat \<Rightarrow> iovec list" where
  "circ_segments base cap start len =
     (if len = 0 then []
      else if start + len \<le> cap then [mk_iovec (Mem (base + start) len) len]
      else [mk_iovec (Mem (base + start) (cap - start)) (cap - start),
            mk_iovec (Mem base (len - (cap - start))) (len - (cap - start))])"

definition circ_read :: "circ \<Rightarrow> iovec list" where
  "circ_read rb = circ_segments (c_base rb) (c_cap rb) (c_head rb) (c_size rb)"

definition circ_write :: "circ \<Rightarrow> iovec list" where
  "circ_write rb = circ_segments (c_base rb) (c_cap rb) ((c_head rb + c_size rb) mod c_cap rb) (c_cap rb - c_size rb)"

definition circ_ops :: "circ ring_ops" where
  "circ_ops = \<lparr>rb_readable = c_size, rb_getReadIovecs = circ_read, rb_getWriteIovecs = circ_write,
     rb_consume = (\<lambda>rb n. rb\<lparr>c_head := (c_head rb + n) mod c_cap rb, c_size := c_size rb - n\<rparr>),
     rb_produce = (\<lambda>rb n. rb\<lparr>c_size := c_size rb + n\<rparr>)\<rparr>"

definition mk_circ :: "nat \<Rightarrow> circ" where
  "mk_circ n = \<lparr>c_base = 0, c_cap = n, c_head = 0, c_size = 0\<rparr>"

text \<open>A failure value for concrete runs in which nothing fails.\<close>

definition no_error :: IOError where
  "no_error = \<lparr>ioe_timeout = False, ioe_disconnect = False, ioe_message = []\<rparr>"

lemma circ_ops_sel [simp]: "rb_readable circ_ops = c_size" "rb_getReadIovecs circ_ops = circ_read"
    "rb_getWriteIovecs circ_ops = circ_write"
    "rb_consume circ_ops rb n = rb\<lparr>c_head := (c_head rb + n) mod c_cap rb, c_size := c_size rb - n\<rparr>"
    "rb_produce circ_ops rb n = rb\<lparr>c_size := c_size rb + n\<rparr>"
  by (simp_all add: circ_ops_def)

lemma upt_shift: "[a..<a + n] = map (\<lambda>i. a + i) [0..<n]"
  by (induction n) auto

lemma circ_addrs:
  assumes "start < cap" "len \<le> cap"
  shows "iovs_addrs (circ_segments base cap start len) = map (\<lambda>i. base + (start + i) mod cap) [0..<len]"
proof (rule nth_equalityI)
  show "length (iovs_addrs (circ_segments base cap start len)) =
      length (map (\<lambda>i. base + (start + i) mod cap) [0..<len])"
    using assms by (auto simp: circ_segments_def iovs_addrs_def)
next
  fix i assume "i < length (iovs_addrs (circ_segments base cap start len))"
  then have i: "i < len" using assms by (auto simp: circ_segments_def iovs_addrs_def split: if_splits)
  have "(start + i) mod cap = (if start + i < cap then start + i else start + i - cap)"
    using assms i by (simp add: mod_if)
  then show "iovs_addrs (circ_segments base cap start len) ! i = map (\<lambda>i. base + (start + i) mod cap) [0..<len] ! i"
    using assms i by (auto simp: circ_segments_def iovs_addrs_def nth_append)
qed

lemma circ_segments_memory: "in_memory (circ_segments base cap start len)" "length (circ_segments base cap start len) \<le> 2"
  by (auto simp: circ_segments_def in_memory_def)

lemma circ_read_addrs: "circ_inv rb \<Longrightarrow>
    iovs_addrs (circ_read rb) = map (\<lambda>i. c_base rb + (c_head rb + i) mod c_cap rb) [0..<c_size rb]"
  by (simp add: circ_read_def circ_inv_def circ_addrs)

lemma circ_write_addrs:
  assumes "circ_inv rb"
  shows "iovs_addrs (circ_write rb) =
    map (\<lambda>i. c_base rb + (c_head rb + i) mod c_cap rb) [c_size rb..<c_cap rb]"
proof -
  have cap: "(c_head rb + c_size rb) mod c_cap rb < c_cap rb" using assms by (auto simp: circ_inv_def)
  have "[c_size rb..<c_cap rb] = map (\<lambda>i. c_size rb + i) [0..<c_cap rb - c_size rb]"
    using upt_shift [of "c_size rb" "c_cap rb - c_size rb"] assms by (simp add: circ_inv_def)
  then show ?thesis
    using cap by (simp add: circ_write_def circ_addrs mod_add_left_eq add.assoc)
qed

lemma circ_all_distinct:
  assumes "circ_inv rb"
  shows "distinct (map (\<lambda>i. c_base rb + (c_head rb + i) mod c_cap rb) [0..<c_cap rb])"
proof -
  have "inj_on (\<lambda>i. c_base rb + (c_head rb + i) mod c_cap rb) {0..<c_cap rb}"
  proof (rule inj_onI)
    fix i j assume ij: "i \<in> {0..<c_cap rb}" "j \<in> {0..<c_cap rb}"
      and "c_base rb + (c_head rb + i) mod c_cap rb = c_base rb + (c_head rb + j) mod c_cap rb"
    then have "(c_head rb + i) mod c_cap rb = (c_head rb + j) mod c_cap rb" by simp
    then have "i mod c_cap rb = j mod c_cap rb" by (simp add: nat_mod_eq_iff)
    then show "i = j" using ij by simp
  qed
  then show ?thesis by (simp add: distinct_map)
qed

lemma circ_consume:
  assumes inv: "circ_inv rb" and n: "n \<le> c_size rb"
  defines "rb' \<equiv> rb_consume circ_ops rb n"
  shows "circ_inv rb'" "iovs_addrs (circ_read rb') = drop n (iovs_addrs (circ_read rb))"
    "length (iovs_addrs (circ_write rb')) = length (iovs_addrs (circ_write rb)) + n"
proof -
  show inv': "circ_inv rb'" using inv n by (auto simp: circ_inv_def rb'_def)
  have "drop n [0..<c_size rb] = map (\<lambda>i. n + i) [0..<c_size rb - n]"
    using upt_shift [of n "c_size rb - n"] n by simp
  then show "iovs_addrs (circ_read rb') = drop n (iovs_addrs (circ_read rb))"
    unfolding circ_read_addrs [OF inv] circ_read_addrs [OF inv']
    by (simp add: rb'_def drop_map mod_add_left_eq add.assoc)
  show "length (iovs_addrs (circ_write rb')) = length (iovs_addrs (circ_write rb)) + n"
    unfolding circ_write_addrs [OF inv] circ_write_addrs [OF inv']
    using inv n by (simp add: rb'_def circ_inv_def)
qed

lemma circ_produce:
  assumes inv: "circ_inv rb" and n: "n \<le> length (iovs_addrs (circ_write rb))"
  defines "rb' \<equiv> rb_produce circ_ops rb n"
  shows "circ_inv rb'"
    "iovs_addrs (circ_read rb') = iovs_addrs (circ_read rb) @ take n (iovs_addrs (circ_write rb))"
    "length (iovs_addrs (circ_write rb')) = length (iovs_addrs (circ_write rb)) - n"
proof -
  have n: "c_size rb + n \<le> c_cap rb"
    using n inv unfolding circ_write_addrs [OF inv] by (auto simp: circ_inv_def)
  show inv': "circ_inv rb'" using inv n by (auto simp: circ_inv_def rb'_def)
  have "[0..<c_size rb + n] = [0..<c_size rb] @ take n [c_size rb..<c_cap rb]"
    using n upt_add_eq_append [of 0 "c_size rb" n] by (simp add: take_upt)
  then show "iovs_addrs (circ_read rb') = iovs_addrs (circ_read rb) @ take n (iovs_addrs (circ_write rb))"
    unfolding circ_read_addrs [OF inv] circ_read_addrs [OF inv'] circ_write_addrs [OF inv]
    by (simp add: rb'_def take_map del: take_upt)
  show "length (iovs_addrs (circ_write rb')) = length (iovs_addrs (circ_write rb)) - n"
    unfolding circ_write_addrs [OF inv] circ_write_addrs [OF inv'] by (simp add: rb'_def)
qed

lemma circ_disjoint:
  assumes inv: "circ_inv rb"
  shows "distinct (iovs_addrs (circ_read rb) @ iovs_addrs (circ_write rb))"
proof -
  have "[0..<c_size rb] @ [c_size rb..<c_cap rb] = [0..<c_cap rb]"
    using inv upt_add_eq_append [of 0 "c_size rb" "c_cap rb - c_size rb"] by (simp add: circ_inv_def)
  then show ?thesis
    using circ_all_distinct [OF inv]
    unfolding circ_read_addrs [OF inv] circ_write_addrs [OF inv] map_append [symmetric] by simp
qed

interpretation circ: ring_buffer circ_ops circ_inv
proof unfold_locales
  fix rb n assume inv: "circ_inv rb"
  show "length (rb_getReadIovecs circ_ops rb) \<le> 2" "in_memory (rb_getReadIovecs circ_ops rb)"
    "in_memory (rb_getWriteIovecs circ_ops rb)"
    by (simp_all add: circ_read_def circ_write_def circ_segments_memory)
  then show "rb_readable circ_ops rb = iovecsReadableBytes (rb_getReadIovecs circ_ops rb)"
    using inv by (simp add: in_memory_readable circ_read_addrs)
  show "distinct (iovs_addrs (rb_getReadIovecs circ_ops rb) @ iovs_addrs (rb_getWriteIovecs circ_ops rb))"
    unfolding circ_ops_sel by (rule circ_disjoint [OF inv])
  show "circ_inv (rb_consume circ_ops rb n) \<and>
      iovs_addrs (rb_getReadIovecs circ_ops (rb_consume circ_ops rb n)) = drop n (iovs_addrs (rb_getReadIovecs circ_ops rb)) \<and>
      length (iovs_addrs (rb_getWriteIovecs circ_ops (rb_consume circ_ops rb n))) =
        length (iovs_addrs (rb_getWriteIovecs circ_ops rb)) + n" if "n \<le> rb_readable circ_ops rb"
    using circ_consume [OF inv, of n] that unfolding circ_ops_sel(1-3) by blast
  show "circ_inv (rb_produce circ_ops rb n) \<and>
      iovs_addrs (rb_getReadIovecs circ_ops (rb_produce circ_ops rb n)) =
        iovs_addrs (rb_getReadIovecs circ_ops rb) @ take n (iovs_addrs (rb_getWriteIovecs circ_ops rb)) \<and>
      length (iovs_addrs (rb_getWriteIovecs circ_ops (rb_produce circ_ops rb n))) =
        length (iovs_addrs (rb_getWriteIovecs circ_ops rb)) - n"
    if "n \<le> length (iovs_addrs (rb_getWriteIovecs circ_ops rb))"
    using circ_produce [OF inv, of n] that unfolding circ_ops_sel(2,3) by blast
qed

lemma circ_capacity: "circ_inv rb \<Longrightarrow> ring_capacity circ_ops rb = c_cap rb"
  by (simp add: ring_capacity_def ring_space_def circ_read_addrs circ_write_addrs circ_inv_def)

lemma mk_circ_inv [simp]: "circ_inv (mk_circ n) \<longleftrightarrow> 0 < n"
  by (simp add: circ_inv_def mk_circ_def)

lemma mk_circ_content [simp]: "ring_content circ_ops mem (mk_circ n) = []"
  by (simp add: ring_content_def circ_read_def circ_segments_def mk_circ_def)

lemma mk_circ_capacity [simp]: "0 < n \<Longrightarrow> ring_capacity circ_ops (mk_circ n) = n"
  by (simp add: circ_capacity) (simp add: mk_circ_def)

lemma mk_circ_space [simp]: "0 < n \<Longrightarrow> ring_space circ_ops (mk_circ n) = n"
  using circ.capacity_split [of "mk_circ n" "\<lambda>_. 0"] by simp

end
