(* ===== verification/Rpc_Transport.thy ===== *)
theory Rpc_Transport
  imports Rpc_Ring
begin

text \<open>
  One connection: what a sender's gather write puts on the wire, what the receiver's ring-buffer read
  makes of it, and both together. Throughout, the transport may cut the bytes anywhere: a schedule is
  any list of completions, each moving a positive number of bytes.
\<close>

section \<open>Messages the protocol can carry\<close>

definition request_fits :: "nat \<Rightarrow> RpcRequest \<Rightarrow> bool" where
  "request_fits mx r \<longleftrightarrow> view_ok (RpcRequest_payloadView r) \<and>
     length (rq_service_name r) < 65536 \<and> length (rq_method_name r) < 65536 \<and>
     4 + length (rq_service_name r) + length (rq_method_name r) + RpcRequest_payloadSize r \<le> min mx RPC_MAX_BODY_SIZE \<and>
     mx + 16 < 2 ^ 64"

definition response_fits :: "nat \<Rightarrow> RpcResponse \<Rightarrow> bool" where
  "response_fits mx r \<longleftrightarrow> view_ok (RpcResponse_payloadView r) \<and> errorcode_canonical (rs_error_code r) \<and>
     2 + RpcResponse_payloadSize r \<le> min mx RPC_MAX_BODY_SIZE \<and> mx + 16 < 2 ^ 64"

text \<open>The bytes of a response that shows given fields.\<close>

definition response_frame :: "response_fields \<Rightarrow> bytes" where
  "response_frame g = frame RESPONSE (rpcEncodeFlags (pf_mode g) (pf_end g)) (pf_id g)
     (be16 (errorcode_to_u16 (pf_error g)) @ pf_payload g)"

lemma response_value_wire:
  "response_value mem r = Some g \<Longrightarrow> view_ok (RpcResponse_payloadView r) \<and> response_wire mem r = response_frame g"
  by (auto simp: response_value_def response_wire_frame response_frame_def split: if_splits)

text \<open>Fields a response can carry, and a response that carries them.\<close>

definition reply_fits :: "nat \<Rightarrow> response_fields \<Rightarrow> bool" where
  "reply_fits mx g \<longleftrightarrow> errorcode_canonical (pf_error g) \<and>
     2 + length (pf_payload g) \<le> min mx RPC_MAX_BODY_SIZE \<and> mx + 16 < 2 ^ 64"

definition response_of :: "response_fields \<Rightarrow> RpcResponse" where
  "response_of g = RpcResponse_set_payload_move (pf_payload g)
     (RpcResponse_init\<lparr>rs_request_id := pf_id g, rs_call_mode := pf_mode g, rs_end_of_stream := pf_end g,
        rs_error_code := pf_error g\<rparr>)"

lemma response_of_value [simp]: "response_value mem (response_of g) = Some g"
  by (cases g) (simp add: response_of_def response_value_def RpcResponse_set_payload_move_def RpcResponse_payloadView_def view_simps)

lemma response_of_fits: "reply_fits mx g \<Longrightarrow> response_fits mx (response_of g)"
  by (simp add: reply_fits_def response_fits_def response_of_def RpcResponse_set_payload_move_def RpcResponse_payloadView_def
      RpcResponse_payloadSize_def view_simps)

lemma request_spec_wire:
  assumes "request_fits mx r"
  shows "request_spec mx (request_wire mem r @ later) = (mx, length (request_wire mem r), Got (request_value mem r))"
proof -
  let ?body = "route_bytes (rq_service_name r) (rq_method_name r) @ view_bytes mem (RpcRequest_payloadView r)"
  have len: "length ?body \<le> RPC_MAX_BODY_SIZE" "length ?body \<le> mx"
    using assms request_payload.size_is_length [of r mem] by (auto simp: request_fits_def)
  have mx: "size_add mx 16 = mx + 16" using assms by (simp add: request_fits_def size_add_def)
  have "parse_route ?body = Some (rq_service_name r, rq_method_name r, view_bytes mem (RpcRequest_payloadView r))"
    using assms by (intro parse_route_bytes) (auto simp: request_fits_def)
  then show ?thesis
    unfolding request_wire_frame request_spec_def
    using len mx assms
    by (simp only: body_of_frame body_len_frame header_of_frame length_frame length_append)
       (simp add: request_fits_def request_value_def frame_header_valid)
qed

lemma response_spec_wire:
  assumes "response_fits mx r"
  shows "response_spec mx (response_wire mem r @ later) = (mx, length (response_wire mem r), Got (response_value mem r))"
proof -
  let ?body = "be16 (errorcode_to_u16 (rs_error_code r)) @ view_bytes mem (RpcResponse_payloadView r)"
  have len: "length ?body \<le> RPC_MAX_BODY_SIZE" "length ?body \<le> mx"
    using assms response_payload.size_is_length [of r mem] by (auto simp: response_fits_def)
  have mx: "size_add mx 16 = mx + 16" using assms by (simp add: response_fits_def size_add_def)
  show ?thesis
    unfolding response_wire_frame response_spec_def
    using len mx assms
    by (simp only: body_of_frame body_len_frame header_of_frame length_frame length_append)
       (simp add: response_fits_def response_value_def frame_header_valid errorcode_canonical_def)
qed

text \<open>
  What is wrong with the message at the front of the stream, if anything: its header (INVALID_REQUEST) or,
  in a complete message with a good header, the lengths in its body (DESERIALIZATION_ERROR).
\<close>

definition malformed :: "nat \<Rightarrow> bytes \<Rightarrow> RpcErrorCode option" where
  "malformed mx c =
     (if length c < 16 then None
      else if h_magic (header_of c) \<noteq> RPC_MAGIC \<or> RPC_MAX_BODY_SIZE < body_len c \<or>
              h_type (header_of c) \<noteq> msgtype_to_u8 REQUEST \<or> size_add mx 16 < 16 + body_len c
        then Some INVALID_REQUEST
      else if 16 + body_len c \<le> length c \<and> parse_route (body_of c) = None then Some DESERIALIZATION_ERROR
      else None)"

lemma malformed_spec:
  "malformed mx c = Some code \<longleftrightarrow> (\<exists>e. request_spec mx c = (mx, 0, Fail e) \<and> err_code e = code)"
  by (auto simp: malformed_def request_spec_def header_valid_def mkRpcError_def body_len_def split: option.split)

lemma malformed_body:
  assumes "length body \<le> RPC_MAX_BODY_SIZE" "parse_route body = None"
  shows "malformed RPC_MAX_BODY_SIZE (frame REQUEST f i body @ later) = Some DESERIALIZATION_ERROR"
proof -
  have "size_add RPC_MAX_BODY_SIZE 16 = RPC_MAX_BODY_SIZE + 16" by (rule size_add_small) (simp add: max_body_eq)
  then show ?thesis
    using assms frame_header_valid [OF assms(1), of REQUEST f i]
    by (simp add: malformed_def frame_simps header_valid_def body_len_def [symmetric])
qed

lemma malformed_more:
  assumes "request_spec mx c = (p', n, More)" "malformed mx (c @ d) = Some code"
  shows "length c < 16 \<or> code = DESERIALIZATION_ERROR \<and> length c < 16 + body_len (c @ d)"
  using assms by (auto simp: malformed_def request_spec_def header_valid_def body_len_append header_of_append
      split: if_splits option.splits)
   (auto simp: body_len_def)

context ring_buffer
begin

lemma request_read:
  assumes "ring_inv (cn_ring_buffer conn)" "request_fits (max_message_size (cn_reader_setting conn)) r" "delivers evs"
    and "ring_content ops mem (cn_ring_buffer conn) @ stream = request_wire smem r @ later"
    and "length (request_wire smem r) \<le> ring_capacity ops (cn_ring_buffer conn)"
    and "length (request_wire smem r) \<le> length (ring_content ops mem (cn_ring_buffer conn)) + length evs"
  shows "\<exists>mem' m' rest. read_run ops (request_parseFromRingBuffer en ops) evs mem (getRequest conn r0) stream =
      Finished (Inr True) mem' m' rest \<and>
    request_value mem' (rqs_request (machine_self m')) = request_value smem r \<and> ring_inv (machine_ring m') \<and>
    ring_capacity ops (machine_ring m') = ring_capacity ops (cn_ring_buffer conn) \<and>
    ring_content ops mem' (machine_ring m') @ rest = later"
proof -
  let ?mx = "max_message_size (cn_reader_setting conn)" and ?c = "ring_content ops mem (cn_ring_buffer conn)"
  let ?m = "getRequest conn r0"
  have s: "request_spec ?mx (?c @ stream) = (?mx, length (request_wire smem r), Got (request_value smem r))"
    using assms(2,4) request_spec_wire by simp
  have fit: "request.fits ?mx ?c stream (ring_capacity ops (cn_ring_buffer conn))"
    using s assms(5) by (rule request.fits_got)
  have m: "reading ?m" "machine_ring ?m = cn_ring_buffer conn" "max_message_size (rqs_setting (machine_self ?m)) = ?mx"
    by (simp_all add: getRequest_machine RpcRequestReadState_def)
  show ?thesis
    using request.read_complete [of ?m evs mem stream _ "length (request_wire smem r)" "request_value smem r" en] assms s fit m
    by simp
qed

lemma response_read:
  assumes "ring_inv (cn_ring_buffer conn)" "response_fits (max_message_size (cn_reader_setting conn)) r" "delivers evs"
    and "ring_content ops mem (cn_ring_buffer conn) @ stream = response_wire smem r @ later"
    and "length (response_wire smem r) \<le> ring_capacity ops (cn_ring_buffer conn)"
    and "length (response_wire smem r) \<le> length (ring_content ops mem (cn_ring_buffer conn)) + length evs"
  shows "\<exists>mem' m' rest. read_run ops (response_parseFromRingBuffer en ops) evs mem (getResponse conn r0) stream =
      Finished (Inr True) mem' m' rest \<and>
    response_value mem' (rss_response (machine_self m')) = response_value smem r \<and> ring_inv (machine_ring m') \<and>
    ring_capacity ops (machine_ring m') = ring_capacity ops (cn_ring_buffer conn) \<and>
    ring_content ops mem' (machine_ring m') @ rest = later"
proof -
  let ?mx = "max_message_size (cn_reader_setting conn)" and ?c = "ring_content ops mem (cn_ring_buffer conn)"
  let ?m = "getResponse conn r0"
  have s: "response_spec ?mx (?c @ stream) = (?mx, length (response_wire smem r), Got (response_value smem r))"
    using assms(2,4) response_spec_wire by simp
  have fit: "response.fits ?mx ?c stream (ring_capacity ops (cn_ring_buffer conn))"
    using s assms(5) by (rule response.fits_got)
  have m: "reading ?m" "machine_ring ?m = cn_ring_buffer conn" "max_message_size (rss_setting (machine_self ?m)) = ?mx"
    by (simp_all add: getResponse_machine RpcResponseReadState_def)
  show ?thesis
    using response.read_complete [of ?m evs mem stream _ "length (response_wire smem r)" "response_value smem r" en] assms s fit m
    by simp
qed

lemma response_frame_read:
  assumes "ring_inv (cn_ring_buffer conn)" "reply_fits (max_message_size (cn_reader_setting conn)) g" "delivers evs"
    and "ring_content ops mem (cn_ring_buffer conn) @ stream = response_frame g @ later"
    and "length (response_frame g) \<le> ring_capacity ops (cn_ring_buffer conn)"
    and "length (response_frame g) \<le> length evs"
  shows "\<exists>mem' m' rest. read_run ops (response_parseFromRingBuffer en ops) evs mem (getResponse conn r0) stream =
      Finished (Inr True) mem' m' rest \<and>
    response_value mem' (rss_response (machine_self m')) = Some g \<and> ring_inv (machine_ring m') \<and>
    ring_capacity ops (machine_ring m') = ring_capacity ops (cn_ring_buffer conn) \<and>
    ring_content ops mem' (machine_ring m') @ rest = later"
proof -
  have "response_wire mem (response_of g) = response_frame g"
    using response_value_wire [OF response_of_value] by blast
  then show ?thesis
    using response_read [OF assms(1) response_of_fits [OF assms(2)] assms(3), of mem stream mem later en r0] assms(4-6) by simp
qed

text \<open>A read that meets anything but a request it can accept.\<close>

lemma request_read_overflow:
  assumes "ring_inv (cn_ring_buffer conn)" "request_fits (max_message_size (cn_reader_setting conn)) r" "delivers evs"
    and "ring_content ops mem (cn_ring_buffer conn) @ stream = request_wire smem r @ later"
    and "ring_capacity ops (cn_ring_buffer conn) < length (request_wire smem r)"
    and "ring_capacity ops (cn_ring_buffer conn) \<le> length evs"
  shows "\<exists>mem' m' rest. read_run ops (request_parseFromRingBuffer en ops) evs mem (getRequest conn r0) stream =
    Finished (Inl (mkRpcError INTERNAL_ERROR ''No writable ring buffer space'')) mem' m' rest"
proof -
  let ?mx = "max_message_size (cn_reader_setting conn)" and ?c = "ring_content ops mem (cn_ring_buffer conn)"
  let ?m = "getRequest conn r0" and ?n = "length (request_wire smem r)"
  have s: "request_spec ?mx (?c @ stream) = (?mx, ?n, Got (request_value smem r))"
    using assms(2,4) request_spec_wire by simp
  have more: "request_spec ?mx (?c @ take k stream) = (?mx, 0, More)"
    if "length (?c @ take k stream) \<le> ring_capacity ops (cn_ring_buffer conn)" for k
  proof -
    have "request_spec ?mx ((?c @ take k stream) @ drop k stream) = (?mx, ?n, Got (request_value smem r))"
      using s by simp
    then show ?thesis
    proof (rule request.got_split)
      assume "?n \<le> length (?c @ take k stream)"
      then show ?thesis using that assms(5) by linarith
    next
      fix q l assume "request_spec ?mx (?c @ take k stream) = (q, l, More)"
      then show ?thesis using request_spec_more by blast
    qed
  qed
  have m: "reading ?m" "machine_ring ?m = cn_ring_buffer conn" "max_message_size (rqs_setting (machine_self ?m)) = ?mx"
    by (simp_all add: getRequest_machine RpcRequestReadState_def)
  show ?thesis
    using request.read_overflow [of ?m evs mem stream en] more m assms arg_cong [OF assms(4), of length] by simp
qed

text \<open>A message the request parser reports, in its header or, once it is complete, in its body.\<close>

lemma request_read_malformed:
  assumes "ring_inv (cn_ring_buffer conn)" "delivers evs" "length stream \<le> length evs"
    and "malformed (max_message_size (cn_reader_setting conn)) (ring_content ops mem (cn_ring_buffer conn) @ stream) = Some code"
    and "16 \<le> ring_capacity ops (cn_ring_buffer conn)"
    and "code = DESERIALIZATION_ERROR \<longrightarrow>
      16 + body_len (ring_content ops mem (cn_ring_buffer conn) @ stream) \<le> ring_capacity ops (cn_ring_buffer conn)"
  shows "\<exists>mem' m' rest e. read_run ops (request_parseFromRingBuffer en ops) evs mem (getRequest conn r0) stream =
    Finished (Inl e) mem' m' rest \<and> err_code e = code"
proof -
  let ?mx = "max_message_size (cn_reader_setting conn)" and ?c = "ring_content ops mem (cn_ring_buffer conn)"
  let ?m = "getRequest conn r0"
  obtain e where s: "request_spec ?mx (?c @ stream) = (?mx, 0, Fail e)" "err_code e = code"
    using malformed_spec assms(4) by blast
  have fit: "request.fits ?mx ?c stream (ring_capacity ops (cn_ring_buffer conn))"
    unfolding request.fits_def
  proof (intro allI impI)
    fix k p' n assume k: "request_spec ?mx (?c @ take k stream) = (p', n, More)"
    have "?c @ stream = (?c @ take k stream) @ drop k stream" by simp
    then show "length (?c @ take k stream) - n < ring_capacity ops (cn_ring_buffer conn)"
      using malformed_more [OF k, of "drop k stream" code] assms(4-6) by fastforce
  qed
  have m: "reading ?m" "machine_ring ?m = cn_ring_buffer conn" "max_message_size (rqs_setting (machine_self ?m)) = ?mx"
    by (simp_all add: getRequest_machine RpcRequestReadState_def)
  show ?thesis
    using request.read_fails [of ?m evs mem stream ?mx 0 e en] s fit m assms by auto
qed

lemma request_read_rejects:
  assumes "ring_inv (cn_ring_buffer conn)" "delivers evs" "length stream \<le> length evs"
    and "16 \<le> length (ring_content ops mem (cn_ring_buffer conn) @ stream)" "16 \<le> ring_capacity ops (cn_ring_buffer conn)"
    and "h = header_of (ring_content ops mem (cn_ring_buffer conn) @ stream)"
    and "\<not> header_valid h \<or> h_type h \<noteq> 1 \<or>
      16 + unat (h_body_length h) > size_add (max_message_size (cn_reader_setting conn)) 16"
  shows "\<exists>mem' m' rest e. read_run ops (request_parseFromRingBuffer en ops) evs mem (getRequest conn r0) stream =
    Finished (Inl e) mem' m' rest \<and> err_code e = INVALID_REQUEST"
proof -
  have "malformed (max_message_size (cn_reader_setting conn)) (ring_content ops mem (cn_ring_buffer conn) @ stream) = Some INVALID_REQUEST"
    using assms(4,6,7) by (auto simp: malformed_def header_valid_def body_len_def)
  from request_read_malformed [OF assms(1-3) this assms(5)] show ?thesis by simp
qed

lemma request_read_closed:
  assumes "ring_inv (cn_ring_buffer conn)" "request_fits (max_message_size (cn_reader_setting conn)) r" "delivers evs"
    and "ring_content ops mem (cn_ring_buffer conn) @ stream = take k (request_wire smem r)" "k < length (request_wire smem r)"
    and "length (request_wire smem r) \<le> ring_capacity ops (cn_ring_buffer conn)" "length stream < length evs"
  shows "\<exists>mem' m' rest. read_run ops (request_parseFromRingBuffer en ops) evs mem (getRequest conn r0) stream =
    Finished (Inl (mkRpcError CONNECTION_CLOSED ''Connection closed'')) mem' m' rest"
proof -
  let ?mx = "max_message_size (cn_reader_setting conn)" and ?c = "ring_content ops mem (cn_ring_buffer conn)"
  let ?m = "getRequest conn r0" and ?w = "request_wire smem r"
  have s: "request_spec ?mx (take k ?w @ drop k ?w) = (?mx, length ?w, Got (request_value smem r))"
    using request_spec_wire [OF assms(2), of smem "[]"] by simp
  then have more: "request_spec ?mx (?c @ stream) = (?mx, 0, More)"
    by (rule request.got_split) (use assms(4,5) request_spec_more in \<open>auto\<close>)
  have "fst (request_spec ?mx c) = ?mx" for c using spec_zero(1) [of ?mx c] by (cases "request_spec ?mx c") auto
  moreover have "length (?c @ take j stream) < ring_capacity ops (cn_ring_buffer conn)" for j
    using arg_cong [OF assms(4), of length] assms(5,6) by (simp add: min_def split: if_splits)
  ultimately have fit: "request.fits ?mx ?c stream (ring_capacity ops (cn_ring_buffer conn))"
    unfolding request.fits_def using request_spec_more by fastforce
  have m: "reading ?m" "machine_ring ?m = cn_ring_buffer conn" "max_message_size (rqs_setting (machine_self ?m)) = ?mx"
    by (simp_all add: getRequest_machine RpcRequestReadState_def)
  show ?thesis
    using request.read_eof [of ?m evs mem stream ?mx 0 en] more fit m assms by simp
qed

lemma request_read_ends:
  assumes "ring_inv (cn_ring_buffer conn)" "ring_space ops (cn_ring_buffer conn) \<le> length evs"
  shows "\<exists>r mem' m' j. read_run ops (request_parseFromRingBuffer en ops) evs mem (getRequest conn r0) stream =
      Finished r mem' m' (drop j stream) \<and> j \<le> ring_space ops (cn_ring_buffer conn)"
  using request.read_terminates [of "getRequest conn r0" evs en mem stream] request_spec_more assms
  by (auto simp: getRequest_machine RpcRequestReadState_def)

lemma response_read_ends:
  assumes "ring_inv (cn_ring_buffer conn)" "ring_space ops (cn_ring_buffer conn) \<le> length evs"
  shows "\<exists>r mem' m' j. read_run ops (response_parseFromRingBuffer en ops) evs mem (getResponse conn r0) stream =
      Finished r mem' m' (drop j stream) \<and> j \<le> ring_space ops (cn_ring_buffer conn)"
  using response.read_terminates [of "getResponse conn r0" evs en mem stream] response_spec_more assms
  by (auto simp: getResponse_machine RpcResponseReadState_def)

end

section \<open>Properties\<close>

text \<open>C28. Reading a message ends, whatever arrives. The peer may send anything, without end, and the transport may
  fail, close or fragment the stream at any point: after at most as many completions as the ring has
  free bytes, the read of a request and the read of a response have a result, and neither has taken
  more from the stream than the ring had room for.\<close>

theorem message_read_terminates:
  assumes "ring_buffer ops ring_inv" "ring_inv (cn_ring_buffer conn)" "ring_space ops (cn_ring_buffer conn) \<le> length evs"
  shows "(\<exists>r mem' m' j. read_run ops (request_parseFromRingBuffer en ops) evs mem (getRequest conn r0) stream =
      Finished r mem' m' (drop j stream) \<and> j \<le> ring_space ops (cn_ring_buffer conn)) \<and>
    (\<exists>r mem' m' j. read_run ops (response_parseFromRingBuffer en ops) evs mem (getResponse conn s0) stream =
      Finished r mem' m' (drop j stream) \<and> j \<le> ring_space ops (cn_ring_buffer conn))"
  using ring_buffer.request_read_ends [OF assms] ring_buffer.response_read_ends [OF assms] by (intro conjI)

theorem message_read_terminates_witness:
  "\<exists>r mem' m' j. read_run circ_ops (request_parseFromRingBuffer Little circ_ops) (replicate 64 (Deliver 1)) (\<lambda>_. 0)
      (getRequest (mkRpcConn mk_circ RpcReaderSetting_init 64) RpcRequest_init) (replicate 1000 71) =
    Finished r mem' m' (drop j (replicate 1000 71)) \<and> j \<le> 64"
proof -
  let ?conn = "mkRpcConn mk_circ RpcReaderSetting_init 64"
  have conn: "cn_ring_buffer ?conn = mk_circ 64"
    by (simp add: mkRpcConn_def normalizeRingBufferSize_def)
  have "circ_inv (cn_ring_buffer ?conn)" "ring_space circ_ops (cn_ring_buffer ?conn) = 64"
    "ring_space circ_ops (cn_ring_buffer ?conn) \<le> length (replicate 64 (Deliver 1))"
    unfolding conn by simp_all
  from message_read_terminates [OF circ.ring_buffer_axioms this(1,3), of Little "\<lambda>_. 0" RpcRequest_init
      "replicate 1000 71"] this(2) show ?thesis by simp
qed

text \<open>C29. Sending a message ends, whatever the socket does. With as many completions as the frame has bytes, partial
  writes, empty writes and failures in any order, the send of a request and the send of a response
  have a result; it is success exactly when the whole frame is on the wire, and otherwise some
  completion was a failure and the frame is cut off.\<close>

theorem message_send_terminates:
  assumes "view_ok (RpcRequest_payloadView q)" "length (request_wire mem q) \<le> length evs"
    and "view_ok (RpcResponse_payloadView s)" "length (response_wire mem s) \<le> length evs"
  shows "(\<exists>r m' j. send_run sf evs mem (RpcRequestWriteState en q) out = Finished r mem m' (out @ take j (request_wire mem q)) \<and>
      (r = Inr True \<and> j = length (request_wire mem q) \<or>
       (\<exists>e. r = Inl e) \<and> j < length (request_wire mem q) \<and> \<not> delivers evs)) \<and>
    (\<exists>r m' j. send_run sf evs mem (RpcResponseWriteState en s) out = Finished r mem m' (out @ take j (response_wire mem s)) \<and>
      (r = Inr True \<and> j = length (response_wire mem s) \<or>
       (\<exists>e. r = Inl e) \<and> j < length (response_wire mem s) \<and> \<not> delivers evs))"
  using request_writer.send_terminates [OF assms(1,2), of sf en out] response_writer.send_terminates [OF assms(3,4), of sf en out]
  by (intro conjI)

theorem message_send_terminates_witness:
  "\<exists>r m' j. send_run \<lparr>ioe_timeout = False, ioe_disconnect = False, ioe_message = []\<rparr>
       (replicate 21 (Deliver 1) @ [Deliver 0]) (\<lambda>_. 0) (RpcRequestWriteState Little (mkRpcRequest 1 [69] [70])) [] =
     Finished r (\<lambda>_. 0) m' (take j (request_wire (\<lambda>_. 0) (mkRpcRequest 1 [69] [70])))"
proof -
  let ?r = "mkRpcRequest 1 [69] [70]" and ?s = "mkRpcResponse 1 OK"
  let ?evs = "replicate 21 (Deliver 1) @ [Deliver 0]" and ?sf = "\<lparr>ioe_timeout = False, ioe_disconnect = False, ioe_message = []\<rparr>"
  have length_evs: "length ?evs = 22" by simp
  have "view_ok (RpcRequest_payloadView ?r)" "length (request_wire (\<lambda>_. 0) ?r) = 22"
    by (simp_all add: request_wire_frame mkRpcRequest_def RpcRequest_init_def RpcRequest_payloadView_def view_simps)
  moreover have "view_ok (RpcResponse_payloadView ?s)" "length (response_wire (\<lambda>_. 0) ?s) \<le> 22"
    by (simp_all add: response_wire_frame mkRpcResponse_def RpcResponse_init_def RpcResponse_payloadView_def view_simps)
  ultimately have "\<exists>r m' j. send_run ?sf ?evs (\<lambda>_. 0) (RpcRequestWriteState Little ?r) [] =
      Finished r (\<lambda>_. 0) m' ([] @ take j (request_wire (\<lambda>_. 0) ?r))"
    using message_send_terminates [of ?r "\<lambda>_. 0" ?evs ?s ?sf Little "[]"] by (auto simp only: length_evs)
  then show ?thesis by (simp only: append_Nil)
qed

text \<open>C12. A request sent on one connection is received on the other end. The stream is what the receiver
  has not read yet, behind the bytes already in its ring; together they start with the sent request.
  Whatever the sender's partial writes and the receiver's partial reads are, the send completes with
  exactly the request's frame on the wire, the read completes, the received request shows the fields
  and payload of the sent one, and exactly its bytes are taken off: what was sent after it is still
  there for the next read.\<close>

theorem request_delivered:
  assumes "ring_buffer ops ring_inv" "ring_inv (cn_ring_buffer conn)"
    and "ring_content ops mem (cn_ring_buffer conn) @ stream = request_wire smem r @ later"
    and "request_fits (max_message_size (cn_reader_setting conn)) r"
    and "length (request_wire smem r) \<le> ring_capacity ops (cn_ring_buffer conn)"
    and "delivers wevs" "length (request_wire smem r) \<le> length wevs"
    and "delivers revs" "length (request_wire smem r) \<le> length revs"
  shows "\<exists>w mem' m' rest.
    send_run sf wevs smem (RpcRequestWriteState en r) [] = Finished (Inr True) smem w (request_wire smem r) \<and>
    read_run ops (request_parseFromRingBuffer en' ops) revs mem (getRequest conn r0) stream =
      Finished (Inr True) mem' m' rest \<and>
    request_value mem' (rqs_request (machine_self m')) = request_value smem r \<and>
    ring_inv (machine_ring m') \<and> ring_content ops mem' (machine_ring m') @ rest = later"
proof -
  have ok: "view_ok (RpcRequest_payloadView r)" using assms(4) by (simp add: request_fits_def)
  obtain w where w: "send_run sf wevs smem (RpcRequestWriteState en r) [] =
      Finished (Inr True) smem w (request_wire smem r)"
    using request_writer.send_completes [OF ok assms(6,7), of sf en "[]"] by auto
  show ?thesis
    using ring_buffer.request_read [OF assms(1,2,4,8), of mem stream smem later en' r0]
      assms w by auto
qed

theorem request_delivered_witness:
  "\<exists>w wire mem' m' rest.
    send_run \<lparr>ioe_timeout = False, ioe_disconnect = False, ioe_message = []\<rparr> (replicate 30 (Deliver 5)) (\<lambda>_. 0)
      (RpcRequestWriteState Little (mkRpcRequest 1 [69] [70])) [] = Finished (Inr True) (\<lambda>_. 0) w wire \<and>
    read_run circ_ops (request_parseFromRingBuffer Big circ_ops) (replicate 30 (Deliver 3)) (\<lambda>_. 0)
      (getRequest (mkRpcConn mk_circ RpcReaderSetting_init 40) RpcRequest_init) (wire @ [7, 7]) =
      Finished (Inr True) mem' m' rest \<and>
    request_value mem' (rqs_request (machine_self m')) = request_value (\<lambda>_. 0) (mkRpcRequest 1 [69] [70])"
proof -
  let ?r = "mkRpcRequest 1 [69] [70]" and ?conn = "mkRpcConn mk_circ RpcReaderSetting_init 40"
  have fits: "request_fits (max_message_size (cn_reader_setting ?conn)) ?r"
    by (simp add: request_fits_def mkRpcConn_def RpcReaderSetting_init_def max_body_eq mkRpcRequest_def
        RpcRequest_init_def RpcRequest_payloadView_def RpcRequest_payloadSize_def view_simps)
  have len: "length (request_wire (\<lambda>_. 0) ?r) = 22"
    by (simp add: request_wire_frame mkRpcRequest_def RpcRequest_init_def RpcRequest_payloadView_def view_simps)
  have conn: "cn_ring_buffer ?conn = mk_circ 40"
    by (simp add: mkRpcConn_def normalizeRingBufferSize_def)
  have evs: "delivers (replicate 30 (Deliver 5))" "delivers (replicate 30 (Deliver 3))"
    by (simp_all add: delivers_def)
  show ?thesis
    using request_delivered [OF circ.ring_buffer_axioms _ _ fits _ evs(1) _ evs(2),
        of "\<lambda>_. 0" "request_wire (\<lambda>_. 0) ?r @ [7, 7]" "\<lambda>_. 0" "[7, 7]" "\<lparr>ioe_timeout = False, ioe_disconnect = False, ioe_message = []\<rparr>"
          Little Big RpcRequest_init] len
    unfolding conn by auto
qed

text \<open>C18. A response sent on one connection is received on the other end, in the same sense.\<close>

theorem response_delivered:
  assumes "ring_buffer ops ring_inv" "ring_inv (cn_ring_buffer conn)"
    and "ring_content ops mem (cn_ring_buffer conn) @ stream = response_wire smem r @ later"
    and "response_fits (max_message_size (cn_reader_setting conn)) r"
    and "length (response_wire smem r) \<le> ring_capacity ops (cn_ring_buffer conn)"
    and "delivers wevs" "length (response_wire smem r) \<le> length wevs"
    and "delivers revs" "length (response_wire smem r) \<le> length revs"
  shows "\<exists>w mem' m' rest.
    send_run sf wevs smem (RpcResponseWriteState en r) [] = Finished (Inr True) smem w (response_wire smem r) \<and>
    read_run ops (response_parseFromRingBuffer en' ops) revs mem (getResponse conn r0) stream =
      Finished (Inr True) mem' m' rest \<and>
    response_value mem' (rss_response (machine_self m')) = response_value smem r \<and>
    ring_inv (machine_ring m') \<and> ring_content ops mem' (machine_ring m') @ rest = later"
proof -
  have ok: "view_ok (RpcResponse_payloadView r)" using assms(4) by (simp add: response_fits_def)
  obtain w where w: "send_run sf wevs smem (RpcResponseWriteState en r) [] =
      Finished (Inr True) smem w (response_wire smem r)"
    using response_writer.send_completes [OF ok assms(6,7), of sf en "[]"] by auto
  show ?thesis
    using ring_buffer.response_read [OF assms(1,2,4,8), of mem stream smem later en' r0]
      assms w by auto
qed

theorem response_delivered_witness:
  "\<exists>w wire mem' m' rest.
    send_run \<lparr>ioe_timeout = False, ioe_disconnect = False, ioe_message = []\<rparr> (replicate 30 (Deliver 5)) (\<lambda>_. 0)
      (RpcResponseWriteState Little (mkRpcResponse 1 METHOD_NOT_FOUND)) [] = Finished (Inr True) (\<lambda>_. 0) w wire \<and>
    read_run circ_ops (response_parseFromRingBuffer Big circ_ops) (replicate 30 (Deliver 3)) (\<lambda>_. 0)
      (getResponse (mkRpcConn mk_circ RpcReaderSetting_init 40) RpcResponse_init) (wire @ [7, 7]) =
      Finished (Inr True) mem' m' rest \<and>
    response_value mem' (rss_response (machine_self m')) = response_value (\<lambda>_. 0) (mkRpcResponse 1 METHOD_NOT_FOUND)"
proof -
  let ?r = "mkRpcResponse 1 METHOD_NOT_FOUND" and ?conn = "mkRpcConn mk_circ RpcReaderSetting_init 40"
  have fits: "response_fits (max_message_size (cn_reader_setting ?conn)) ?r"
    by (simp add: response_fits_def mkRpcConn_def RpcReaderSetting_init_def max_body_eq mkRpcResponse_def
        RpcResponse_init_def RpcResponse_payloadView_def RpcResponse_payloadSize_def view_simps
        named_errorcode_canonical named_errorcodes_def)
  have len: "length (response_wire (\<lambda>_. 0) ?r) = 18"
    by (simp add: response_wire_frame mkRpcResponse_def RpcResponse_init_def RpcResponse_payloadView_def view_simps)
  have conn: "cn_ring_buffer ?conn = mk_circ 40"
    by (simp add: mkRpcConn_def normalizeRingBufferSize_def)
  have evs: "delivers (replicate 30 (Deliver 5))" "delivers (replicate 30 (Deliver 3))"
    by (simp_all add: delivers_def)
  show ?thesis
    using response_delivered [OF circ.ring_buffer_axioms _ _ fits _ evs(1) _ evs(2),
        of "\<lambda>_. 0" "response_wire (\<lambda>_. 0) ?r @ [7, 7]" "\<lambda>_. 0" "[7, 7]" "\<lparr>ioe_timeout = False, ioe_disconnect = False, ioe_message = []\<rparr>"
          Little Big RpcResponse_init] len
    unfolding conn by auto
qed

text \<open>C33. A request larger than the receiver's ring can never be read: the ring fills up before the message
  is complete and the read ends with an internal error, for every fragmentation. With the default
  ring of 8 KB this is every request of more than 8192 bytes, although the protocol allows bodies of
  16 MB.\<close>

theorem request_larger_than_ring:
  assumes "ring_buffer ops ring_inv" "ring_inv (cn_ring_buffer conn)"
    and "request_fits (max_message_size (cn_reader_setting conn)) r" "delivers evs"
    and "ring_content ops mem (cn_ring_buffer conn) @ stream = request_wire smem r @ later"
    and "ring_capacity ops (cn_ring_buffer conn) < length (request_wire smem r)"
    and "ring_capacity ops (cn_ring_buffer conn) \<le> length evs"
  shows "\<exists>mem' m' rest. read_run ops (request_parseFromRingBuffer en ops) evs mem (getRequest conn r0) stream =
    Finished (Inl (mkRpcError INTERNAL_ERROR ''No writable ring buffer space'')) mem' m' rest"
  using ring_buffer.request_read_overflow [OF assms] .

theorem request_larger_than_ring_witness:
  "\<exists>mem' m' rest. read_run circ_ops (request_parseFromRingBuffer Little circ_ops) (replicate 8192 (Deliver 500)) (\<lambda>_. 0)
      (getRequest (mkRpcConn mk_circ RpcReaderSetting_init 0) RpcRequest_init)
      (request_wire (\<lambda>_. 0) (RpcRequest_set_payload_move (replicate 9000 1) (mkRpcRequest 1 [69] [70]))) =
    Finished (Inl (mkRpcError INTERNAL_ERROR ''No writable ring buffer space'')) mem' m' rest"
proof -
  let ?r = "RpcRequest_set_payload_move (replicate 9000 1) (mkRpcRequest 1 [69] [70])"
  let ?conn = "mkRpcConn mk_circ RpcReaderSetting_init 0"
  have conn: "cn_ring_buffer ?conn = mk_circ 8192"
    by (simp add: mkRpcConn_def normalizeRingBufferSize_def kDefaultRpcRingBufferSize_def)
  have fits: "request_fits (max_message_size (cn_reader_setting ?conn)) ?r"
    by (simp add: request_fits_def mkRpcConn_def RpcReaderSetting_init_def max_body_eq mkRpcRequest_def
        RpcRequest_set_payload_move_def RpcRequest_init_def RpcRequest_payloadView_def RpcRequest_payloadSize_def view_simps)
  have len: "length (request_wire (\<lambda>_. 0) ?r) = 9022"
    by (simp add: request_wire_frame mkRpcRequest_def RpcRequest_init_def RpcRequest_payloadView_def
        RpcRequest_set_payload_move_def view_simps)
  have "delivers (replicate 8192 (Deliver 500))" by (simp add: delivers_def)
  then show ?thesis
    using request_larger_than_ring [OF circ.ring_buffer_axioms _ fits, of "replicate 8192 (Deliver 500)" "\<lambda>_. 0"
        "request_wire (\<lambda>_. 0) ?r" "\<lambda>_. 0" "[]" Little RpcRequest_init] len
    unfolding conn by simp
qed

text \<open>C31. A stream that does not carry a request is refused as soon as its header is complete: a wrong magic
  number, a body length over 16 MB, another message type, or a body over the configured limit ends
  the read with INVALID_REQUEST, whatever follows and however it is cut.\<close>

theorem request_read_refuses:
  assumes "ring_buffer ops ring_inv" "ring_inv (cn_ring_buffer conn)" "delivers evs" "length stream \<le> length evs"
    and "16 \<le> length (ring_content ops mem (cn_ring_buffer conn) @ stream)" "16 \<le> ring_capacity ops (cn_ring_buffer conn)"
    and "h = header_of (ring_content ops mem (cn_ring_buffer conn) @ stream)"
    and "h_magic h \<noteq> RPC_MAGIC \<or> unat (h_body_length h) > RPC_MAX_BODY_SIZE \<or> h_type h \<noteq> msgtype_to_u8 REQUEST \<or>
      16 + unat (h_body_length h) > size_add (max_message_size (cn_reader_setting conn)) 16"
  shows "\<exists>mem' m' rest e. read_run ops (request_parseFromRingBuffer en ops) evs mem (getRequest conn r0) stream =
    Finished (Inl e) mem' m' rest \<and> err_code e = INVALID_REQUEST"
  using ring_buffer.request_read_rejects [OF assms(1-7), of en r0] assms(8) by (auto simp: header_valid_def)

theorem request_read_refuses_witness:
  "\<exists>mem' m' rest e. read_run circ_ops (request_parseFromRingBuffer Big circ_ops) (replicate 20 (Deliver 3)) (\<lambda>_. 0)
      (getRequest (mkRpcConn mk_circ RpcReaderSetting_init 64) RpcRequest_init) (replicate 20 71) =
    Finished (Inl e) mem' m' rest \<and> err_code e = INVALID_REQUEST"
proof -
  have conn: "cn_ring_buffer (mkRpcConn mk_circ RpcReaderSetting_init 64) = mk_circ 64"
    by (simp add: mkRpcConn_def normalizeRingBufferSize_def)
  have "h_magic (header_of (replicate 20 71)) \<noteq> RPC_MAGIC" by code_simp
  then show ?thesis
    using request_read_refuses [OF circ.ring_buffer_axioms, of "mkRpcConn mk_circ RpcReaderSetting_init 64"
        "replicate 20 (Deliver 3)" "replicate 20 71" "\<lambda>_. 0" _ Big RpcRequest_init]
    unfolding conn by (simp add: delivers_def)
qed

text \<open>C32. A peer that closes in the middle of a request is reported as such: after any proper prefix of a
  request the read ends with CONNECTION_CLOSED, never with a partial request.\<close>

theorem request_cut_off:
  assumes "ring_buffer ops ring_inv" "ring_inv (cn_ring_buffer conn)"
    and "request_fits (max_message_size (cn_reader_setting conn)) r" "delivers evs"
    and "ring_content ops mem (cn_ring_buffer conn) @ stream = take k (request_wire smem r)" "k < length (request_wire smem r)"
    and "length (request_wire smem r) \<le> ring_capacity ops (cn_ring_buffer conn)" "length stream < length evs"
  shows "\<exists>mem' m' rest. read_run ops (request_parseFromRingBuffer en ops) evs mem (getRequest conn r0) stream =
    Finished (Inl (mkRpcError CONNECTION_CLOSED ''Connection closed'')) mem' m' rest"
  using ring_buffer.request_read_closed [OF assms] .

theorem request_cut_off_witness:
  "\<exists>mem' m' rest. read_run circ_ops (request_parseFromRingBuffer Big circ_ops) (replicate 22 (Deliver 2)) (\<lambda>_. 0)
      (getRequest (mkRpcConn mk_circ RpcReaderSetting_init 64) RpcRequest_init)
      (take 21 (request_wire (\<lambda>_. 0) (mkRpcRequest 1 [69] [70]))) =
    Finished (Inl (mkRpcError CONNECTION_CLOSED ''Connection closed'')) mem' m' rest"
proof -
  let ?r = "mkRpcRequest 1 [69] [70]" and ?conn = "mkRpcConn mk_circ RpcReaderSetting_init 64"
  have fits: "request_fits (max_message_size (cn_reader_setting ?conn)) ?r"
    by (simp add: request_fits_def mkRpcConn_def RpcReaderSetting_init_def max_body_eq mkRpcRequest_def
        RpcRequest_init_def RpcRequest_payloadView_def RpcRequest_payloadSize_def view_simps)
  have len: "length (request_wire (\<lambda>_. 0) ?r) = 22"
    by (simp add: request_wire_frame mkRpcRequest_def RpcRequest_init_def RpcRequest_payloadView_def view_simps)
  have conn: "cn_ring_buffer ?conn = mk_circ 64"
    by (simp add: mkRpcConn_def normalizeRingBufferSize_def)
  show ?thesis
    using request_cut_off [OF circ.ring_buffer_axioms _ fits, of "replicate 22 (Deliver 2)" "\<lambda>_. 0"
        "take 21 (request_wire (\<lambda>_. 0) ?r)" 21 "\<lambda>_. 0" Big RpcRequest_init] len
    unfolding conn by (simp add: delivers_def)
qed

text \<open>C34. The size limit of the reader wraps around: a configured limit within 16 of SIZE_MAX becomes tiny when
  the header size is added to it, and every well-formed request is refused as too large.\<close>

theorem size_limit_wraps:
  assumes "2 ^ 64 - 16 \<le> mx" "mx < 2 ^ 64" "iovs_ok iovs" "length iovs \<le> 2"
    and "16 \<le> length (iovs_bytes mem iovs)" "header_valid (header_of (iovs_bytes mem iovs))"
    and "h_type (header_of (iovs_bytes mem iovs)) = msgtype_to_u8 REQUEST"
  shows "tryParseRequestMessage en mem iovs (iovecsReadableBytes iovs) mx r =
    Some (Inl (mkRpcError INVALID_REQUEST ''Message too large''), r)"
proof -
  have "size_add mx 16 < 16"
    using assms(1,2) by (auto simp: size_add_def mod_if)
  then have "request_spec mx (iovs_bytes mem iovs) = (mx, 0, Fail (mkRpcError INVALID_REQUEST ''Message too large''))"
    using assms(5-7) by (simp add: request_spec_def)
  then show ?thesis
    using tryParseRequestMessage_eq [OF assms(3,4), of en mem mx r] by auto
qed

theorem size_limit_wraps_witness:
  "tryParseRequestMessage Little (\<lambda>_. 0) [mk_iovec (Buf (frame REQUEST 4 1 [0, 0, 0, 0]) 0) 20] 20 (2 ^ 64 - 1) RpcRequest_init =
    Some (Inl (mkRpcError INVALID_REQUEST ''Message too large''), RpcRequest_init)"
proof -
  let ?iovs = "[mk_iovec (Buf (frame REQUEST 4 1 [0, 0, 0, 0]) 0) 20]"
  have "iovs_ok ?iovs" "iovs_bytes (\<lambda>_. 0) ?iovs = frame REQUEST 4 1 [0, 0, 0, 0]" "iovecsReadableBytes ?iovs = 20"
    by (simp_all add: iov_Buf iovecsReadableBytes_def)
  then show ?thesis
    using size_limit_wraps [of "2 ^ 64 - 1" ?iovs "\<lambda>_. 0" Little RpcRequest_init]
    by (simp add: frame_header_valid max_body_eq)
qed

end
