(* ===== verification/Rpc_Stream.thy ===== *)
theory Rpc_Stream
  imports Rpc_Transport
begin

text \<open>
  Model of \<^verbatim>\<open>src/galay-rpc/kernel/rpc_stream.h\<close>: stream messages and the stream-init request, the
  two-phase read state, the frame write states, and the stream session with its reader and writer.
  The session theorem says that what one side sends on a stream is what the other side reads, frame
  by frame and in order.
\<close>

section \<open>Stream messages\<close>

record StreamMessage =
  sm_stream_id :: u32
  sm_payload :: bytes
  sm_payload_view :: RpcPayloadView
  sm_payload_owned :: bool
  sm_is_end :: bool
  sm_msg_type :: RpcMessageType

definition StreamMessage_init :: StreamMessage where
  "StreamMessage_init = \<lparr>sm_stream_id = 0, sm_payload = [], sm_payload_view = RpcPayloadView_init,
     sm_payload_owned = True, sm_is_end = False, sm_msg_type = STREAM_DATA\<rparr>"

definition StreamMessage_set_payload :: "memory \<Rightarrow> ptr \<Rightarrow> nat \<Rightarrow> StreamMessage \<Rightarrow> StreamMessage option" where
  "StreamMessage_set_payload mem data len m = do {
     b \<leftarrow> rdp mem data len;
     Some (m\<lparr>sm_payload := b, sm_payload_owned := True, sm_payload_view := own_view b\<rparr>) }"

definition mkStreamMessage :: "memory \<Rightarrow> u32 \<Rightarrow> ptr \<Rightarrow> nat \<Rightarrow> StreamMessage option" where
  "mkStreamMessage mem stream_id data len =
     (let m = StreamMessage_init\<lparr>sm_stream_id := stream_id, sm_is_end := False\<rparr> in
      if data \<noteq> Null \<and> len > 0 then StreamMessage_set_payload mem data len m else Some m)"

definition StreamMessage_materialize :: "memory \<Rightarrow> StreamMessage \<Rightarrow> StreamMessage option" where
  "StreamMessage_materialize mem m =
     (if sm_payload_owned m then Some m
      else do {
        let sz = view_size (sm_payload_view m);
        let buf = resize (sm_payload m) sz;
        buf \<leftarrow> copy_segments mem (sm_payload_view m) buf 0;
        Some (m\<lparr>sm_payload := buf, sm_payload_view := own_view buf, sm_payload_owned := True\<rparr>) })"

definition StreamMessage_payload :: "memory \<Rightarrow> StreamMessage \<Rightarrow> (bytes \<times> StreamMessage) option" where
  "StreamMessage_payload mem m = do {
     m \<leftarrow> StreamMessage_materialize mem m;
     Some (sm_payload m, m) }"

definition StreamMessage_payloadStr :: "memory \<Rightarrow> StreamMessage \<Rightarrow> (bytes \<times> StreamMessage) option" where
  "StreamMessage_payloadStr mem m = do {
     m \<leftarrow> StreamMessage_materialize mem m;
     Some (sm_payload m, m) }"

definition StreamMessage_payloadSize :: "StreamMessage \<Rightarrow> nat" where
  "StreamMessage_payloadSize m =
     (if sm_payload_owned m then length (sm_payload m) else view_size (sm_payload_view m))"

definition StreamMessage_payloadView :: "StreamMessage \<Rightarrow> RpcPayloadView" where
  "StreamMessage_payloadView m =
     (if sm_payload_owned m then own_view (sm_payload m) else sm_payload_view m)"

text \<open>\<^verbatim>\<open>memcmp\<close> of the first \<open>n\<close> bytes behind a pointer with a slice of the expected string.\<close>

definition memcmp_equal :: "memory \<Rightarrow> ptr \<Rightarrow> nat \<Rightarrow> bytes \<Rightarrow> nat \<Rightarrow> bool option" where
  "memcmp_equal mem p n expected off = do {
     a \<leftarrow> rdp mem p n;
     b \<leftarrow> rd expected off n;
     Some (a = b) }"

definition payloadEquals :: "memory \<Rightarrow> bytes \<Rightarrow> StreamMessage \<Rightarrow> bool option" where
  "payloadEquals mem expected m = (
     let view = StreamMessage_payloadView m in
     if view_size view \<noteq> length expected then Some False
     else do {
       eq1 \<leftarrow> (if segment1_len view > 0
          then memcmp_equal mem (segment1 view) (segment1_len view) expected 0 else Some True);
       if \<not> eq1 then Some False
       else do {
         eq2 \<leftarrow> (if segment2_len view > 0
            then memcmp_equal mem (segment2 view) (segment2_len view) expected (segment1_len view) else Some True);
         Some eq2 } })"

definition StreamMessage_set_payload_string :: "bytes \<Rightarrow> StreamMessage \<Rightarrow> StreamMessage" where
  "StreamMessage_set_payload_string data m =
     m\<lparr>sm_payload := data, sm_payload_owned := True, sm_payload_view := own_view data\<rparr>"

definition StreamMessage_set_payloadView :: "RpcPayloadView \<Rightarrow> StreamMessage \<Rightarrow> StreamMessage" where
  "StreamMessage_set_payloadView v m =
     m\<lparr>sm_payload := [], sm_payload_view := v, sm_payload_owned := False\<rparr>"

definition StreamMessage_serialize :: "endian \<Rightarrow> memory \<Rightarrow> RpcMessageType \<Rightarrow> StreamMessage \<Rightarrow> bytes option" where
  "StreamMessage_serialize en mem type m = (
     let payload_view = StreamMessage_payloadView m;
         body_size = view_size payload_view;
         buffer = replicate (RPC_HEADER_SIZE + body_size) 0;
         header = RpcHeader_init
           \<lparr>h_type := msgtype_to_u8 type,
            h_request_id := sm_stream_id m,
            h_body_length := word_of_nat body_size\<rparr>
     in do {
       b \<leftarrow> RpcHeader_serialize en header buffer;
       copy_segments mem payload_view b RPC_HEADER_SIZE })"

definition StreamMessage_deserializeBody ::
  "memory \<Rightarrow> ptr \<Rightarrow> nat \<Rightarrow> StreamMessage \<Rightarrow> (bool \<times> StreamMessage) option" where
  "StreamMessage_deserializeBody mem body len m =
     (if len > 0
      then do { m \<leftarrow> StreamMessage_set_payload mem body len m; Some (True, m) }
      else Some (True, m\<lparr>sm_payload := [], sm_payload_view := RpcPayloadView_init, sm_payload_owned := True\<rparr>))"

interpretation stream_payload: payload_carrier sm_payload_owned sm_payload sm_payload_view
  StreamMessage_payloadSize StreamMessage_payloadView StreamMessage_materialize
  StreamMessage_set_payload_string StreamMessage_set_payloadView
  by unfold_locales (auto simp: StreamMessage_payloadSize_def StreamMessage_payloadView_def
      StreamMessage_materialize_def StreamMessage_set_payload_string_def StreamMessage_set_payloadView_def
      copy_segments_resize)

section \<open>The stream-init request\<close>

record StreamInitRequest =
  si_stream_id :: u32
  si_service_name :: bytes
  si_method_name :: bytes

definition mkStreamInitRequest :: "u32 \<Rightarrow> bytes \<Rightarrow> bytes \<Rightarrow> StreamInitRequest" where
  "mkStreamInitRequest stream_id service method =
     \<lparr>si_stream_id = stream_id, si_service_name = service, si_method_name = method\<rparr>"

definition StreamInitRequest_serialize :: "endian \<Rightarrow> StreamInitRequest \<Rightarrow> bytes option" where
  "StreamInitRequest_serialize en r = (
     let ns = length (si_service_name r);
         nm = length (si_method_name r);
         body_size = 2 + ns + 2 + nm;
         buffer = replicate (RPC_HEADER_SIZE + body_size) 0;
         header = RpcHeader_init
           \<lparr>h_type := msgtype_to_u8 STREAM_INIT,
            h_request_id := si_stream_id r,
            h_body_length := word_of_nat body_size\<rparr>;
         service_len = rpcHtons en (word_of_nat ns);
         method_len = rpcHtons en (word_of_nat nm)
     in do {
       b \<leftarrow> RpcHeader_serialize en header buffer;
       let offset = RPC_HEADER_SIZE;
       b \<leftarrow> wr b offset (host_store16 en service_len);
       let offset = offset + 2;
       b \<leftarrow> wr b offset (si_service_name r);
       let offset = offset + ns;
       b \<leftarrow> wr b offset (host_store16 en method_len);
       let offset = offset + 2;
       wr b offset (si_method_name r) })"

definition StreamInitRequest_deserializeBody ::
  "endian \<Rightarrow> StreamInitRequest \<Rightarrow> bytes \<Rightarrow> nat \<Rightarrow> (bool \<times> StreamInitRequest) option" where
  "StreamInitRequest_deserializeBody en r body len =
     (if len < 4 then Some (False, r)
      else do {
        let offset = 0;
        sl \<leftarrow> rd body offset 2;
        let service_len = unat (rpcNtohs en (host_load16 en sl));
        let offset = offset + 2;
        if offset + service_len > len then Some (False, r)
        else do {
          sname \<leftarrow> rd body offset service_len;
          let r = r\<lparr>si_service_name := sname\<rparr>;
          let offset = offset + service_len;
          if offset + 2 > len then Some (False, r)
          else do {
            ml \<leftarrow> rd body offset 2;
            let method_len = unat (rpcNtohs en (host_load16 en ml));
            let offset = offset + 2;
            if offset + method_len > len then Some (False, r)
            else do {
              mname \<leftarrow> rd body offset method_len;
              Some (True, r\<lparr>si_method_name := mname\<rparr>) } } } })"

section \<open>Reading a stream message\<close>

datatype StreamReadPhase = ReadHeader | ReadBody

record StreamRead =
  sr_message :: StreamMessage
  sr_state :: StreamReadPhase
  sr_header :: RpcHeader
  sr_body_length :: nat

definition StreamMessageReadState :: "'rb \<Rightarrow> StreamMessage \<Rightarrow> ('rb, StreamRead) ReadState" where
  "StreamMessageReadState rb message = mkReadState rb
     \<lparr>sr_message = message, sr_state = ReadHeader, sr_header = RpcHeader_init, sr_body_length = 0\<rparr>"

text \<open>
  \<^verbatim>\<open>parseFromRingBuffer\<close> is its two blocks in sequence: the header block either returns (\<open>Some b\<close>) or
  falls through to the body block (\<open>None\<close>).
\<close>

definition stream_parse_header ::
  "endian \<Rightarrow> 'rb ring_ops \<Rightarrow> memory \<Rightarrow> ('rb, StreamRead) ReadState \<Rightarrow>
   (bool option \<times> ('rb, StreamRead) ReadState) option" where
  "stream_parse_header en ops mem st = (
     let rb = r_ring_buffer st;
         read_iovecs = rb_getReadIovecs ops rb;
         total_readable = iovecsReadableBytes read_iovecs
     in
     if total_readable < RPC_HEADER_SIZE then Some (Some False, st)
     else do {
       (_, header_buf) \<leftarrow> copyFromIovecs mem read_iovecs 0 (replicate RPC_HEADER_SIZE 0) RPC_HEADER_SIZE;
       (ok, header) \<leftarrow> RpcHeader_deserialize en (sr_header (r_self st)) header_buf;
       let st = st\<lparr>r_self := (r_self st)\<lparr>sr_header := header\<rparr>\<rparr>;
       if \<not> ok
       then Some (Some True, setReadError (mkRpcError INVALID_REQUEST ''Invalid header'') st)
       else do {
         let rb = rb_consume ops rb RPC_HEADER_SIZE;
         let msg_type = msgtype_of_u8 (h_type header);
         let message = (sr_message (r_self st))\<lparr>sm_stream_id := h_request_id header, sm_msg_type := msg_type\<rparr>;
         let self = (r_self st)\<lparr>sr_body_length := unat (h_body_length header), sr_message := message\<rparr>;
         let st = st\<lparr>r_ring_buffer := rb, r_self := self\<rparr>;
         if msg_type = STREAM_END \<or> msg_type = STREAM_CANCEL
         then Some (Some True, st\<lparr>r_self := self\<lparr>
                sr_message := StreamMessage_set_payloadView RpcPayloadView_init (message\<lparr>sm_is_end := True\<rparr>),
                sr_state := ReadHeader\<rparr>\<rparr>)
         else if sr_body_length self = 0
         then Some (Some True, st\<lparr>r_self := self\<lparr>
                sr_message := StreamMessage_set_payloadView RpcPayloadView_init message,
                sr_state := ReadHeader\<rparr>\<rparr>)
         else Some (None, st\<lparr>r_self := self\<lparr>sr_state := ReadBody\<rparr>\<rparr>) } })"

definition stream_parse_body ::
  "'rb ring_ops \<Rightarrow> ('rb, StreamRead) ReadState \<Rightarrow> (bool \<times> ('rb, StreamRead) ReadState) option" where
  "stream_parse_body ops st = (
     let rb = r_ring_buffer st;
         read_iovecs = rb_getReadIovecs ops rb;
         self = r_self st
     in
     if iovecsReadableBytes read_iovecs < sr_body_length self then Some (False, st)
     else
       let (ok, payload_view) = payloadViewFromIovecs read_iovecs 0 (sr_body_length self) in
       if \<not> ok
       then Some (True, setReadError (mkRpcError DESERIALIZATION_ERROR ''Invalid stream payload view'') st)
       else Some (True, st\<lparr>r_ring_buffer := rb_consume ops rb (sr_body_length self),
              r_self := self\<lparr>sr_message := StreamMessage_set_payloadView payload_view (sr_message self),
                             sr_state := ReadHeader\<rparr>\<rparr>))"

definition stream_parseFromRingBuffer :: "endian \<Rightarrow> 'rb ring_ops \<Rightarrow> ('rb, StreamRead) parser" where
  "stream_parseFromRingBuffer en ops mem st = do {
     (ret, st) \<leftarrow> (if sr_state (r_self st) = ReadHeader then stream_parse_header en ops mem st
                    else Some (None, st));
     case ret of
       Some b \<Rightarrow> Some (b, st)
     | None \<Rightarrow> if sr_state (r_self st) = ReadBody then stream_parse_body ops st else Some (False, st) }"

section \<open>Writing a stream frame\<close>

definition StreamFrameWriteState_control :: "endian \<Rightarrow> u32 \<Rightarrow> RpcMessageType \<Rightarrow> WriteState option" where
  "StreamFrameWriteState_control en stream_id type = do {
     m_header \<leftarrow> RpcHeader_serialize en (RpcHeader_init
       \<lparr>h_type := msgtype_to_u8 type, h_request_id := stream_id, h_body_length := 0\<rparr>)
       (replicate RPC_HEADER_SIZE 0);
     Some (mkWriteState [mk_iovec (Buf m_header 0) RPC_HEADER_SIZE]) }"

definition buildDataFrame :: "endian \<Rightarrow> u32 \<Rightarrow> RpcPayloadView \<Rightarrow> WriteState option" where
  "buildDataFrame en stream_id payload_view = do {
     m_header \<leftarrow> RpcHeader_serialize en (RpcHeader_init
       \<lparr>h_type := msgtype_to_u8 STREAM_DATA, h_request_id := stream_id,
        h_body_length := word_of_nat (view_size payload_view)\<rparr>)
       (replicate RPC_HEADER_SIZE 0);
     Some (mkWriteState (mk_iovec (Buf m_header 0) RPC_HEADER_SIZE # payload_iovecs payload_view)) }"

definition frame_payloadView :: "bytes \<Rightarrow> RpcPayloadView" where
  "frame_payloadView owned_payload =
     (if owned_payload = [] then RpcPayloadView_init else own_view owned_payload)"

definition StreamFrameWriteState_copy :: "endian \<Rightarrow> memory \<Rightarrow> u32 \<Rightarrow> ptr \<Rightarrow> nat \<Rightarrow> WriteState option" where
  "StreamFrameWriteState_copy en mem stream_id data len = do {
     owned_payload \<leftarrow> (if len > 0 then rdp mem data len else Some []);
     buildDataFrame en stream_id (frame_payloadView owned_payload) }"

definition StreamFrameWriteState_view :: "endian \<Rightarrow> u32 \<Rightarrow> RpcPayloadView \<Rightarrow> WriteState option" where
  "StreamFrameWriteState_view en stream_id payload_view = buildDataFrame en stream_id payload_view"

definition StreamFrameWriteState_init :: "endian \<Rightarrow> u32 \<Rightarrow> bytes \<Rightarrow> bytes \<Rightarrow> WriteState option" where
  "StreamFrameWriteState_init en stream_id service method = (
     let body_size = 2 + length service + 2 + length method;
         header = RpcHeader_init
           \<lparr>h_type := msgtype_to_u8 STREAM_INIT,
            h_request_id := stream_id,
            h_body_length := word_of_nat body_size\<rparr>;
         m_service_len = host_store16 en (rpcHtons en (word_of_nat (length service)));
         m_method_len = host_store16 en (rpcHtons en (word_of_nat (length method)))
     in do {
       m_header \<leftarrow> RpcHeader_serialize en header (replicate RPC_HEADER_SIZE 0);
       Some (mkWriteState (
         [mk_iovec (Buf m_header 0) RPC_HEADER_SIZE, mk_iovec (Buf m_service_len 0) 2] @
         (if service \<noteq> [] then [mk_iovec (Buf service 0) (length service)] else []) @
         [mk_iovec (Buf m_method_len 0) 2] @
         (if method \<noteq> [] then [mk_iovec (Buf method 0) (length method)] else []))) })"

section \<open>The session\<close>

text \<open>
  The members of \<^verbatim>\<open>RpcStreamImpl\<close>: its own stream id, the route, and the ids and buffers its reader
  and writer were constructed with.
\<close>

record 'rb RpcStream =
  rst_ring_buffer :: 'rb
  rst_stream_id :: u32
  rst_service_name :: bytes
  rst_method_name :: bytes
  rst_writer_stream_id :: u32

definition mkRpcStream :: "'rb \<Rightarrow> u32 \<Rightarrow> bytes \<Rightarrow> bytes \<Rightarrow> 'rb RpcStream" where
  "mkRpcStream rb stream_id service_name method_name =
     \<lparr>rst_ring_buffer = rb, rst_stream_id = stream_id, rst_service_name = service_name,
      rst_method_name = method_name, rst_writer_stream_id = stream_id\<rparr>"

definition RpcStream_set_streamId :: "u32 \<Rightarrow> 'rb RpcStream \<Rightarrow> 'rb RpcStream" where
  "RpcStream_set_streamId stream_id s = s\<lparr>rst_stream_id := stream_id, rst_writer_stream_id := stream_id\<rparr>"

definition setRoute :: "bytes \<Rightarrow> bytes \<Rightarrow> 'rb RpcStream \<Rightarrow> 'rb RpcStream" where
  "setRoute service_name method_name s = s\<lparr>rst_service_name := service_name, rst_method_name := method_name\<rparr>"

definition GetStreamMessageAwaitable :: "'rb \<Rightarrow> StreamMessage \<Rightarrow> ('rb, StreamRead) ReadMachine" where
  "GetStreamMessageAwaitable rb msg = RpcRingBufferReadMachine (StreamMessageReadState rb msg)"

definition getMessage :: "'rb \<Rightarrow> StreamMessage \<Rightarrow> ('rb, StreamRead) ReadMachine" where
  "getMessage rb msg = GetStreamMessageAwaitable rb msg"

lemmas getMessage_machine = getMessage_def GetStreamMessageAwaitable_def

definition stream_read :: "'rb RpcStream \<Rightarrow> StreamMessage \<Rightarrow> ('rb, StreamRead) ReadMachine" where
  "stream_read s msg = getMessage (rst_ring_buffer s) msg"

definition sendInit :: "endian \<Rightarrow> 'rb RpcStream \<Rightarrow> WriteState option" where
  "sendInit en s = StreamFrameWriteState_init en (rst_writer_stream_id s) (rst_service_name s) (rst_method_name s)"

definition sendInit_route :: "endian \<Rightarrow> bytes \<Rightarrow> bytes \<Rightarrow> 'rb RpcStream \<Rightarrow> WriteState option \<times> 'rb RpcStream" where
  "sendInit_route en service method s =
     (let s = s\<lparr>rst_service_name := service, rst_method_name := method\<rparr>
      in (StreamFrameWriteState_init en (rst_writer_stream_id s) service method, s))"

definition sendInitAck :: "endian \<Rightarrow> 'rb RpcStream \<Rightarrow> WriteState option" where
  "sendInitAck en s = StreamFrameWriteState_control en (rst_writer_stream_id s) STREAM_INIT_ACK"

definition sendData :: "endian \<Rightarrow> memory \<Rightarrow> ptr \<Rightarrow> nat \<Rightarrow> 'rb RpcStream \<Rightarrow> WriteState option" where
  "sendData en mem data len s = StreamFrameWriteState_copy en mem (rst_writer_stream_id s) data len"

definition sendData_string :: "endian \<Rightarrow> memory \<Rightarrow> bytes \<Rightarrow> 'rb RpcStream \<Rightarrow> WriteState option" where
  "sendData_string en mem data s = sendData en mem (Buf data 0) (length data) s"

definition sendData_view :: "endian \<Rightarrow> RpcPayloadView \<Rightarrow> 'rb RpcStream \<Rightarrow> WriteState option" where
  "sendData_view en payload_view s = StreamFrameWriteState_view en (rst_writer_stream_id s) payload_view"

definition sendEnd :: "endian \<Rightarrow> 'rb RpcStream \<Rightarrow> WriteState option" where
  "sendEnd en s = StreamFrameWriteState_control en (rst_writer_stream_id s) STREAM_END"

definition sendCancel :: "endian \<Rightarrow> 'rb RpcStream \<Rightarrow> WriteState option" where
  "sendCancel en s = StreamFrameWriteState_control en (rst_writer_stream_id s) STREAM_CANCEL"

section \<open>What the read state computes\<close>

record stream_fields =
  sf_id :: u32
  sf_type :: RpcMessageType
  sf_end :: bool
  sf_payload :: bytes

definition stream_value :: "memory \<Rightarrow> StreamMessage \<Rightarrow> stream_fields option" where
  "stream_value mem m =
     (if view_ok (StreamMessage_payloadView m)
      then Some \<lparr>sf_id = sm_stream_id m, sf_type = sm_msg_type m, sf_end = sm_is_end m,
             sf_payload = view_bytes mem (StreamMessage_payloadView m)\<rparr>
      else None)"

text \<open>
  Where the read state is: before a header, with the end flag the message object had, or between a
  header and its body.
\<close>

datatype stream_phase = AtHeader bool | AtBody u32 RpcMessageType bool nat

definition stream_phase_of :: "StreamRead \<Rightarrow> stream_phase" where
  "stream_phase_of s =
     (case sr_state s of
        ReadHeader \<Rightarrow> AtHeader (sm_is_end (sr_message s))
      | ReadBody \<Rightarrow> AtBody (sm_stream_id (sr_message s)) (sm_msg_type (sr_message s))
          (sm_is_end (sr_message s)) (sr_body_length s))"

fun stream_spec :: "stream_phase \<Rightarrow> bytes \<Rightarrow> stream_phase \<times> nat \<times> stream_fields option parse_outcome" where
  "stream_spec (AtHeader e) c =
     (if length c < 16 then (AtHeader e, 0, More)
      else if \<not> header_valid (header_of c)
        then (AtHeader e, 0, Fail (mkRpcError INVALID_REQUEST ''Invalid header''))
      else let t = msgtype_of_u8 (h_type (header_of c)); i = h_request_id (header_of c); n = body_len c in
        if t = STREAM_END \<or> t = STREAM_CANCEL
          then (AtHeader True, 16, Got (Some \<lparr>sf_id = i, sf_type = t, sf_end = True, sf_payload = []\<rparr>))
        else if n = 0
          then (AtHeader e, 16, Got (Some \<lparr>sf_id = i, sf_type = t, sf_end = e, sf_payload = []\<rparr>))
        else if length c < 16 + n then (AtBody i t e n, 16, More)
        else (AtHeader e, 16 + n, Got (Some \<lparr>sf_id = i, sf_type = t, sf_end = e, sf_payload = take n (drop 16 c)\<rparr>)))"
| "stream_spec (AtBody i t e n) c =
     (if length c < n then (AtBody i t e n, 0, More)
      else (AtHeader e, n, Got (Some \<lparr>sf_id = i, sf_type = t, sf_end = e, sf_payload = take n c\<rparr>)))"

lemma stream_value_set_view:
  "view_ok v \<Longrightarrow> stream_value mem (StreamMessage_set_payloadView v m) =
    Some \<lparr>sf_id = sm_stream_id m, sf_type = sm_msg_type m, sf_end = sm_is_end m, sf_payload = view_bytes mem v\<rparr>"
  by (simp add: stream_value_def StreamMessage_payloadView_def StreamMessage_set_payloadView_def)

lemma set_payloadView_sel [simp]:
  "sm_stream_id (StreamMessage_set_payloadView v m) = sm_stream_id m"
  "sm_msg_type (StreamMessage_set_payloadView v m) = sm_msg_type m"
  "sm_is_end (StreamMessage_set_payloadView v m) = sm_is_end m"
  by (simp_all add: StreamMessage_set_payloadView_def)

lemma stream_spec_more:
  assumes "stream_spec p c = (p', n, More)"
  shows "n \<le> length c \<and> stream_spec p (c @ d) =
    (case stream_spec p' (drop n c @ d) of (p'', k, out) \<Rightarrow> (p'', n + k, out))"
  using assms
  by (cases p) (auto simp: Let_def append_simps split: if_splits)

lemma stream_spec_got:
  assumes "stream_spec p c = (p', n, Got v)"
  shows "n \<le> length c \<and> stream_spec p (take n c @ d) = (p', n, Got v)"
  using assms
  by (cases p) (auto simp: Let_def take_append_simps drop_take split: if_splits)

lemma stream_spec_fail:
  assumes "stream_spec p c = (p', n, Fail e)"
  shows "n \<le> length c \<and> (\<exists>p'' e'. stream_spec p (c @ d) = (p'', n, Fail e') \<and> err_code e' = err_code e)"
  using assms by (cases p) (auto simp: Let_def append_simps split: if_splits)

context ring_buffer
begin

lemma stream_parse_body_eq:
  assumes inv: "ring_inv (r_ring_buffer st)" and s: "sr_state (r_self st) = ReadBody"
    and spec: "stream_spec (stream_phase_of (r_self st)) (ring_content ops mem (r_ring_buffer st)) = (p', n, out)"
  shows "\<exists>st'. stream_parse_body ops st = Some (out \<noteq> More, st') \<and> ring_inv (r_ring_buffer st') \<and>
    (\<forall>mem'. ring_content ops mem' (r_ring_buffer st') = drop n (ring_content ops mem' (r_ring_buffer st))) \<and>
    ring_capacity ops (r_ring_buffer st') = ring_capacity ops (r_ring_buffer st) \<and>
    stream_phase_of (r_self st') = p' \<and> r_error st' = (case out of Fail e \<Rightarrow> Some e | _ \<Rightarrow> r_error st) \<and>
    (case out of Got v \<Rightarrow> stream_value mem (sr_message (r_self st')) = v | _ \<Rightarrow> True)"
proof -
  let ?rb = "r_ring_buffer st" and ?n = "sr_body_length (r_self st)"
  let ?c = "ring_content ops mem ?rb"
  have rd: "iovecsReadableBytes (rb_getReadIovecs ops ?rb) = length ?c" by (rule readable_content [OF inv])
  show ?thesis
  proof (cases "length ?c < ?n")
    case True
    then show ?thesis
      using spec s inv rd by (auto simp: stream_parse_body_def stream_phase_of_def Let_def)
  next
    case False
    obtain v where v: "payloadViewFromIovecs (rb_getReadIovecs ops ?rb) 0 ?n = (True, v)" "view_ok v"
        "view_bytes mem v = take ?n ?c"
      using payloadViewFromIovecs_ok [OF read_ok [OF inv] segments [OF inv], of 0 ?n mem] False rd
      by (auto simp: ring_content_def)
    have "?n \<le> length ?c" using False by simp
    note c = consume_content [OF inv this]
    show ?thesis
      using spec s v c rd False
      by (auto simp: stream_parse_body_def stream_phase_of_def stream_value_set_view Let_def)
  qed
qed

lemma stream_parse_header_eq:
  assumes inv: "ring_inv (r_ring_buffer st)" and s: "sr_state (r_self st) = ReadHeader"
    and c: "c = ring_content ops mem (r_ring_buffer st)"
  shows "length c < 16 \<Longrightarrow> stream_parse_header en ops mem st = Some (Some False, st)"
    and "16 \<le> length c \<Longrightarrow> \<not> header_valid (header_of c) \<Longrightarrow>
      \<exists>h. stream_parse_header en ops mem st = Some (Some True,
        setReadError (mkRpcError INVALID_REQUEST ''Invalid header'') (st\<lparr>r_self := (r_self st)\<lparr>sr_header := h\<rparr>\<rparr>))"
    and "16 \<le> length c \<Longrightarrow> header_valid (header_of c) \<Longrightarrow>
      t = msgtype_of_u8 (h_type (header_of c)) \<Longrightarrow>
      stream_parse_header en ops mem st =
        (let msg = (sr_message (r_self st))\<lparr>sm_stream_id := h_request_id (header_of c), sm_msg_type := t\<rparr>;
             self = (r_self st)\<lparr>sr_header := header_of c, sr_body_length := body_len c\<rparr>;
             st1 = st\<lparr>r_ring_buffer := rb_consume ops (r_ring_buffer st) 16\<rparr>
         in if t = STREAM_END \<or> t = STREAM_CANCEL
            then Some (Some True, st1\<lparr>r_self := self\<lparr>sr_message :=
               StreamMessage_set_payloadView RpcPayloadView_init (msg\<lparr>sm_is_end := True\<rparr>)\<rparr>\<rparr>)
            else if body_len c = 0
            then Some (Some True, st1\<lparr>r_self := self\<lparr>sr_message := StreamMessage_set_payloadView RpcPayloadView_init msg\<rparr>\<rparr>)
            else Some (None, st1\<lparr>r_self := self\<lparr>sr_message := msg, sr_state := ReadBody\<rparr>\<rparr>))"
proof -
  have rd: "iovecsReadableBytes (rb_getReadIovecs ops (r_ring_buffer st)) = length c"
    unfolding c by (rule readable_content [OF inv])
  have cp: "copyFromIovecs mem (rb_getReadIovecs ops (r_ring_buffer st)) 0 (replicate 16 0) 16 =
      Some (True, take 16 c)" if "16 \<le> length c"
    using copyFromIovecs_eq [OF read_ok [OF inv], of mem 0 16] rd c that by (simp add: ring_content_def)
  show "length c < 16 \<Longrightarrow> stream_parse_header en ops mem st = Some (Some False, st)"
    by (simp add: stream_parse_header_def rd)
  show "16 \<le> length c \<Longrightarrow> \<not> header_valid (header_of c) \<Longrightarrow>
      \<exists>h. stream_parse_header en ops mem st = Some (Some True,
        setReadError (mkRpcError INVALID_REQUEST ''Invalid header'') (st\<lparr>r_self := (r_self st)\<lparr>sr_header := h\<rparr>\<rparr>))"
    by (auto simp: stream_parse_header_def rd cp header_deserialize_take)
  have same: "(r_self st)\<lparr>sr_header := h, sr_body_length := n, sr_message := m, sr_state := ReadHeader\<rparr> =
      (r_self st)\<lparr>sr_header := h, sr_body_length := n, sr_message := m\<rparr>" for h n m
    using s by (cases "r_self st") simp
  show "stream_parse_header en ops mem st =
        (let msg = (sr_message (r_self st))\<lparr>sm_stream_id := h_request_id (header_of c), sm_msg_type := t\<rparr>;
             self = (r_self st)\<lparr>sr_header := header_of c, sr_body_length := body_len c\<rparr>;
             st1 = st\<lparr>r_ring_buffer := rb_consume ops (r_ring_buffer st) 16\<rparr>
         in if t = STREAM_END \<or> t = STREAM_CANCEL
            then Some (Some True, st1\<lparr>r_self := self\<lparr>sr_message :=
               StreamMessage_set_payloadView RpcPayloadView_init (msg\<lparr>sm_is_end := True\<rparr>)\<rparr>\<rparr>)
            else if body_len c = 0
            then Some (Some True, st1\<lparr>r_self := self\<lparr>sr_message := StreamMessage_set_payloadView RpcPayloadView_init msg\<rparr>\<rparr>)
            else Some (None, st1\<lparr>r_self := self\<lparr>sr_message := msg, sr_state := ReadBody\<rparr>\<rparr>))"
    if "16 \<le> length c" "header_valid (header_of c)" "t = msgtype_of_u8 (h_type (header_of c))"
    using that same
    by (simp add: stream_parse_header_def rd cp header_deserialize_take header_valid_def Let_def flip: body_len_def)
qed

lemma stream_parse_eq:
  assumes inv: "ring_inv (r_ring_buffer st)"
    and spec: "stream_spec (stream_phase_of (r_self st)) (ring_content ops mem (r_ring_buffer st)) = (p', n, out)"
  shows "\<exists>st'. stream_parseFromRingBuffer en ops mem st = Some (out \<noteq> More, st') \<and> ring_inv (r_ring_buffer st') \<and>
    (\<forall>mem'. ring_content ops mem' (r_ring_buffer st') = drop n (ring_content ops mem' (r_ring_buffer st))) \<and>
    ring_capacity ops (r_ring_buffer st') = ring_capacity ops (r_ring_buffer st) \<and>
    stream_phase_of (r_self st') = p' \<and> r_error st' = (case out of Fail e \<Rightarrow> Some e | _ \<Rightarrow> r_error st) \<and>
    (case out of Got v \<Rightarrow> stream_value mem (sr_message (r_self st')) = v | _ \<Rightarrow> True)"
proof (cases "sr_state (r_self st)")
  case ReadBody
  then show ?thesis
    using stream_parse_body_eq [OF inv ReadBody spec] by (simp add: stream_parseFromRingBuffer_def)
next
  case ReadHeader
  define c where "c = ring_content ops mem (r_ring_buffer st)"
  define t where "t = msgtype_of_u8 (h_type (header_of c))"
  note h = stream_parse_header_eq [OF inv ReadHeader c_def]
  have ph: "stream_phase_of (r_self st) = AtHeader (sm_is_end (sr_message (r_self st)))"
    using ReadHeader by (simp add: stream_phase_of_def)
  consider "length c < 16" | "16 \<le> length c" "\<not> header_valid (header_of c)"
    | "16 \<le> length c" "header_valid (header_of c)" "t = STREAM_END \<or> t = STREAM_CANCEL \<or> body_len c = 0"
    | "16 \<le> length c" "header_valid (header_of c)" "t \<noteq> STREAM_END" "t \<noteq> STREAM_CANCEL" "body_len c \<noteq> 0"
    by linarith
  then show ?thesis
  proof cases
    case 1
    then show ?thesis
      using h(1) [of en] spec inv ph by (auto simp: stream_parseFromRingBuffer_def ReadHeader c_def)
  next
    case 2
    then obtain hd where "stream_parse_header en ops mem st = Some (Some True,
        setReadError (mkRpcError INVALID_REQUEST ''Invalid header'') (st\<lparr>r_self := (r_self st)\<lparr>sr_header := hd\<rparr>\<rparr>))"
      using h(2) [of en] by blast
    then show ?thesis
      using 2 spec inv ph
      by (auto simp: stream_parseFromRingBuffer_def ReadHeader c_def setReadError_def stream_phase_of_def)
  next
    case 3
    note k = consume_content [OF inv, of 16 mem, folded c_def, OF 3(1)]
    show ?thesis
      using 3 h(3) [OF 3(1,2) t_def, of en] spec ph k
      by (auto simp: stream_parseFromRingBuffer_def ReadHeader c_def [symmetric] t_def [symmetric] Let_def
          stream_phase_of_def stream_value_set_view view_init split: if_splits)
  next
    case 4
    note k = consume_content [OF inv, of 16 mem, folded c_def, OF 4(1)]
    let ?msg = "(sr_message (r_self st))\<lparr>sm_stream_id := h_request_id (header_of c), sm_msg_type := t\<rparr>"
    let ?st = "st\<lparr>r_ring_buffer := rb_consume ops (r_ring_buffer st) 16, r_self := (r_self st)
       \<lparr>sr_header := header_of c, sr_body_length := body_len c, sr_message := ?msg, sr_state := ReadBody\<rparr>\<rparr>"
    have hd: "stream_parse_header en ops mem st = Some (None, ?st)"
      using h(3) [OF 4(1,2) t_def, of en] 4 by (simp add: Let_def)
    obtain i where i: "n = 16 + i"
        "stream_spec (stream_phase_of (r_self ?st)) (ring_content ops mem (r_ring_buffer ?st)) = (p', i, out)"
      using 4 spec ph k(2) [of mem]
      by (auto simp: c_def [symmetric] t_def [symmetric] Let_def stream_phase_of_def split: if_splits)
    then show ?thesis
      using stream_parse_body_eq [of ?st mem p' i out] k hd
      by (auto simp: stream_parseFromRingBuffer_def ReadHeader add.commute split: parse_outcome.splits)
  qed
qed

end

sublocale ring_buffer \<subseteq> stream: ring_reader ops ring_inv "stream_parseFromRingBuffer en ops"
    stream_phase_of stream_spec "\<lambda>mem s. stream_value mem (sr_message s)" "\<lambda>_. True"
  rewrites "(active (\<lambda>_. True) :: ('rb, StreamRead) ReadMachine \<Rightarrow> bool) = reading"
  for en
  by unfold_locales
     (erule (1) stream_parse_eq, simp, erule stream_spec_more, erule stream_spec_got, erule stream_spec_fail, rule active_True)

section \<open>Frames on the wire\<close>

definition stream_frame :: "RpcMessageType \<Rightarrow> u32 \<Rightarrow> bytes \<Rightarrow> bytes" where
  "stream_frame t i body = frame t 0 i body"

interpretation control_writer: frame_writer "\<lambda>(i, t). StreamFrameWriteState_control en i t"
    "\<lambda>mem (i, t). stream_frame t i []" "\<lambda>x. True" for en
  by unfold_locales (auto simp: StreamFrameWriteState_control_def header_serialize_eq iov_Buf
      stream_frame_def frame_def frame_header_def RpcHeader_init_def)

interpretation data_writer: frame_writer "\<lambda>(i, v). StreamFrameWriteState_view en i v"
    "\<lambda>mem (i, v). stream_frame STREAM_DATA i (view_bytes mem v)" "\<lambda>(i, v). view_ok v" for en
  by unfold_locales (auto simp: StreamFrameWriteState_view_def buildDataFrame_def header_serialize_eq iov_Buf
      stream_frame_def frame_def frame_header_def RpcHeader_init_def payload_iovecs_ok length_view_bytes)

interpretation init_writer: frame_writer "\<lambda>(i, s, m). StreamFrameWriteState_init en i s m"
    "\<lambda>mem (i, s, m). stream_frame STREAM_INIT i (route_bytes s m)" "\<lambda>x. True" for en
  by unfold_locales (auto simp: StreamFrameWriteState_init_def Let_def header_serialize_eq iov_Buf
      host_store16_htons route_bytes_def stream_frame_def frame_def frame_header_def RpcHeader_init_def)

section \<open>Calls on a session\<close>

text \<open>
  The sends a user of a session can make, the write state each builds, and the message the peer is
  meant to read for it. \<open>send_calls\<close> awaits the sends one after the other; \<open>read_messages\<close> awaits reads
  one after the other, each into a fresh message object.
\<close>

datatype stream_call = CallInit | CallInitAck | CallData RpcPayloadView | CallEnd | CallCancel

fun stream_call_write :: "endian \<Rightarrow> 'rb RpcStream \<Rightarrow> stream_call \<Rightarrow> WriteState option" where
  "stream_call_write en s CallInit = sendInit en s"
| "stream_call_write en s CallInitAck = sendInitAck en s"
| "stream_call_write en s (CallData v) = sendData_view en v s"
| "stream_call_write en s CallEnd = sendEnd en s"
| "stream_call_write en s CallCancel = sendCancel en s"

fun call_type :: "stream_call \<Rightarrow> RpcMessageType" where
  "call_type CallInit = STREAM_INIT"
| "call_type CallInitAck = STREAM_INIT_ACK"
| "call_type (CallData v) = STREAM_DATA"
| "call_type CallEnd = STREAM_END"
| "call_type CallCancel = STREAM_CANCEL"

fun call_body :: "memory \<Rightarrow> 'rb RpcStream \<Rightarrow> stream_call \<Rightarrow> bytes" where
  "call_body mem s CallInit = route_bytes (rst_service_name s) (rst_method_name s)"
| "call_body mem s (CallData v) = view_bytes mem v"
| "call_body mem s _ = []"

definition call_message :: "memory \<Rightarrow> 'rb RpcStream \<Rightarrow> stream_call \<Rightarrow> stream_fields" where
  "call_message mem s call =
     \<lparr>sf_id = rst_writer_stream_id s, sf_type = call_type call, sf_end = call \<in> {CallEnd, CallCancel},
      sf_payload = call_body mem s call\<rparr>"

definition call_ok :: "nat \<Rightarrow> 'rb RpcStream \<Rightarrow> stream_call \<Rightarrow> bool" where
  "call_ok cap s call \<longleftrightarrow>
     (case call of CallData v \<Rightarrow> view_ok v | _ \<Rightarrow> True) \<and>
     16 + length (call_body (\<lambda>_. 0) s call) \<le> cap \<and> length (call_body (\<lambda>_. 0) s call) \<le> RPC_MAX_BODY_SIZE"

definition call_wire :: "memory \<Rightarrow> 'rb RpcStream \<Rightarrow> stream_call \<Rightarrow> bytes" where
  "call_wire mem s call = stream_frame (call_type call) (rst_writer_stream_id s) (call_body mem s call)"

fun send_calls ::
  "IOError \<Rightarrow> endian \<Rightarrow> memory \<Rightarrow> 'rb RpcStream \<Rightarrow> io_event list list \<Rightarrow> stream_call list \<Rightarrow> bytes \<Rightarrow> bytes option" where
  "send_calls sf en mem s (evs # evss) (call # calls) wire =
     (case send_run sf evs mem (stream_call_write en s call) wire of
        Finished (Inr _) _ _ wire' \<Rightarrow> send_calls sf en mem s evss calls wire'
      | _ \<Rightarrow> None)"
| "send_calls sf en mem s _ _ wire = Some wire"

fun read_messages ::
  "'rb ring_ops \<Rightarrow> endian \<Rightarrow> io_event list list \<Rightarrow> memory \<Rightarrow> 'rb \<Rightarrow> bytes \<Rightarrow> stream_fields option list" where
  "read_messages ops en [] mem rb stream = []"
| "read_messages ops en (evs # evss) mem rb stream =
     (case read_run ops (stream_parseFromRingBuffer en ops) evs mem (getMessage rb StreamMessage_init) stream of
        Finished (Inr _) mem' m' rest \<Rightarrow>
          stream_value mem' (sr_message (machine_self m')) # read_messages ops en evss mem' (machine_ring m') rest
      | _ \<Rightarrow> [None])"

lemma call_body_length: "(case call of CallData v \<Rightarrow> view_ok v | _ \<Rightarrow> True) \<Longrightarrow>
    length (call_body mem s call) = length (call_body mem' s call)"
  by (cases call) (simp_all add: length_view_bytes)

lemma msgtype_of_call [simp]: "msgtype_of_u8 (msgtype_to_u8 (call_type call)) = call_type call"
  by (rule msgtype_of_to_u8) (cases call; simp add: named_msgtypes_def)

lemma stream_spec_call:
  assumes "call_ok cap s call"
  shows "\<exists>p'. stream_spec (AtHeader False) (call_wire mem s call @ later) =
    (p', length (call_wire mem s call), Got (Some (call_message mem s call)))"
proof -
  let ?b = "call_body mem s call"
  have len: "length ?b \<le> RPC_MAX_BODY_SIZE"
    using assms call_body_length [of call mem s "\<lambda>_. 0"] by (simp add: call_ok_def)
  have "body_of (call_wire mem s call @ later) = ?b" using len
    by (simp add: call_wire_def stream_frame_def body_of_frame)
  then have body: "take (length ?b) (drop 16 (call_wire mem s call @ later)) = ?b"
    using len by (simp add: body_of_def call_wire_def stream_frame_def body_len_frame)
  have ends: "call_type call = STREAM_END \<or> call_type call = STREAM_CANCEL \<longleftrightarrow> call \<in> {CallEnd, CallCancel}"
    "call \<in> {CallEnd, CallCancel} \<Longrightarrow> ?b = []"
    by (cases call; simp)+
  show ?thesis
    using len body ends
    by (auto simp: call_wire_def stream_frame_def body_len_frame frame_header_valid call_message_def Let_def)
qed

lemma call_send:
  assumes "call_ok cap s call" "delivers evs" "length (call_wire mem s call) \<le> length evs"
  shows "\<exists>m'. send_run sf evs mem (stream_call_write en s call) wire =
    Finished (Inr True) mem m' (wire @ call_wire mem s call)"
  using assms control_writer.send_completes [where x = "(rst_writer_stream_id s, call_type call)" and evs = evs and mem = mem and sf = sf and out = wire]
    data_writer.send_completes [where x = "(rst_writer_stream_id s, _)" and evs = evs and mem = mem and sf = sf and out = wire]
    init_writer.send_completes [where x = "(rst_writer_stream_id s, rst_service_name s, rst_method_name s)" and evs = evs and mem = mem and sf = sf and out = wire]
  by (cases call) (simp_all add: call_wire_def call_ok_def sendInit_def sendInitAck_def sendData_view_def
      sendEnd_def sendCancel_def)

lemma calls_send:
  assumes "list_all (call_ok cap s) calls" "length evss = length calls"
    and "list_all (\<lambda>evs. delivers evs \<and> cap \<le> length evs) evss"
  shows "send_calls sf en mem s evss calls wire = Some (wire @ concat (map (call_wire mem s) calls))"
  using assms(2,1,3)
proof (induction evss calls arbitrary: wire rule: list_induct2)
  case (Cons evs evss call calls)
  have "length (call_wire mem s call) \<le> cap"
    using Cons.prems call_body_length [of call mem s "\<lambda>_. 0"] by (simp add: call_wire_def stream_frame_def call_ok_def)
  then obtain m' where "send_run sf evs mem (stream_call_write en s call) wire =
      Finished (Inr True) mem m' (wire @ call_wire mem s call)"
    using call_send [of cap s call evs mem sf en wire] Cons.prems by auto
  then show ?case using Cons.IH [of "wire @ call_wire mem s call"] Cons.prems by simp
qed simp

context ring_buffer
begin

lemma call_read:
  assumes "ring_inv rb" "call_ok (ring_capacity ops rb) s call" "delivers evs" "ring_capacity ops rb \<le> length evs"
    and "ring_content ops mem rb @ stream = call_wire smem s call @ later"
  shows "\<exists>mem' m' rest. read_run ops (stream_parseFromRingBuffer en ops) evs mem (getMessage rb StreamMessage_init) stream =
      Finished (Inr True) mem' m' rest \<and>
    stream_value mem' (sr_message (machine_self m')) = Some (call_message smem s call) \<and> ring_inv (machine_ring m') \<and>
    ring_capacity ops (machine_ring m') = ring_capacity ops rb \<and>
    ring_content ops mem' (machine_ring m') @ rest = later"
proof -
  let ?m = "getMessage rb StreamMessage_init"
  obtain p' where sp: "stream_spec (AtHeader False) (ring_content ops mem rb @ stream) =
      (p', length (call_wire smem s call), Got (Some (call_message smem s call)))"
    using stream_spec_call [OF assms(2)] assms(5) by metis
  have cap: "length (call_wire smem s call) \<le> ring_capacity ops rb"
    using assms(2) call_body_length [of call smem s "\<lambda>_. 0"] by (simp add: call_wire_def stream_frame_def call_ok_def)
  have m: "reading ?m" "machine_ring ?m = rb" "stream_phase_of (machine_self ?m) = AtHeader False"
    by (simp_all add: getMessage_machine StreamMessageReadState_def stream_phase_of_def StreamMessage_init_def)
  show ?thesis
    using stream.read_complete [of ?m evs mem stream p' _ _ en] stream.fits_got [OF sp cap] sp cap m assms
    by simp
qed

lemma calls_read:
  assumes "ring_inv rb" "list_all (call_ok (ring_capacity ops rb) s) calls" "length evss = length calls"
    and "list_all (\<lambda>evs. delivers evs \<and> ring_capacity ops rb \<le> length evs) evss"
    and "ring_content ops mem rb @ stream = concat (map (call_wire smem s) calls) @ later"
  shows "read_messages ops en evss mem rb stream = map (\<lambda>call. Some (call_message smem s call)) calls"
  using assms(3,1,2,4,5)
proof (induction evss calls arbitrary: mem rb stream rule: list_induct2)
  case (Cons evs evss call calls)
  then obtain mem' m' rest where
    "read_run ops (stream_parseFromRingBuffer en ops) evs mem (getMessage rb StreamMessage_init) stream =
      Finished (Inr True) mem' m' rest"
    "stream_value mem' (sr_message (machine_self m')) = Some (call_message smem s call)" "ring_inv (machine_ring m')"
    "ring_capacity ops (machine_ring m') = ring_capacity ops rb"
    "ring_content ops mem' (machine_ring m') @ rest = concat (map (call_wire smem s) calls) @ later"
    using call_read [of rb s call evs mem stream smem "concat (map (call_wire smem s) calls) @ later" en] by auto
  then show ?case using Cons.IH [of "machine_ring m'" mem' rest] Cons.prems by simp
qed simp

end

text \<open>A frame the reader takes whole: a named type, a legal size, and no body on an end or cancel frame.\<close>

definition frame_ok :: "nat \<Rightarrow> RpcMessageType \<Rightarrow> bytes \<Rightarrow> bool" where
  "frame_ok cap t body \<longleftrightarrow> t \<in> set named_msgtypes \<and> (t \<in> {STREAM_END, STREAM_CANCEL} \<longrightarrow> body = []) \<and>
     16 + length body \<le> cap \<and> length body \<le> RPC_MAX_BODY_SIZE"

lemma stream_spec_frame:
  assumes "frame_ok cap t body"
  shows "\<exists>p'. stream_spec (AtHeader False) (stream_frame t i body @ later) = (p', length (stream_frame t i body),
    Got (Some \<lparr>sf_id = i, sf_type = t, sf_end = t \<in> {STREAM_END, STREAM_CANCEL}, sf_payload = body\<rparr>))"
proof -
  have len: "length body \<le> RPC_MAX_BODY_SIZE" and t: "msgtype_of_u8 (msgtype_to_u8 t) = t"
    using assms msgtype_of_to_u8 by (auto simp: frame_ok_def)
  have "body_of (stream_frame t i body @ later) = body" using len by (simp add: stream_frame_def body_of_frame)
  then have "take (length body) (drop 16 (stream_frame t i body @ later)) = body"
    using len by (simp add: body_of_def stream_frame_def body_len_frame)
  then show ?thesis
    using assms len t by (auto simp: frame_ok_def stream_frame_def body_len_frame frame_header_valid Let_def)
qed

context ring_buffer
begin

lemma end_frame_left:
  assumes "ring_inv rb" "t \<in> {STREAM_END, STREAM_CANCEL}"
    and "length body \<le> RPC_MAX_BODY_SIZE" "ring_content ops mem rb = stream_frame t i body @ rest"
  shows "\<exists>m'. read_run ops (stream_parseFromRingBuffer en ops) [] mem (getMessage rb msg) stream =
      Finished (Inr True) mem m' stream \<and> sm_is_end (sr_message (machine_self m')) \<and> ring_inv (machine_ring m') \<and>
    ring_content ops mem (machine_ring m') = body @ rest"
proof -
  let ?m = "getMessage rb msg" and ?v = "Some \<lparr>sf_id = i, sf_type = t, sf_end = True, sf_payload = []\<rparr>"
  have m: "reading ?m" "machine_ring ?m = rb" "stream_phase_of (machine_self ?m) = AtHeader (sm_is_end msg)"
    by (simp_all add: getMessage_machine StreamMessageReadState_def stream_phase_of_def)
  have t: "msgtype_of_u8 (msgtype_to_u8 t) = t"
    using assms(2) by (intro msgtype_of_to_u8) (auto simp: named_msgtypes_def)
  have sp: "stream_spec (AtHeader (sm_is_end msg)) (ring_content ops mem rb @ []) = (AtHeader True, 16, Got ?v)"
    using assms(2,3) t by (auto simp: assms(4) stream_frame_def frame_header_valid)
  show ?thesis
    using stream.advance_got [OF m(1), of mem "AtHeader True" 16 ?v en] m sp assms(1,4)
    by (fastforce simp: stream_frame_def frame_def stream_value_def split: if_splits)
qed

text \<open>What a read finds when the ring already holds a whole frame, and when it holds 16 bytes that are no header.\<close>

lemma buffered_frame_read:
  assumes "ring_inv rb" "t \<in> set named_msgtypes" "t \<in> {STREAM_END, STREAM_CANCEL} \<longrightarrow> body = []"
    and "length body \<le> RPC_MAX_BODY_SIZE" "ring_content ops mem rb = stream_frame t i body @ rest"
  shows "\<exists>m'. read_run ops (stream_parseFromRingBuffer en ops) [] mem (getMessage rb StreamMessage_init) stream =
      Finished (Inr True) mem m' stream \<and>
    stream_value mem (sr_message (machine_self m')) =
      Some \<lparr>sf_id = i, sf_type = t, sf_end = t \<in> {STREAM_END, STREAM_CANCEL}, sf_payload = body\<rparr> \<and>
    ring_content ops mem (machine_ring m') = rest"
proof -
  let ?m = "getMessage rb StreamMessage_init" and ?n = "length (stream_frame t i body)"
  let ?v = "Some \<lparr>sf_id = i, sf_type = t, sf_end = t \<in> {STREAM_END, STREAM_CANCEL}, sf_payload = body\<rparr>"
  have m: "reading ?m" "machine_ring ?m = rb" "stream_phase_of (machine_self ?m) = AtHeader False"
    by (simp_all add: getMessage_machine StreamMessageReadState_def stream_phase_of_def StreamMessage_init_def)
  obtain p' where sp: "stream_spec (AtHeader False) (ring_content ops mem rb) = (p', ?n, Got ?v)"
    using stream_spec_frame [of "16 + length body" t body i rest] assms(2-5) by (auto simp: frame_ok_def)
  show ?thesis
    using stream.advance_got [OF m(1), of mem p' ?n ?v en] m sp assms(1,5) by fastforce
qed

lemma buffered_header_invalid:
  assumes "ring_inv rb" "16 \<le> length (ring_content ops mem rb)" "\<not> header_valid (header_of (ring_content ops mem rb))"
  shows "\<exists>m' e. read_run ops (stream_parseFromRingBuffer en ops) [] mem (getMessage rb StreamMessage_init) stream =
      Finished (Inl e) mem m' stream \<and> err_code e = INVALID_REQUEST"
proof -
  let ?m = "getMessage rb StreamMessage_init" and ?e = "mkRpcError INVALID_REQUEST ''Invalid header''"
  have m: "reading ?m" "machine_ring ?m = rb" "stream_phase_of (machine_self ?m) = AtHeader False"
    by (simp_all add: getMessage_machine StreamMessageReadState_def stream_phase_of_def StreamMessage_init_def)
  have "stream_spec (AtHeader False) (ring_content ops mem rb) = (AtHeader False, 0, Fail ?e)"
    using assms(2,3) by simp
  then show ?thesis
    using stream.advance_fail [OF m(1), of mem "AtHeader False" 0 ?e en] m assms(1) by (fastforce simp: mkRpcError_def)
qed

text \<open>The end flag of a message object is set and never cleared: an object that was read as an end frame and
  is read into again shows a data frame as the end of the stream.\<close>

lemma reused_message_ends:
  assumes "ring_inv rb" "sm_is_end msg" "length body \<le> RPC_MAX_BODY_SIZE"
    and "ring_content ops mem rb = stream_frame STREAM_DATA i body @ rest"
  shows "\<exists>m'. read_run ops (stream_parseFromRingBuffer en ops) [] mem (getMessage rb msg) stream =
      Finished (Inr True) mem m' stream \<and> sm_msg_type (sr_message (machine_self m')) = STREAM_DATA \<and>
    sm_is_end (sr_message (machine_self m'))"
proof -
  let ?m = "getMessage rb msg" and ?v = "Some \<lparr>sf_id = i, sf_type = STREAM_DATA, sf_end = True, sf_payload = body\<rparr>"
  have m: "reading ?m" "machine_ring ?m = rb" "stream_phase_of (machine_self ?m) = AtHeader True"
    using assms(2) by (simp_all add: getMessage_machine StreamMessageReadState_def stream_phase_of_def)
  have t: "msgtype_of_u8 (msgtype_to_u8 STREAM_DATA) = STREAM_DATA"
    by (intro msgtype_of_to_u8) (simp add: named_msgtypes_def)
  have sp: "stream_spec (AtHeader True) (ring_content ops mem rb @ []) = (AtHeader True, 16 + length body, Got ?v)"
    using assms(3) t body_of_frame [OF assms(3), of STREAM_DATA 0 i rest]
    by (simp add: assms(4) stream_frame_def frame_simps body_of_def Let_def)
  show ?thesis
    using stream.advance_got [OF m(1), of mem "AtHeader True" "16 + length body" ?v en] m sp assms(1)
    by (fastforce simp: stream_value_def split: if_splits)
qed

end

lemma reused_message_keeps_end:
  assumes "ring_buffer ops ring_inv" "ring_inv rb" "sm_is_end msg" "length body \<le> RPC_MAX_BODY_SIZE"
    and "ring_content ops mem rb = stream_frame STREAM_DATA i body @ rest"
  shows "\<exists>m'. read_run ops (stream_parseFromRingBuffer en ops) [] mem (getMessage rb msg) stream =
      Finished (Inr True) mem m' stream \<and> sm_msg_type (sr_message (machine_self m')) = STREAM_DATA \<and>
    sm_is_end (sr_message (machine_self m'))"
  using ring_buffer.reused_message_ends [OF assms] .

section \<open>Serialisation of stream messages\<close>

lemma stream_serialize_eq:
  assumes "view_ok (StreamMessage_payloadView m)"
  shows "StreamMessage_serialize en mem t m =
    Some (stream_frame t (sm_stream_id m) (view_bytes mem (StreamMessage_payloadView m)))"
  using assms
  by (simp add: StreamMessage_serialize_def Let_def header_serialize_eq copy_segments_over stream_frame_def
      frame_def frame_header_def RpcHeader_init_def length_view_bytes del: append_assoc)

lemma init_serialize_eq:
  "StreamInitRequest_serialize en r =
    Some (stream_frame STREAM_INIT (si_stream_id r) (route_bytes (si_service_name r) (si_method_name r)))"
  by (simp add: StreamInitRequest_serialize_def Let_def header_serialize_eq host_store16_htons wr_over
      stream_frame_def frame_def frame_header_def RpcHeader_init_def route_bytes_def add.assoc drop_replicate
      del: append_assoc replicate_add)

text \<open>The body of a request and of a stream-init frame are read by the same steps.\<close>

lemma init_deserializeBody_eq:
  "StreamInitRequest_deserializeBody en r body len =
    map_option (\<lambda>(ok, q). (ok, r\<lparr>si_service_name := rq_service_name q, si_method_name := rq_method_name q\<rparr>))
      (RpcRequest_deserializeBody en
        (RpcRequest_init\<lparr>rq_service_name := si_service_name r, rq_method_name := si_method_name r\<rparr>) body len)"
  if "len \<le> length body"
  using that
  by (auto simp: StreamInitRequest_deserializeBody_def RpcRequest_deserializeBody_def RpcRequest_init_def rd_def Let_def
      split: if_splits)

section \<open>Properties\<close>

text \<open>C16. A stream session is delivered. Whatever sequence of init, ack, data, end and cancel calls one
  side makes, each call completes, and the peer that reads as many messages reads exactly those
  messages, in order: the stream id, the frame type, the end flag exactly on end and cancel, and the
  payload. The schedules of the writes and of the reads are independent and arbitrary; the reads need
  a ring that can hold the largest frame.\<close>

theorem stream_session_delivered:
  assumes "ring_buffer ops ring_inv" "ring_inv rb" "ring_content ops mem rb = []"
    and "list_all (call_ok (ring_capacity ops rb) s) calls"
    and "length wevss = length calls" "list_all (\<lambda>evs. delivers evs \<and> ring_capacity ops rb \<le> length evs) wevss"
    and "length revss = length calls" "list_all (\<lambda>evs. delivers evs \<and> ring_capacity ops rb \<le> length evs) revss"
  shows "\<exists>wire. send_calls sf en smem s wevss calls [] = Some wire \<and>
    read_messages ops en' revss mem rb wire = map (\<lambda>call. Some (call_message smem s call)) calls"
  using calls_send [OF assms(4,5,6), of sf en smem "[]"]
    ring_buffer.calls_read [OF assms(1,2,4,7,8), of mem "concat (map (call_wire smem s) calls)" smem "[]"] assms(3)
  by simp

theorem stream_session_delivered_witness:
  "\<exists>wire. send_calls \<lparr>ioe_timeout = False, ioe_disconnect = False, ioe_message = []\<rparr> Little (\<lambda>a. of_nat a)
      (mkRpcStream () 5 [69] [70]) [replicate 32 (Deliver 3), replicate 32 (Deliver 7)]
      [CallData \<lparr>segment1 = Mem 4 2, segment1_len = 2, segment2 = Null, segment2_len = 0\<rparr>, CallEnd] [] = Some wire \<and>
    read_messages circ_ops Big [replicate 32 (Deliver 5), replicate 32 (Deliver 1)] (\<lambda>_. 0) (mk_circ 32) wire =
      [Some \<lparr>sf_id = 5, sf_type = STREAM_DATA, sf_end = False, sf_payload = [4, 5]\<rparr>,
       Some \<lparr>sf_id = 5, sf_type = STREAM_END, sf_end = True, sf_payload = []\<rparr>]"
proof -
  let ?v = "\<lparr>segment1 = Mem 4 2, segment1_len = 2, segment2 = Null, segment2_len = 0\<rparr>"
  have ok: "list_all (call_ok 32 (mkRpcStream () 5 [69] [70])) [CallData ?v, CallEnd]"
    by (simp add: call_ok_def view_ok_def view_bytes_def max_body_eq)
  show ?thesis
    using stream_session_delivered [OF circ.ring_buffer_axioms, of "mk_circ 32" "\<lambda>_. 0" "mkRpcStream () 5 [69] [70]"
        "[CallData ?v, CallEnd]" "[replicate 32 (Deliver 3), replicate 32 (Deliver 7)]"
        "[replicate 32 (Deliver 5), replicate 32 (Deliver 1)]"
        "\<lparr>ioe_timeout = False, ioe_disconnect = False, ioe_message = []\<rparr>" Little "\<lambda>a. of_nat a" Big] ok
    by (simp add: delivers_def call_message_def mkRpcStream_def view_bytes_def upt_rec)
qed

text \<open>The stream-init handshake carries its route. The gather write of an init frame puts exactly the
  bytes of the contiguous serialiser on the wire, and the peer's body parser reads back the service
  and method names, on either byte order.\<close>

lemma stream_init_roundtrip:
  assumes "length service < 65536" "length method < 65536"
    and "delivers evs" "20 + length service + length method \<le> length evs"
  shows "\<exists>b m'. StreamInitRequest_serialize en (mkStreamInitRequest i service method) = Some b \<and>
    send_run sf evs mem (StreamFrameWriteState_init en i service method) [] = Finished (Inr True) mem m' b \<and>
    StreamInitRequest_deserializeBody en' r0 (drop 16 b) (length b - 16) =
      Some (True, r0\<lparr>si_service_name := service, si_method_name := method\<rparr>)"
proof -
  let ?b = "stream_frame STREAM_INIT i (route_bytes service method)"
  have body: "drop 16 ?b = route_bytes service method @ []" "length ?b - 16 = length (route_bytes service method)"
    by (simp_all add: stream_frame_def frame_def)
  have "parse_route (route_bytes service method @ []) = Some (service, method, [])"
    using assms(1,2) by (rule parse_route_bytes)
  then show ?thesis
    using init_writer.send_completes [where x = "(i, service, method)" and evs = evs and mem = mem and sf = sf
        and out = "[]"] assms body
    by (simp add: init_serialize_eq mkStreamInitRequest_def init_deserializeBody_eq request_deserializeBody_ok
        request_with_def RpcRequest_init_def stream_frame_def) auto
qed

text \<open>Comparing a payload in place is comparing its bytes: for a view of one or two segments, also one
  that wraps around the ring, payloadEquals stays inside the view and the string and says whether
  the payload is the expected string.\<close>

lemma payloadEquals_correct:
  assumes "view_ok (StreamMessage_payloadView m)"
  shows "payloadEquals mem expected m = Some (view_bytes mem (StreamMessage_payloadView m) = expected)"
proof -
  let ?v = "StreamMessage_payloadView m"
  let ?s1 = "deref mem (segment1 ?v) (segment1_len ?v)" and ?s2 = "deref mem (segment2 ?v) (segment2_len ?v)"
  have ok: "ptr_ok (segment1 ?v) (segment1_len ?v)" "ptr_ok (segment2 ?v) (segment2_len ?v)"
    using assms by (auto simp: view_ok_def)
  have len: "length ?s1 = segment1_len ?v" "length ?s2 = segment2_len ?v"
    using ok by (simp_all add: length_deref)
  have "?s1 @ ?s2 = expected \<longleftrightarrow> view_size ?v = length expected \<and>
      ?s1 = take (segment1_len ?v) expected \<and> ?s2 = take (segment2_len ?v) (drop (segment1_len ?v) expected)"
    using len by (auto simp: view_size_def append_eq_conv_conj)
  then show ?thesis
    using ok by (auto simp: payloadEquals_def memcmp_equal_def rdp_def rd_def view_bytes_def view_size_def Let_def)
qed

text \<open>C38. The read state does not look at the body of an end or cancel frame. When such a frame announces a
  body, the read completes after the header and leaves the body in the ring. The next read takes that
  body for a frame: if the body is itself a frame, of whatever type and stream, that frame is delivered
  as the next message although it was sent as the content of another one; if its first bytes are no
  header, the next read fails with INVALID_REQUEST, so the session is lost.\<close>

theorem end_frame_body_left:
  assumes "ring_buffer ops ring_inv" "ring_inv rb" "t \<in> {STREAM_END, STREAM_CANCEL}"
    and "length body \<le> RPC_MAX_BODY_SIZE" "ring_content ops mem rb = stream_frame t i body @ rest"
  shows "\<exists>m1. read_run ops (stream_parseFromRingBuffer en ops) [] mem (getMessage rb msg) stream =
      Finished (Inr True) mem m1 stream \<and> sm_is_end (sr_message (machine_self m1)) \<and>
    ring_content ops mem (machine_ring m1) = body @ rest \<and>
    (\<forall>t2 i2 body2. body = stream_frame t2 i2 body2 \<and> t2 \<in> set named_msgtypes \<and>
        (t2 \<in> {STREAM_END, STREAM_CANCEL} \<longrightarrow> body2 = []) \<longrightarrow>
      (\<exists>m2. read_run ops (stream_parseFromRingBuffer en ops) [] mem (getMessage (machine_ring m1) StreamMessage_init) stream =
          Finished (Inr True) mem m2 stream \<and>
        stream_value mem (sr_message (machine_self m2)) =
          Some \<lparr>sf_id = i2, sf_type = t2, sf_end = t2 \<in> {STREAM_END, STREAM_CANCEL}, sf_payload = body2\<rparr> \<and>
        ring_content ops mem (machine_ring m2) = rest)) \<and>
    (16 \<le> length (body @ rest) \<and> \<not> header_valid (header_of (body @ rest)) \<longrightarrow>
      (\<exists>m2 e. read_run ops (stream_parseFromRingBuffer en ops) [] mem (getMessage (machine_ring m1) StreamMessage_init) stream =
          Finished (Inl e) mem m2 stream \<and> err_code e = INVALID_REQUEST))"
proof -
  obtain m1 where m1: "read_run ops (stream_parseFromRingBuffer en ops) [] mem (getMessage rb msg) stream =
      Finished (Inr True) mem m1 stream" "sm_is_end (sr_message (machine_self m1))" "ring_inv (machine_ring m1)"
      "ring_content ops mem (machine_ring m1) = body @ rest"
    using ring_buffer.end_frame_left [OF assms] by blast
  have "length body2 \<le> RPC_MAX_BODY_SIZE" if "body = stream_frame t2 i2 body2" for t2 i2 body2
    using assms(4) that by (simp add: stream_frame_def)
  then show ?thesis
    using m1 ring_buffer.buffered_frame_read [OF assms(1) m1(3), where mem = mem and rest = rest and en = en and stream = stream]
      ring_buffer.buffered_header_invalid [OF assms(1) m1(3), where mem = mem and en = en and stream = stream]
    by (intro exI [of _ m1]) simp
qed

text \<open>An end frame of stream 5 with a data frame of stream 6 as its body.\<close>

theorem end_frame_body_left_witness:
  "let f = stream_frame STREAM_END 5 (stream_frame STREAM_DATA 6 [1, 2]) @ [9] in
   \<exists>m1 m2. read_run circ_ops (stream_parseFromRingBuffer Little circ_ops) [] (\<lambda>a. f ! a)
      (getMessage \<lparr>c_base = 0, c_cap = 40, c_head = 0, c_size = 35\<rparr> StreamMessage_init) [] =
      Finished (Inr True) (\<lambda>a. f ! a) m1 [] \<and> sm_is_end (sr_message (machine_self m1)) \<and>
    read_run circ_ops (stream_parseFromRingBuffer Little circ_ops) [] (\<lambda>a. f ! a) (getMessage (machine_ring m1) StreamMessage_init) [] =
      Finished (Inr True) (\<lambda>a. f ! a) m2 [] \<and>
    stream_value (\<lambda>a. f ! a) (sr_message (machine_self m2)) =
      Some \<lparr>sf_id = 6, sf_type = STREAM_DATA, sf_end = False, sf_payload = [1, 2]\<rparr> \<and>
    ring_content circ_ops (\<lambda>a. f ! a) (machine_ring m2) = [9]"
proof -
  let ?b = "stream_frame STREAM_DATA 6 [1, 2]"
  let ?f = "stream_frame STREAM_END 5 ?b @ [9]"
  let ?rb = "\<lparr>c_base = 0, c_cap = 40, c_head = 0, c_size = 35\<rparr>"
  have len: "length ?f = 35" by (simp add: stream_frame_def)
  have "map (\<lambda>a. ?f ! a) [0..<35] = ?f" using map_nth [of ?f] unfolding len .
  then have c: "ring_content circ_ops (\<lambda>a. ?f ! a) ?rb = ?f"
    by (simp add: ring_content_def circ_read_def circ_segments_def iov_bytes_def)
  have "circ_inv ?rb" "STREAM_END \<in> {STREAM_END, STREAM_CANCEL}" "length ?b \<le> RPC_MAX_BODY_SIZE"
      "STREAM_DATA \<in> set named_msgtypes" "STREAM_DATA \<noteq> STREAM_END" "STREAM_DATA \<noteq> STREAM_CANCEL"
    by (simp_all add: circ_inv_def max_body_eq named_msgtypes_def stream_frame_def)
  then show ?thesis
    using end_frame_body_left [OF circ.ring_buffer_axioms _ _ _ c, of Little StreamMessage_init "[]"]
    unfolding Let_def by fastforce
qed

end
