(* ===== verification/Rpc_Client.thy ===== *)
theory Rpc_Client
  imports Rpc_Stream
begin

text \<open>
  Model of \<^verbatim>\<open>src/galay-rpc/kernel/rpc_client.h\<close>: the read state that expects one response id, the client's
  configuration and state, \<^verbatim>\<open>connect\<close>, the calls and the creation of stream sessions.

  The socket itself is the kernel's: what is kept of it is whether it exists. A call runs over the two
  completion schedules of its send and of its receive, and over a network: the memory, the bytes that
  will arrive from the peer and the bytes that have been sent to it.
\<close>

section \<open>Reading the response with an expected id\<close>

record ExpectedRead =
  xr_setting :: RpcReaderSetting
  xr_expected_request_id :: u32
  xr_response :: RpcResponse

definition ExpectedRpcResponseReadState ::
  "'rb \<Rightarrow> RpcReaderSetting \<Rightarrow> u32 \<Rightarrow> RpcResponse \<Rightarrow> ('rb, ExpectedRead) ReadState" where
  "ExpectedRpcResponseReadState rb setting expected_request_id response =
     mkReadState rb \<lparr>xr_setting = setting, xr_expected_request_id = expected_request_id, xr_response = response\<rparr>"

definition expected_parseFromRingBuffer :: "endian \<Rightarrow> 'rb ring_ops \<Rightarrow> ('rb, ExpectedRead) parser" where
  "expected_parseFromRingBuffer en ops mem st =
     (if rb_readable ops (r_ring_buffer st) = 0 then Some (False, st)
      else let read_iovecs = rb_getReadIovecs ops (r_ring_buffer st) in
        if read_iovecs = [] then Some (False, st)
        else do {
          (parse_result, response) \<leftarrow> tryParseResponseMessage en mem read_iovecs
             (iovecsReadableBytes read_iovecs) (max_message_size (xr_setting (r_self st)))
             (xr_response (r_self st));
          let st = st\<lparr>r_self := (r_self st)\<lparr>xr_response := response\<rparr>\<rparr>;
          case parse_result of
            Inl e \<Rightarrow> Some (True, setReadError e st)
          | Inr n \<Rightarrow>
              if n = 0 then Some (False, st)
              else if rs_request_id response \<noteq> xr_expected_request_id (r_self st)
              then Some (True, setReadError (mkRpcError INVALID_RESPONSE ''Mismatched response request id'') st)
              else Some (True, st\<lparr>r_ring_buffer := rb_consume ops (r_ring_buffer st) n\<rparr>) })"

definition RecvRpcResponseChainAwaitable ::
  "'rb \<Rightarrow> RpcReaderSetting \<Rightarrow> u32 \<Rightarrow> RpcResponse \<Rightarrow> ('rb, ExpectedRead) ReadMachine" where
  "RecvRpcResponseChainAwaitable rb setting expected_request_id response =
     RpcRingBufferReadMachine (ExpectedRpcResponseReadState rb setting expected_request_id response)"

section \<open>The client\<close>

record RpcClientConfig =
  cc_reader_setting :: RpcReaderSetting
  cc_ring_buffer_size :: nat

definition RpcClientConfig_init :: RpcClientConfig where
  "RpcClientConfig_init = \<lparr>cc_reader_setting = RpcReaderSetting_init, cc_ring_buffer_size = kDefaultRpcRingBufferSize\<rparr>"

definition client_readerSetting :: "RpcReaderSetting \<Rightarrow> RpcClientConfig \<Rightarrow> RpcClientConfig" where
  "client_readerSetting setting cfg = cfg\<lparr>cc_reader_setting := setting\<rparr>"

definition client_ringBufferSize :: "nat \<Rightarrow> RpcClientConfig \<Rightarrow> RpcClientConfig" where
  "client_ringBufferSize sz cfg = cfg\<lparr>cc_ring_buffer_size := sz\<rparr>"

record 'rb RpcClient =
  cl_socket :: bool
  cl_ring_buffer :: "'rb option"
  cl_config :: RpcClientConfig
  cl_request_id :: u32
  cl_stream_id :: u32

definition mkRpcClient :: "RpcClientConfig \<Rightarrow> 'rb RpcClient" where
  "mkRpcClient config =
     \<lparr>cl_socket = False, cl_ring_buffer = None, cl_config = config, cl_request_id = 0, cl_stream_id = 1\<rparr>"

definition client_connect :: "(nat \<Rightarrow> 'rb) \<Rightarrow> 'rb RpcClient \<Rightarrow> 'rb RpcClient" where
  "client_connect mk_ring cl = (
     let ring_buffer_size = (if cc_ring_buffer_size (cl_config cl) = 0 then kDefaultRpcRingBufferSize
                             else cc_ring_buffer_size (cl_config cl))
     in cl\<lparr>cl_socket := True, cl_ring_buffer := Some (mk_ring ring_buffer_size)\<rparr>)"

record network =
  nw_mem :: memory
  nw_stream :: bytes
  nw_wire :: bytes

text \<open>
  A call returns a result; or it is still suspended when its schedule ends; or it meets undefined
  behaviour.
\<close>

datatype ('c, 'a) call_outcome =
    Returned "RpcError + 'a" network 'c
  | Call_waiting
  | Call_undefined

definition call_request :: "memory \<Rightarrow> u32 \<Rightarrow> bytes \<Rightarrow> bytes \<Rightarrow> RpcCallMode \<Rightarrow> bool \<Rightarrow> ptr \<Rightarrow> nat \<Rightarrow> RpcRequest option" where
  "call_request mem req_id service method mode end_of_stream payload payload_len = (
     let request = (mkRpcRequest req_id service method)\<lparr>rq_call_mode := mode, rq_end_of_stream := end_of_stream\<rparr>
     in if payload \<noteq> Null \<and> payload_len > 0 then RpcRequest_set_payload mem payload payload_len request
        else Some request)"

definition check_reply :: "RpcRequest \<Rightarrow> RpcResponse \<Rightarrow> RpcError + RpcResponse option" where
  "check_reply request response =
     (if rs_request_id response \<noteq> rq_request_id request
      then Inl (mkRpcError INVALID_RESPONSE ''Mismatched response request id'')
      else if rs_call_mode response \<noteq> rq_call_mode request
      then Inl (mkRpcError INVALID_RESPONSE ''Mismatched response call mode'')
      else Inr (Some response))"

definition callWithMode ::
  "endian \<Rightarrow> 'rb ring_ops \<Rightarrow> IOError \<Rightarrow> bytes \<Rightarrow> bytes \<Rightarrow> RpcCallMode \<Rightarrow> bool \<Rightarrow> ptr \<Rightarrow> nat \<Rightarrow>
   io_event list \<times> io_event list \<Rightarrow> network \<Rightarrow> 'rb RpcClient \<Rightarrow> ('rb RpcClient, RpcResponse option) call_outcome" where
  "callWithMode en ops sf service method mode end_of_stream payload payload_len io net cl =
     (case (cl_socket cl, cl_ring_buffer cl) of
        (True, Some rb) \<Rightarrow>
          (let req_id = cl_request_id cl; cl = cl\<lparr>cl_request_id := cl_request_id cl + 1\<rparr>
           in case call_request (nw_mem net) req_id service method mode end_of_stream payload payload_len of
             None \<Rightarrow> Call_undefined
           | Some request \<Rightarrow>
             (case send_run sf (fst io) (nw_mem net) (sendRequest en request) (nw_wire net) of
                Undefined \<Rightarrow> Call_undefined
              | Suspended _ _ _ \<Rightarrow> Call_waiting
              | Finished send_result mem _ wire \<Rightarrow>
                  (let net = net\<lparr>nw_wire := wire\<rparr>
                   in case send_result of
                     Inl e \<Rightarrow> Returned (Inl e) net cl
                   | Inr _ \<Rightarrow>
                     (case read_run ops (response_parseFromRingBuffer en ops) (snd io) mem
                        (getResponse \<lparr>cn_ring_buffer = rb, cn_reader_setting = cc_reader_setting (cl_config cl)\<rparr> RpcResponse_init)
                        (nw_stream net) of
                        Undefined \<Rightarrow> Call_undefined
                      | Suspended _ _ _ \<Rightarrow> Call_waiting
                      | Finished recv_result mem m stream \<Rightarrow>
                          (let net = net\<lparr>nw_mem := mem, nw_stream := stream\<rparr>;
                               cl = cl\<lparr>cl_ring_buffer := Some (machine_ring m)\<rparr>
                           in case recv_result of
                             Inl e \<Rightarrow> Returned (Inl e) net cl
                           | Inr _ \<Rightarrow> Returned (check_reply request (rss_response (machine_self m))) net cl)))))
      | _ \<Rightarrow> Returned (Inl (mkRpcError CONNECTION_CLOSED ''Client is not connected'')) net cl)"

definition call ::
  "endian \<Rightarrow> 'rb ring_ops \<Rightarrow> IOError \<Rightarrow> bytes \<Rightarrow> bytes \<Rightarrow> ptr \<Rightarrow> nat \<Rightarrow>
   io_event list \<times> io_event list \<Rightarrow> network \<Rightarrow> 'rb RpcClient \<Rightarrow> ('rb RpcClient, RpcResponse option) call_outcome" where
  "call en ops sf service method payload payload_len =
     callWithMode en ops sf service method UNARY True payload payload_len"

definition call_string ::
  "endian \<Rightarrow> 'rb ring_ops \<Rightarrow> IOError \<Rightarrow> bytes \<Rightarrow> bytes \<Rightarrow> bytes \<Rightarrow>
   io_event list \<times> io_event list \<Rightarrow> network \<Rightarrow> 'rb RpcClient \<Rightarrow> ('rb RpcClient, RpcResponse option) call_outcome" where
  "call_string en ops sf service method payload = call en ops sf service method (Buf payload 0) (length payload)"

definition call_empty ::
  "endian \<Rightarrow> 'rb ring_ops \<Rightarrow> IOError \<Rightarrow> bytes \<Rightarrow> bytes \<Rightarrow>
   io_event list \<times> io_event list \<Rightarrow> network \<Rightarrow> 'rb RpcClient \<Rightarrow> ('rb RpcClient, RpcResponse option) call_outcome" where
  "call_empty en ops sf service method = call en ops sf service method Null 0"

definition callClientStreamFrame ::
  "endian \<Rightarrow> 'rb ring_ops \<Rightarrow> IOError \<Rightarrow> bytes \<Rightarrow> bytes \<Rightarrow> ptr \<Rightarrow> nat \<Rightarrow> bool \<Rightarrow>
   io_event list \<times> io_event list \<Rightarrow> network \<Rightarrow> 'rb RpcClient \<Rightarrow> ('rb RpcClient, RpcResponse option) call_outcome" where
  "callClientStreamFrame en ops sf service method payload payload_len end_of_stream =
     callWithMode en ops sf service method CLIENT_STREAMING end_of_stream payload payload_len"

definition callServerStreamRequest ::
  "endian \<Rightarrow> 'rb ring_ops \<Rightarrow> IOError \<Rightarrow> bytes \<Rightarrow> bytes \<Rightarrow> ptr \<Rightarrow> nat \<Rightarrow>
   io_event list \<times> io_event list \<Rightarrow> network \<Rightarrow> 'rb RpcClient \<Rightarrow> ('rb RpcClient, RpcResponse option) call_outcome" where
  "callServerStreamRequest en ops sf service method payload payload_len =
     callWithMode en ops sf service method SERVER_STREAMING True payload payload_len"

definition callBidiStreamFrame ::
  "endian \<Rightarrow> 'rb ring_ops \<Rightarrow> IOError \<Rightarrow> bytes \<Rightarrow> bytes \<Rightarrow> ptr \<Rightarrow> nat \<Rightarrow> bool \<Rightarrow>
   io_event list \<times> io_event list \<Rightarrow> network \<Rightarrow> 'rb RpcClient \<Rightarrow> ('rb RpcClient, RpcResponse option) call_outcome" where
  "callBidiStreamFrame en ops sf service method payload payload_len end_of_stream =
     callWithMode en ops sf service method BIDI_STREAMING end_of_stream payload payload_len"

text \<open>A stream session shares the client's ring.\<close>

definition createStream_id :: "u32 \<Rightarrow> bytes \<Rightarrow> bytes \<Rightarrow> 'rb RpcClient \<Rightarrow> RpcError + 'rb RpcStream" where
  "createStream_id stream_id service method cl =
     (case (cl_socket cl, cl_ring_buffer cl) of
        (True, Some rb) \<Rightarrow> Inr (mkRpcStream rb stream_id service method)
      | _ \<Rightarrow> Inl (mkRpcError CONNECTION_CLOSED ''Client is not connected''))"

definition createStream :: "bytes \<Rightarrow> bytes \<Rightarrow> 'rb RpcClient \<Rightarrow> (RpcError + 'rb RpcStream) \<times> 'rb RpcClient" where
  "createStream service method cl = (
     let stream_id = cl_stream_id cl; cl = cl\<lparr>cl_stream_id := cl_stream_id cl + 1\<rparr>
     in (createStream_id stream_id service method cl, cl))"

text \<open>
  The members that use the socket or the ring without asking whether the client has ever connected:
  \<open>None\<close> is the dereference of a null pointer. A reader consists of the ring and the setting, like a
  connection.
\<close>

definition client_close :: "'rb RpcClient \<Rightarrow> unit option" where
  "client_close cl = (if cl_socket cl then Some () else None)"

definition client_ringBuffer :: "'rb RpcClient \<Rightarrow> 'rb option" where
  "client_ringBuffer cl = cl_ring_buffer cl"

definition client_getReader :: "'rb RpcClient \<Rightarrow> 'rb RpcConn option" where
  "client_getReader cl = do {
     rb \<leftarrow> client_ringBuffer cl;
     if cl_socket cl then Some \<lparr>cn_ring_buffer = rb, cn_reader_setting = cc_reader_setting (cl_config cl)\<rparr> else None }"

section \<open>The expecting reader keeps the reader contract\<close>

definition reply_has_id :: "u32 \<Rightarrow> response_fields option \<Rightarrow> bool" where
  "reply_has_id i v \<longleftrightarrow> (case v of None \<Rightarrow> False | Some f \<Rightarrow> pf_id f = i)"

definition expected_spec ::
  "nat \<times> u32 \<Rightarrow> bytes \<Rightarrow> (nat \<times> u32) \<times> nat \<times> response_fields option parse_outcome" where
  "expected_spec p c =
     (case response_spec (fst p) c of
        (mx, n, Got v) \<Rightarrow>
          if reply_has_id (snd p) v then (p, n, Got v)
          else (p, 0, Fail (mkRpcError INVALID_RESPONSE ''Mismatched response request id''))
      | (mx, n, Fail e) \<Rightarrow> (p, n, Fail e)
      | (mx, n, More) \<Rightarrow> (p, n, More))"

lemma response_spec_value:
  "response_spec mx c = (p, n, Got v) \<Longrightarrow> response_value mem r = v \<Longrightarrow> reply_has_id i v \<longleftrightarrow> rs_request_id r = i"
  by (auto simp: response_spec_def reply_has_id_def response_value_def split: if_splits)

lemma expected_spec_cases:
  assumes "expected_spec p c = (p', n, out)"
  obtains (same) "response_spec (fst p) c = (fst p, n, out)" "p' = p" "\<forall>v. out = Got v \<longrightarrow> reply_has_id (snd p) v"
  | (mismatch) k v where "response_spec (fst p) c = (fst p, k, Got v)" "\<not> reply_has_id (snd p) v"
      "p' = p" "n = 0" "out = Fail (mkRpcError INVALID_RESPONSE ''Mismatched response request id'')"
proof -
  obtain q k o' where s: "response_spec (fst p) c = (q, k, o')" by (cases "response_spec (fst p) c") auto
  then have q: "q = fst p" using spec_zero(2) by blast
  show ?thesis
  proof (cases "\<exists>v. o' = Got v \<and> \<not> reply_has_id (snd p) v")
    case True
    then obtain v where "o' = Got v" "\<not> reply_has_id (snd p) v" by blast
    then show ?thesis
      using assms s q by (intro mismatch [of k v]) (auto simp: expected_spec_def)
  next
    case False
    then have "p' = p \<and> n = k \<and> out = o'" using assms s by (cases o') (auto simp: expected_spec_def)
    then show ?thesis using s q False by (intro same) auto
  qed
qed

lemma expected_spec_same:
  "response_spec (fst p) c = (q, n, out) \<Longrightarrow> (\<forall>v. out = Got v \<longrightarrow> reply_has_id (snd p) v) \<Longrightarrow>
    expected_spec p c = (p, n, out)"
  by (cases out) (auto simp: expected_spec_def)

lemma expected_spec_got:
  assumes "expected_spec p c = (p', n, Got v)"
  shows "n \<le> length c \<and> expected_spec p (take n c @ d) = (p', n, Got v)"
  using assms
proof (cases rule: expected_spec_cases)
  case same
  then show ?thesis
    using response_spec_got [OF same(1)] expected_spec_same [of p "take n c @ d" "fst p" n "Got v"] by simp
qed simp

lemma expected_spec_fail:
  assumes "expected_spec p c = (p', n, Fail e)"
  shows "n \<le> length c \<and> (\<exists>p'' e'. expected_spec p (c @ d) = (p'', n, Fail e') \<and> err_code e' = err_code e)"
  using assms
proof (cases rule: expected_spec_cases)
  case same
  then show ?thesis
    using response_spec_fail [OF same(1)] expected_spec_same [of p "c @ d"] by fastforce
next
  case (mismatch k v)
  have "response_spec (fst p) (c @ d) = (fst p, k, Got v)"
    using response_spec_got(2) [OF mismatch(1), of "drop k c @ d"] by (simp flip: append_assoc)
  then show ?thesis using mismatch by (simp add: expected_spec_def)
qed

lemma expected_spec_more:
  assumes "expected_spec p c = (p', n, More)"
  shows "p' = p \<and> n = 0"
  using assms
proof (cases rule: expected_spec_cases)
  case same
  then show ?thesis using response_spec_more [OF same(1)] by simp
qed simp

lemma expected_spec_length: "expected_spec p c = (p', n, out) \<Longrightarrow> n \<le> length c"
  using expected_spec_more [of p c p' n] expected_spec_got [of p c p' n] expected_spec_fail [of p c p' n]
  by (cases out) blast+

sublocale ring_buffer \<subseteq> expected: ring_reader ops ring_inv "expected_parseFromRingBuffer en ops"
    "\<lambda>s. (max_message_size (xr_setting s), xr_expected_request_id s)" expected_spec
    "\<lambda>mem s. response_value mem (xr_response s)" "\<lambda>_. True"
  rewrites "(active (\<lambda>_. True) :: ('rb, ExpectedRead) ReadMachine \<Rightarrow> bool) = reading"
  for en
proof unfold_locales
  fix st :: "('rb, ExpectedRead) ReadState" and mem p' n out
  let ?rb = "r_ring_buffer st" and ?p = "max_message_size (xr_setting (r_self st))"
  let ?iovs = "rb_getReadIovecs ops ?rb" and ?c = "ring_content ops mem (r_ring_buffer st)"
  assume inv: "ring_inv ?rb" and spec: "expected_spec (?p, xr_expected_request_id (r_self st)) ?c = (p', n, out)"
  obtain q k o' where s: "response_spec ?p ?c = (q, k, o')" by (cases "response_spec ?p ?c") auto
  obtain r' where r': "tryParseResponseMessage en mem ?iovs (iovecsReadableBytes ?iovs) ?p (xr_response (r_self st)) =
      Some (parse_report (q, k, o'), r')" "case o' of Got v \<Rightarrow> response_value mem r' = v | _ \<Rightarrow> r' = xr_response (r_self st)"
    using tryParseResponseMessage_eq [OF read_ok [OF inv] segments [OF inv], of en mem ?p] s
    by (auto simp: ring_content_def)
  note z = spec_zero(2) [OF s]
  note c = consume_content [OF inv expected_spec_length [OF spec]]
  have nonempty: "o' \<noteq> More \<longrightarrow> 0 < rb_readable ops ?rb \<and> ?iovs \<noteq> []"
    using s spec_short length_content [OF inv, of mem]
    by (cases "length ?c < 16") (auto simp: ring_content_def)
  have hit: "reply_has_id i v \<longleftrightarrow> rs_request_id r' = i" if "o' = Got v" for i v
    using response_spec_value [of ?p ?c q k v mem r' i] s r'(2) that by simp
  show "\<exists>st'. expected_parseFromRingBuffer en ops mem st = Some (out \<noteq> More, st') \<and>
        ring_inv (r_ring_buffer st') \<and>
        (\<forall>mem'. ring_content ops mem' (r_ring_buffer st') = drop n (ring_content ops mem' ?rb)) \<and>
        ring_capacity ops (r_ring_buffer st') = ring_capacity ops ?rb \<and>
        (max_message_size (xr_setting (r_self st')), xr_expected_request_id (r_self st')) = p' \<and>
        r_error st' = (case out of Fail e \<Rightarrow> Some e | _ \<Rightarrow> r_error st) \<and>
        (case out of Got v \<Rightarrow> response_value mem (xr_response (r_self st')) = v | _ \<Rightarrow> True)"
  proof (cases o')
    case More
    then show ?thesis
      using r' z inv spec s by (auto simp: expected_parseFromRingBuffer_def expected_spec_def Let_def)
  next
    case (Got v)
    then show ?thesis
      using r' z c inv nonempty spec s hit [OF Got, of "xr_expected_request_id (r_self st)"]
      by (cases "reply_has_id (xr_expected_request_id (r_self st)) v")
         (auto simp: expected_parseFromRingBuffer_def setReadError_def expected_spec_def Let_def)
  next
    case (Fail e)
    then show ?thesis
      using r' z inv nonempty spec s
      by (auto simp: expected_parseFromRingBuffer_def setReadError_def expected_spec_def Let_def)
  qed
next
  fix p c p' n d assume "expected_spec p c = (p', n, More)"
  then show "n \<le> length c \<and> expected_spec p (c @ d) =
      (case expected_spec p' (drop n c @ d) of (p'', k, out) \<Rightarrow> (p'', n + k, out))"
    using expected_spec_more [of p c p' n] by (auto split: prod.splits)
next
  fix p c p' n v d assume "expected_spec p c = (p', n, Got v)"
  then show "n \<le> length c \<and> expected_spec p (take n c @ d) = (p', n, Got v)" by (rule expected_spec_got)
next
  fix p c p' n e d assume "expected_spec p c = (p', n, Fail e)"
  then show "n \<le> length c \<and> (\<exists>p'' e'. expected_spec p (c @ d) = (p'', n, Fail e') \<and> err_code e' = err_code e)"
    by (rule expected_spec_fail)
qed (simp_all add: active_True)

section \<open>Calls\<close>

text \<open>What the request of a call shows.\<close>

definition call_payload :: "memory \<Rightarrow> ptr \<Rightarrow> nat \<Rightarrow> bytes" where
  "call_payload mem payload len = (if payload \<noteq> Null \<and> len > 0 then deref mem payload len else [])"

definition call_fields :: "u32 \<Rightarrow> bytes \<Rightarrow> bytes \<Rightarrow> RpcCallMode \<Rightarrow> bool \<Rightarrow> bytes \<Rightarrow> request_fields" where
  "call_fields req_id service method mode end_of_stream data =
     \<lparr>qf_id = req_id, qf_mode = mode, qf_end = end_of_stream, qf_service = service, qf_method = method, qf_payload = data\<rparr>"

definition request_frame :: "request_fields \<Rightarrow> bytes" where
  "request_frame f = frame REQUEST (rpcEncodeFlags (qf_mode f) (qf_end f)) (qf_id f)
     (route_bytes (qf_service f) (qf_method f) @ qf_payload f)"

lemma request_value_wire:
  "request_value mem r = Some f \<Longrightarrow> view_ok (RpcRequest_payloadView r) \<and> request_wire mem r = request_frame f"
  by (auto simp: request_value_def request_wire_frame request_frame_def split: if_splits)

lemma call_request_value:
  assumes "ptr_ok payload payload_len"
  shows "\<exists>q. call_request mem req_id service method mode eos payload payload_len = Some q \<and>
    rq_request_id q = req_id \<and> rq_call_mode q = mode \<and> rq_service_name q = service \<and> rq_method_name q = method \<and>
    request_value mem q = Some (call_fields req_id service method mode eos (call_payload mem payload payload_len))"
  using assms
  by (auto simp: call_request_def call_payload_def call_fields_def RpcRequest_set_payload_def mkRpcRequest_def RpcRequest_init_def
      request_value_def RpcRequest_payloadView_def view_simps Let_def)

lemma check_reply_fields:
  assumes "response_value mem resp = Some g"
  shows "check_reply q resp =
    (if pf_id g = rq_request_id q \<and> pf_mode g = rq_call_mode q then Inr (Some resp)
     else Inl (mkRpcError INVALID_RESPONSE (if pf_id g = rq_request_id q then ''Mismatched response call mode''
                                            else ''Mismatched response request id'')))"
  using assms by (auto simp: check_reply_def response_value_def split: if_splits)

definition connected :: "'rb RpcClient \<Rightarrow> 'rb \<Rightarrow> bool" where
  "connected cl rb \<longleftrightarrow> cl_socket cl \<and> cl_ring_buffer cl = Some rb"

context ring_buffer
begin

lemma call_receives:
  assumes cl: "connected cl rb" "ring_inv rb" "ptr_ok payload payload_len"
    and g: "reply_fits (max_message_size (cc_reader_setting (cl_config cl))) g"
      "length (response_frame g) \<le> ring_capacity ops rb"
      "ring_content ops (nw_mem net) rb @ nw_stream net = response_frame g @ later"
    and io: "delivers wevs" "delivers revs" "length (response_frame g) \<le> length revs"
    and f: "f = call_fields (cl_request_id cl) service method mode eos (call_payload (nw_mem net) payload payload_len)"
      "length (request_frame f) \<le> length wevs"
  shows "\<exists>resp net' cl' rb'.
    callWithMode en ops sf service method mode eos payload payload_len (wevs, revs) net cl =
      Returned (if pf_id g = cl_request_id cl \<and> pf_mode g = mode then Inr (Some resp)
        else Inl (mkRpcError INVALID_RESPONSE (if pf_id g = cl_request_id cl then ''Mismatched response call mode''
                                               else ''Mismatched response request id''))) net' cl' \<and>
    response_value (nw_mem net') resp = Some g \<and> nw_wire net' = nw_wire net @ request_frame f \<and>
    cl' = cl\<lparr>cl_request_id := cl_request_id cl + 1, cl_ring_buffer := Some rb'\<rparr> \<and>
    ring_inv rb' \<and> ring_capacity ops rb' = ring_capacity ops rb \<and>
    ring_content ops (nw_mem net') rb' @ nw_stream net' = later"
proof -
  let ?conn = "\<lparr>cn_ring_buffer = rb, cn_reader_setting = cc_reader_setting (cl_config cl)\<rparr>"
  obtain q where q: "call_request (nw_mem net) (cl_request_id cl) service method mode eos payload payload_len = Some q"
      "rq_request_id q = cl_request_id cl" "rq_call_mode q = mode" "request_value (nw_mem net) q = Some f"
    using call_request_value [OF cl(3)] f(1) by blast
  note w = request_value_wire [OF q(4)]
  obtain wm where s: "send_run sf wevs (nw_mem net) (RpcRequestWriteState en q) (nw_wire net) =
      Finished (Inr True) (nw_mem net) wm (nw_wire net @ request_frame f)"
    using request_writer.send_completes [of q wevs "nw_mem net" sf en "nw_wire net"] w io f(2) by auto
  obtain mem' m' rest where r: "read_run ops (response_parseFromRingBuffer en ops) revs (nw_mem net)
        (getResponse ?conn RpcResponse_init) (nw_stream net) = Finished (Inr True) mem' m' rest"
      "response_value mem' (rss_response (machine_self m')) = Some g" "ring_inv (machine_ring m')"
      "ring_capacity ops (machine_ring m') = ring_capacity ops rb"
      "ring_content ops mem' (machine_ring m') @ rest = later"
    using response_frame_read [of ?conn g revs "nw_mem net" "nw_stream net" later en RpcResponse_init] cl g io by auto
  show ?thesis
    using cl(1) q s r check_reply_fields [OF r(2), of q]
    by (simp add: callWithMode_def connected_def Let_def) blast
qed

lemma expected_read:
  assumes "ring_inv rb" "reply_fits (max_message_size setting) g" "delivers evs"
    and "ring_content ops mem rb @ stream = response_frame g @ later"
    and "length (response_frame g) \<le> ring_capacity ops rb" "length stream \<le> length evs"
  shows "\<exists>mem' m' rest res. read_run ops (expected_parseFromRingBuffer en ops) evs mem
      (RecvRpcResponseChainAwaitable rb setting i r0) stream = Finished res mem' m' rest \<and>
    (if pf_id g = i
     then res = Inr True \<and> response_value mem' (xr_response (machine_self m')) = Some g \<and>
       ring_content ops mem' (machine_ring m') @ rest = later
     else (\<exists>e. res = Inl e \<and> err_code e = INVALID_RESPONSE) \<and>
       ring_content ops mem' (machine_ring m') @ rest = response_frame g @ later)"
proof -
  let ?m = "RecvRpcResponseChainAwaitable rb setting i r0" and ?mx = "max_message_size setting" and ?c = "ring_content ops mem rb"
  have m: "reading ?m" "machine_ring ?m = rb"
      "(max_message_size (xr_setting (machine_self ?m)), xr_expected_request_id (machine_self ?m)) = (?mx, i)"
    by (simp_all add: RecvRpcResponseChainAwaitable_def ExpectedRpcResponseReadState_def)
  have s: "response_spec ?mx (?c @ stream) = (?mx, length (response_frame g), Got (Some g))"
    using response_spec_wire [OF response_of_fits [OF assms(2)], of mem later] assms(4)
      response_value_wire [OF response_of_value [of mem g]] by simp
  have fit: "expected.fits (?mx, i) ?c stream (ring_capacity ops rb)"
    using response.fits_got [OF s assms(5)] unfolding response.fits_def expected.fits_def
    by (fastforce elim: expected_spec_cases)
  show ?thesis
  proof (cases "pf_id g = i")
    case True
    then have "expected_spec (?mx, i) (?c @ stream) = ((?mx, i), length (response_frame g), Got (Some g))"
      using s by (simp add: expected_spec_def reply_has_id_def)
    moreover have "length (response_frame g) \<le> length ?c + length evs"
      using arg_cong [OF assms(4), of length] assms(6) by simp
    ultimately show ?thesis
      using expected.read_complete [of ?m evs mem stream "(?mx, i)" "length (response_frame g)" "Some g" en] m fit assms True
      by auto
  next
    case False
    then have "expected_spec (?mx, i) (?c @ stream) =
        ((?mx, i), 0, Fail (mkRpcError INVALID_RESPONSE ''Mismatched response request id''))"
      using s by (simp add: expected_spec_def reply_has_id_def)
    from expected.read_fails [of ?m evs mem stream "(?mx, i)" 0 _ en, unfolded m, OF m(1) assms(1,3) this fit assms(6)]
    obtain mem' m' rest e where "read_run ops (expected_parseFromRingBuffer en ops) evs mem ?m stream = Finished (Inl e) mem' m' rest"
        "err_code e = INVALID_RESPONSE" "ring_content ops mem' (machine_ring m') @ rest = ?c @ stream"
      by (auto simp: mkRpcError_def)
    then show ?thesis using False assms(4) by auto
  qed
qed

end

section \<open>Session ids\<close>

fun create_streams :: "(bytes \<times> bytes) list \<Rightarrow> 'rb RpcClient \<Rightarrow> (RpcError + 'rb RpcStream) list \<times> 'rb RpcClient" where
  "create_streams [] cl = ([], cl)"
| "create_streams ((service, method) # routes) cl =
     (let (s, cl) = createStream service method cl; (ss, cl) = create_streams routes cl in (s # ss, cl))"

definition session_at :: "'rb \<Rightarrow> u32 \<Rightarrow> nat \<Rightarrow> bytes \<times> bytes \<Rightarrow> 'rb RpcStream" where
  "session_at rb first k route = mkRpcStream rb (first + of_nat k) (fst route) (snd route)"

lemma create_streams_ids:
  "connected cl rb \<Longrightarrow> create_streams routes cl =
    (map (\<lambda>k. Inr (session_at rb (cl_stream_id cl) k (routes ! k))) [0..<length routes],
     cl\<lparr>cl_stream_id := cl_stream_id cl + of_nat (length routes)\<rparr>)"
proof (induction routes arbitrary: cl)
  case (Cons route routes)
  obtain service meth where r: "route = (service, meth)" by fastforce
  let ?cl = "cl\<lparr>cl_stream_id := cl_stream_id cl + 1\<rparr>"
  have "connected ?cl rb" using Cons.prems by (simp add: connected_def)
  note ih = Cons.IH [OF this]
  have "[0..<length (route # routes)] = 0 # map Suc [0..<length routes]"
    by (simp add: map_Suc_upt upt_conv_Cons del: upt_Suc)
  then show ?case
    using Cons.prems ih r
    by (simp add: createStream_def createStream_id_def connected_def session_at_def Let_def add.assoc comp_def)
qed simp

lemma ids_distinct:
  assumes "n \<le> 2 ^ 32"
  shows "distinct (map (\<lambda>k. (a :: u32) + of_nat k) [0..<n])"
proof -
  have "(of_nat i :: u32) = of_nat j \<longleftrightarrow> i = j" if "i < n" "j < n" for i j
    using assms that by (simp add: word_of_nat_eq_iff take_bit_nat_eq_self)
  then show ?thesis by (auto simp: distinct_map inj_on_def)
qed

section \<open>Properties\<close>

text \<open>C17. A call sends one request and returns the reply to it. On a connected client the call sends exactly
  the frame of its request, under the next request id, and reads exactly one response, however the
  bytes are cut. It returns that response, all fields and payload intact, if it carries the id and the
  call mode of the request, and an INVALID_RESPONSE error otherwise; bytes behind the response are
  left for the next call, and the id counter moves on by one, modulo 2^32.\<close>

theorem call_returns_reply:
  assumes "ring_buffer ops ring_inv" "connected cl rb" "ring_inv rb" "ptr_ok payload payload_len"
    and "reply_fits (max_message_size (cc_reader_setting (cl_config cl))) g"
    and "length (response_frame g) \<le> ring_capacity ops rb"
    and "ring_content ops (nw_mem net) rb @ nw_stream net = response_frame g @ later"
    and "delivers wevs" "delivers revs" "length (response_frame g) \<le> length revs"
    and "f = call_fields (cl_request_id cl) service method mode eos (call_payload (nw_mem net) payload payload_len)"
    and "length (request_frame f) \<le> length wevs"
  shows "\<exists>res net' cl' rb'. callWithMode en ops sf service method mode eos payload payload_len (wevs, revs) net cl =
      Returned res net' cl' \<and>
    (if pf_id g = cl_request_id cl \<and> pf_mode g = mode
     then \<exists>resp. res = Inr (Some resp) \<and> response_value (nw_mem net') resp = Some g
     else \<exists>e. res = Inl e \<and> err_code e = INVALID_RESPONSE) \<and>
    nw_wire net' = nw_wire net @ request_frame f \<and> cl_request_id cl' = cl_request_id cl + 1 \<and>
    connected cl' rb' \<and> ring_inv rb' \<and> ring_content ops (nw_mem net') rb' @ nw_stream net' = later"
  using ring_buffer.call_receives [OF assms, of en sf] assms(2)
  by (auto simp: connected_def mkRpcError_def)

theorem call_returns_reply_witness:
  "\<exists>resp net' cl'. callWithMode Little circ_ops \<lparr>ioe_timeout = False, ioe_disconnect = False, ioe_message = []\<rparr>
      [69] [70] UNARY True (Buf [1, 2] 0) 2 (replicate 30 (Deliver 7), replicate 30 (Deliver 3))
      \<lparr>nw_mem = \<lambda>_. 0, nw_stream = response_frame \<lparr>pf_id = 0, pf_mode = UNARY, pf_end = True, pf_error = OK, pf_payload = [8]\<rparr>, nw_wire = []\<rparr>
      (client_connect mk_circ (mkRpcClient RpcClientConfig_init)) = Returned (Inr (Some resp)) net' cl' \<and>
    response_value (nw_mem net') resp = Some \<lparr>pf_id = 0, pf_mode = UNARY, pf_end = True, pf_error = OK, pf_payload = [8]\<rparr> \<and>
    cl_request_id cl' = 1"
proof -
  let ?g = "\<lparr>pf_id = 0, pf_mode = UNARY, pf_end = True, pf_error = OK, pf_payload = [8]\<rparr> :: response_fields"
  let ?cl = "client_connect mk_circ (mkRpcClient RpcClientConfig_init)"
  let ?net = "\<lparr>nw_mem = \<lambda>_. 0, nw_stream = response_frame ?g, nw_wire = []\<rparr> :: network"
  have cl: "connected ?cl (mk_circ 8192)" "cl_config ?cl = RpcClientConfig_init" "cl_request_id ?cl = 0"
    by (simp_all add: connected_def client_connect_def mkRpcClient_def RpcClientConfig_init_def kDefaultRpcRingBufferSize_def Let_def)
  have g: "reply_fits (max_message_size (cc_reader_setting (cl_config ?cl))) ?g" "length (response_frame ?g) = 19"
    unfolding cl by (simp_all add: reply_fits_def RpcClientConfig_init_def RpcReaderSetting_init_def max_body_eq response_frame_def
        named_errorcode_canonical named_errorcodes_def)
  have evs: "delivers (replicate 30 (Deliver 7))" "delivers (replicate 30 (Deliver 3))" by (simp_all add: delivers_def)
  have "length (request_frame (call_fields 0 [69] [70] UNARY True [1, 2])) = 24"
    by (simp add: request_frame_def call_fields_def)
  then show ?thesis
    using call_returns_reply [OF circ.ring_buffer_axioms cl(1) _ _ g(1) _ _ evs, of "Buf [1, 2] 0" 2 ?net "[]" _ "[69]" "[70]" UNARY True Little
        "\<lparr>ioe_timeout = False, ioe_disconnect = False, ioe_message = []\<rparr>"] g(2) cl
    by (fastforce simp: call_payload_def)
qed

text \<open>C37. A read that expects one request id takes only the response with that id. If the next response on the
  connection carries the id, the read delivers it and consumes it; otherwise it ends with
  INVALID_RESPONSE and leaves every byte of that response where it was, so that each further
  expecting read on the connection meets the same response again.\<close>

theorem expected_read_checks_id:
  assumes "ring_buffer ops ring_inv" "ring_inv rb" "reply_fits (max_message_size setting) g" "delivers evs"
    and "ring_content ops mem rb @ stream = response_frame g @ later"
    and "length (response_frame g) \<le> ring_capacity ops rb" "length stream \<le> length evs"
  shows "\<exists>mem' m' rest res. read_run ops (expected_parseFromRingBuffer en ops) evs mem
      (RecvRpcResponseChainAwaitable rb setting i r0) stream = Finished res mem' m' rest \<and>
    (if pf_id g = i
     then res = Inr True \<and> response_value mem' (xr_response (machine_self m')) = Some g \<and>
       ring_content ops mem' (machine_ring m') @ rest = later
     else (\<exists>e. res = Inl e \<and> err_code e = INVALID_RESPONSE) \<and>
       ring_content ops mem' (machine_ring m') @ rest = response_frame g @ later)"
  using ring_buffer.expected_read [OF assms] .

theorem expected_read_checks_id_witness:
  "\<exists>mem' m' rest e. read_run circ_ops (expected_parseFromRingBuffer Little circ_ops) (replicate 20 (Deliver 3)) (\<lambda>_. 0)
      (RecvRpcResponseChainAwaitable (mk_circ 40) RpcReaderSetting_init 5 RpcResponse_init)
      (response_frame \<lparr>pf_id = 4, pf_mode = UNARY, pf_end = True, pf_error = OK, pf_payload = [8]\<rparr>) =
      Finished (Inl e) mem' m' rest \<and> err_code e = INVALID_RESPONSE \<and>
    ring_content circ_ops mem' (machine_ring m') @ rest =
      response_frame \<lparr>pf_id = 4, pf_mode = UNARY, pf_end = True, pf_error = OK, pf_payload = [8]\<rparr>"
proof -
  let ?g = "\<lparr>pf_id = 4, pf_mode = UNARY, pf_end = True, pf_error = OK, pf_payload = [8]\<rparr> :: response_fields"
  have g: "reply_fits (max_message_size RpcReaderSetting_init) ?g" "length (response_frame ?g) = 19"
    by (simp_all add: reply_fits_def RpcReaderSetting_init_def max_body_eq response_frame_def
        named_errorcode_canonical named_errorcodes_def)
  have evs: "delivers (replicate 20 (Deliver 3))" by (simp add: delivers_def)
  show ?thesis
    using expected_read_checks_id [OF circ.ring_buffer_axioms _ g(1) evs, of "mk_circ 40" "\<lambda>_. 0" "response_frame ?g" "[]"
        Little 5 RpcResponse_init] g(2) by fastforce
qed

text \<open>A client that has not been connected sends nothing: every call and every stream creation ends with
  CONNECTION_CLOSED, and no request id is used up. After connect the client has a ring of a
  non-zero size and sessions can be created.\<close>

lemma client_needs_connect:
  "(\<exists>e. callWithMode en ops sf service method mode eos payload payload_len io net (mkRpcClient config) =
      Returned (Inl e) net (mkRpcClient config) \<and> err_code e = CONNECTION_CLOSED) \<and>
   (\<exists>e. fst (createStream service method (mkRpcClient config)) = Inl e \<and> err_code e = CONNECTION_CLOSED) \<and>
   (\<exists>n>0. connected (client_connect mk_ring cl) (mk_ring n) \<and>
      createStream_id i service method (client_connect mk_ring cl) = Inr (mkRpcStream (mk_ring n) i service method))"
proof -
  let ?n = "if cc_ring_buffer_size (cl_config cl) = 0 then kDefaultRpcRingBufferSize else cc_ring_buffer_size (cl_config cl)"
  have "?n > 0 \<and> connected (client_connect mk_ring cl) (mk_ring ?n) \<and>
      createStream_id i service method (client_connect mk_ring cl) = Inr (mkRpcStream (mk_ring ?n) i service method)"
    by (simp add: createStream_id_def client_connect_def connected_def kDefaultRpcRingBufferSize_def Let_def)
  then have "\<exists>n>0. connected (client_connect mk_ring cl) (mk_ring n) \<and>
      createStream_id i service method (client_connect mk_ring cl) = Inr (mkRpcStream (mk_ring n) i service method)" by blast
  then show ?thesis
    by (simp add: callWithMode_def mkRpcClient_def createStream_def createStream_id_def mkRpcError_def Let_def)
qed

text \<open>The stream sessions a client creates have consecutive ids, from the counter on, and up to 2^32 of
  them are pairwise distinct; each carries its own route and reads from the client's ring.\<close>

lemma session_ids_distinct:
  assumes "connected cl rb" "length routes \<le> 2 ^ 32"
  shows "\<exists>ss. fst (create_streams routes cl) = map Inr ss \<and> distinct (map rst_stream_id ss) \<and>
    map (\<lambda>s. (rst_service_name s, rst_method_name s)) ss = routes \<and> list_all (\<lambda>s. rst_ring_buffer s = rb) ss"
  unfolding create_streams_ids [OF assms(1)] using ids_distinct [OF assms(2), of "cl_stream_id cl"]
  by (intro exI [of _ "map (\<lambda>k. session_at rb (cl_stream_id cl) k (routes ! k)) [0..<length routes]"])
     (simp add: session_at_def mkRpcStream_def comp_def list_all_iff map_nth)

end
