(* ===== verification/Rpc_Service.thy ===== *)
theory Rpc_Service
  imports Rpc_Stream "HOL-Library.AList"
begin

text \<open>
  Model of \<^verbatim>\<open>src/galay-rpc/kernel/rpc_service.h\<close>: the three method registries of a service, their
  lookups, and the context a method is called with. An unordered map is an association list with
  distinct keys, in whatever order the map is iterated; a lookup does not depend on that order.

  Handlers are values of a type parameter \<open>'h\<close> (unary and frame-level streaming methods) and \<open>'s\<close>
  (stream sessions): the user's coroutines.
\<close>

section \<open>Registries\<close>

text \<open>One slot for each of the three streaming modes: the handler, if the mode is registered.\<close>

record 'h RpcMethodSlots =
  handlers :: "'h option list"
  registered :: "bool list"

definition kStreamRpcModeCount :: nat where
  "kStreamRpcModeCount = 3"

definition RpcMethodSlots_init :: "'h RpcMethodSlots" where
  "RpcMethodSlots_init = \<lparr>handlers = replicate kStreamRpcModeCount None, registered = [False, False, False]\<rparr>"

fun streamModeIndex :: "RpcCallMode \<Rightarrow> nat" where
  "streamModeIndex CLIENT_STREAMING = 0"
| "streamModeIndex SERVER_STREAMING = 1"
| "streamModeIndex BIDI_STREAMING = 2"
| "streamModeIndex UNARY = 0"

record ('h, 's) RpcService =
  sv_name :: bytes
  sv_unary_methods :: "(bytes \<times> 'h) list"
  sv_stream_methods :: "(bytes \<times> 'h RpcMethodSlots) list"
  sv_stream_session_methods :: "(bytes \<times> 's) list"

definition mkRpcService :: "bytes \<Rightarrow> ('h, 's) RpcService" where
  "mkRpcService name = \<lparr>sv_name = name, sv_unary_methods = [], sv_stream_methods = [], sv_stream_session_methods = []\<rparr>"

text \<open>The null pointer of a failed lookup is \<open>None\<close>.\<close>

definition findMethod_unary :: "bytes \<Rightarrow> ('h, 's) RpcService \<Rightarrow> 'h option" where
  "findMethod_unary method sv = map_of (sv_unary_methods sv) method"

definition findMethod :: "bytes \<Rightarrow> RpcCallMode \<Rightarrow> ('h, 's) RpcService \<Rightarrow> 'h option" where
  "findMethod method mode sv =
     (if mode = UNARY then findMethod_unary method sv
      else case map_of (sv_stream_methods sv) method of
          None \<Rightarrow> None
        | Some slots \<Rightarrow>
            (let mode_idx = streamModeIndex mode in
             if \<not> registered slots ! mode_idx then None
             else handlers slots ! mode_idx))"

definition findStreamMethod :: "bytes \<Rightarrow> ('h, 's) RpcService \<Rightarrow> 's option" where
  "findStreamMethod method sv = map_of (sv_stream_session_methods sv) method"

definition methodNames :: "('h, 's) RpcService \<Rightarrow> bytes list" where
  "methodNames sv =
     map fst (sv_unary_methods sv) @
     filter (\<lambda>name. map_of (sv_unary_methods sv) name = None) (map fst (sv_stream_methods sv)) @
     filter (\<lambda>name. map_of (sv_unary_methods sv) name = None \<and> map_of (sv_stream_methods sv) name = None)
       (map fst (sv_stream_session_methods sv))"

definition registerMethodByMode :: "bytes \<Rightarrow> RpcCallMode \<Rightarrow> 'h \<Rightarrow> ('h, 's) RpcService \<Rightarrow> ('h, 's) RpcService" where
  "registerMethodByMode name mode handler sv =
     (if mode = UNARY
      then sv\<lparr>sv_unary_methods := AList.update name handler (sv_unary_methods sv)\<rparr>
      else let slots = (case map_of (sv_stream_methods sv) name of
                          Some slots \<Rightarrow> slots | None \<Rightarrow> RpcMethodSlots_init);
               mode_idx = streamModeIndex mode;
               slots = slots\<lparr>handlers := (handlers slots)[mode_idx := Some handler],
                             registered := (registered slots)[mode_idx := True]\<rparr>
           in sv\<lparr>sv_stream_methods := AList.update name slots (sv_stream_methods sv)\<rparr>)"

definition registerUnaryMethod :: "bytes \<Rightarrow> 'h \<Rightarrow> ('h, 's) RpcService \<Rightarrow> ('h, 's) RpcService" where
  "registerUnaryMethod name handler = registerMethodByMode name UNARY handler"

definition registerMethod :: "bytes \<Rightarrow> 'h \<Rightarrow> ('h, 's) RpcService \<Rightarrow> ('h, 's) RpcService" where
  "registerMethod name handler = registerUnaryMethod name handler"

definition registerClientStreamingMethod :: "bytes \<Rightarrow> 'h \<Rightarrow> ('h, 's) RpcService \<Rightarrow> ('h, 's) RpcService" where
  "registerClientStreamingMethod name handler = registerMethodByMode name CLIENT_STREAMING handler"

definition registerServerStreamingMethod :: "bytes \<Rightarrow> 'h \<Rightarrow> ('h, 's) RpcService \<Rightarrow> ('h, 's) RpcService" where
  "registerServerStreamingMethod name handler = registerMethodByMode name SERVER_STREAMING handler"

definition registerBidiStreamingMethod :: "bytes \<Rightarrow> 'h \<Rightarrow> ('h, 's) RpcService \<Rightarrow> ('h, 's) RpcService" where
  "registerBidiStreamingMethod name handler = registerMethodByMode name BIDI_STREAMING handler"

definition registerStreamMethod :: "bytes \<Rightarrow> 's \<Rightarrow> ('h, 's) RpcService \<Rightarrow> ('h, 's) RpcService" where
  "registerStreamMethod name handler sv =
     sv\<lparr>sv_stream_session_methods := AList.update name handler (sv_stream_session_methods sv)\<rparr>"

text \<open>
  Member methods: a member function of the service class is wrapped into a handler by binding the
  service object \<open>self\<close>.
\<close>

definition registerMemberMethod :: "bytes \<Rightarrow> RpcCallMode \<Rightarrow> 'self \<Rightarrow> ('self \<Rightarrow> 'h) \<Rightarrow> ('h, 's) RpcService \<Rightarrow> ('h, 's) RpcService" where
  "registerMemberMethod name mode self method = registerMethodByMode name mode (method self)"

definition registerUnaryMethod_member :: "bytes \<Rightarrow> 'self \<Rightarrow> ('self \<Rightarrow> 'h) \<Rightarrow> ('h, 's) RpcService \<Rightarrow> ('h, 's) RpcService" where
  "registerUnaryMethod_member name self method = registerMemberMethod name UNARY self method"

definition registerMethod_member :: "bytes \<Rightarrow> 'self \<Rightarrow> ('self \<Rightarrow> 'h) \<Rightarrow> ('h, 's) RpcService \<Rightarrow> ('h, 's) RpcService" where
  "registerMethod_member name self method = registerUnaryMethod_member name self method"

definition registerClientStreamingMethod_member :: "bytes \<Rightarrow> 'self \<Rightarrow> ('self \<Rightarrow> 'h) \<Rightarrow> ('h, 's) RpcService \<Rightarrow> ('h, 's) RpcService" where
  "registerClientStreamingMethod_member name self method = registerMemberMethod name CLIENT_STREAMING self method"

definition registerServerStreamingMethod_member :: "bytes \<Rightarrow> 'self \<Rightarrow> ('self \<Rightarrow> 'h) \<Rightarrow> ('h, 's) RpcService \<Rightarrow> ('h, 's) RpcService" where
  "registerServerStreamingMethod_member name self method = registerMemberMethod name SERVER_STREAMING self method"

definition registerBidiStreamingMethod_member :: "bytes \<Rightarrow> 'self \<Rightarrow> ('self \<Rightarrow> 'h) \<Rightarrow> ('h, 's) RpcService \<Rightarrow> ('h, 's) RpcService" where
  "registerBidiStreamingMethod_member name self method = registerMemberMethod name BIDI_STREAMING self method"

definition registerStreamMethod_member :: "bytes \<Rightarrow> 'self \<Rightarrow> ('self \<Rightarrow> 's) \<Rightarrow> ('h, 's) RpcService \<Rightarrow> ('h, 's) RpcService" where
  "registerStreamMethod_member name self method sv =
     sv\<lparr>sv_stream_session_methods := AList.update name (method self) (sv_stream_session_methods sv)\<rparr>"

section \<open>The call context\<close>

record RpcContext =
  cx_request :: RpcRequest
  cx_response :: RpcResponse

definition cx_setError :: "RpcErrorCode \<Rightarrow> RpcContext \<Rightarrow> RpcContext" where
  "cx_setError code ctx = ctx\<lparr>cx_response := (cx_response ctx)\<lparr>rs_error_code := code\<rparr>\<rparr>"

definition cx_setPayload :: "memory \<Rightarrow> ptr \<Rightarrow> nat \<Rightarrow> RpcContext \<Rightarrow> RpcContext option" where
  "cx_setPayload mem data len ctx = do {
     response \<leftarrow> RpcResponse_set_payload mem data len (cx_response ctx);
     Some (ctx\<lparr>cx_response := response\<rparr>) }"

definition cx_setPayload_string :: "memory \<Rightarrow> bytes \<Rightarrow> RpcContext \<Rightarrow> RpcContext option" where
  "cx_setPayload_string mem data ctx = cx_setPayload mem (Buf data 0) (length data) ctx"

definition cx_setPayload_move :: "bytes \<Rightarrow> RpcContext \<Rightarrow> RpcContext" where
  "cx_setPayload_move data ctx = ctx\<lparr>cx_response := RpcResponse_set_payload_move data (cx_response ctx)\<rparr>"

definition cx_setPayload_view :: "RpcPayloadView \<Rightarrow> RpcContext \<Rightarrow> RpcContext" where
  "cx_setPayload_view v ctx = ctx\<lparr>cx_response := RpcResponse_set_payloadView v (cx_response ctx)\<rparr>"

section \<open>The registry contract\<close>

text \<open>
  Well-formed services: distinct keys, three slots for every streaming method, and a handler in
  every registered slot, at least one of them registered. Every registration keeps it.
\<close>

definition slots_ok :: "'h RpcMethodSlots \<Rightarrow> bool" where
  "slots_ok slots \<longleftrightarrow> length (handlers slots) = 3 \<and> length (registered slots) = 3 \<and>
     (\<forall>i<3. registered slots ! i \<longrightarrow> handlers slots ! i \<noteq> None)"

definition service_ok :: "('h, 's) RpcService \<Rightarrow> bool" where
  "service_ok sv \<longleftrightarrow> distinct (map fst (sv_unary_methods sv)) \<and> distinct (map fst (sv_stream_methods sv)) \<and>
     distinct (map fst (sv_stream_session_methods sv)) \<and> (\<forall>(n, slots) \<in> set (sv_stream_methods sv). slots_ok slots \<and> (\<exists>i<3. registered slots ! i))"

lemma streamModeIndex_less [simp]: "streamModeIndex mode < 3"
  by (cases mode) simp_all

lemma streamModeIndex_inj: "m \<noteq> UNARY \<Longrightarrow> m' \<noteq> UNARY \<Longrightarrow> streamModeIndex m = streamModeIndex m' \<longleftrightarrow> m = m'"
  by (cases m; cases m') simp_all

lemma slots_init_ok [simp]: "slots_ok RpcMethodSlots_init"
  by (simp add: slots_ok_def RpcMethodSlots_init_def kStreamRpcModeCount_def less_Suc_eq numeral_3_eq_3)

lemma slots_update_ok:
  "slots_ok slots \<Longrightarrow> slots_ok (slots\<lparr>handlers := (handlers slots)[streamModeIndex mode := Some h],
     registered := (registered slots)[streamModeIndex mode := True]\<rparr>)"
  by (auto simp: slots_ok_def nth_list_update)

lemma service_ok_slots: "service_ok sv \<Longrightarrow> map_of (sv_stream_methods sv) name = Some slots \<Longrightarrow> slots_ok slots"
  by (auto simp: service_ok_def dest: map_of_SomeD)

lemma mkRpcService_ok [simp]: "service_ok (mkRpcService name)"
  by (simp add: service_ok_def mkRpcService_def)

lemma set_update_alist: "(k, v) \<in> set (AList.update name x al) \<Longrightarrow> (k, v) \<in> set al \<or> v = x"
  by (induction al) (auto split: if_splits)

lemma registerMethodByMode_ok:
  assumes "service_ok sv"
  shows "service_ok (registerMethodByMode name mode handler sv)"
proof (cases "mode = UNARY")
  case True
  then show ?thesis using assms by (simp add: service_ok_def registerMethodByMode_def distinct_update)
next
  case False
  let ?slots = "case map_of (sv_stream_methods sv) name of Some slots \<Rightarrow> slots | None \<Rightarrow> RpcMethodSlots_init"
  have "slots_ok ?slots" using assms by (auto split: option.split dest: service_ok_slots)
  then have "slots_ok (?slots\<lparr>handlers := (handlers ?slots)[streamModeIndex mode := Some handler],
     registered := (registered ?slots)[streamModeIndex mode := True]\<rparr>)" by (rule slots_update_ok)
  moreover from \<open>slots_ok ?slots\<close> have "\<exists>i<3. (registered ?slots)[streamModeIndex mode := True] ! i"
    by (intro exI [of _ "streamModeIndex mode"]) (simp add: slots_ok_def)
  ultimately show ?thesis
    using False assms
    by (auto simp: service_ok_def registerMethodByMode_def Let_def distinct_update dest!: set_update_alist)
qed

lemma registerStreamMethod_ok: "service_ok sv \<Longrightarrow> service_ok (registerStreamMethod name handler sv)"
  by (simp add: service_ok_def registerStreamMethod_def distinct_update)

text \<open>
  A registry keyed by a route: what a lookup returns after a registration. The same contract holds
  of a service's own methods and of its stream sessions.
\<close>

locale method_registry =
  fixes ok :: "'r \<Rightarrow> bool"
    and look :: "'k \<Rightarrow> 'r \<Rightarrow> 'v option"
    and enter :: "'k \<Rightarrow> 'v \<Rightarrow> 'r \<Rightarrow> 'r"
  assumes enter_ok: "ok r \<Longrightarrow> ok (enter k v r)"
    and look_enter: "ok r \<Longrightarrow> look k' (enter k v r) = (if k' = k then Some v else look k' r)"
begin

text \<open>Registering a list of routes: the last registration of a route wins, the others are untouched.\<close>

lemma enter_all_ok: "ok r \<Longrightarrow> ok (foldl (\<lambda>r (k, v). enter k v r) r kvs)"
  by (induction kvs arbitrary: r) (auto simp: enter_ok split: prod.splits)

lemma look_enter_all:
  "ok r \<Longrightarrow> look k (foldl (\<lambda>r (k, v). enter k v r) r kvs) =
    (case map_of (rev kvs) k of Some v \<Rightarrow> Some v | None \<Rightarrow> look k r)"
proof (induction kvs arbitrary: r)
  case (Cons kv kvs)
  obtain k0 v0 where kv: "kv = (k0, v0)" by fastforce
  have "look k (foldl (\<lambda>r (k, v). enter k v r) (enter k0 v0 r) kvs) =
      (case map_of (rev kvs) k of Some v \<Rightarrow> Some v | None \<Rightarrow> look k (enter k0 v0 r))"
    using Cons.IH [of "enter k0 v0 r"] Cons.prems by (simp add: enter_ok)
  then show ?case
    using Cons.prems by (auto simp: kv look_enter map_add_def split: option.splits)
qed simp

end

lemma findMethod_register:
  assumes "service_ok sv"
  shows "findMethod m' mode' (registerMethodByMode m mode h sv) =
    (if m' = m \<and> mode' = mode then Some h else findMethod m' mode' sv)"
proof (cases "mode = UNARY")
  case True
  then show ?thesis
    by (auto simp: findMethod_def findMethod_unary_def registerMethodByMode_def update_conv')
next
  case False
  define slots where "slots = (case map_of (sv_stream_methods sv) m of
    Some slots \<Rightarrow> slots | None \<Rightarrow> RpcMethodSlots_init)"
  have ok: "slots_ok slots" using assms by (auto simp: slots_def split: option.split dest: service_ok_slots)
  have reg: "registerMethodByMode m mode h sv = sv\<lparr>sv_stream_methods := AList.update m
      (slots\<lparr>handlers := (handlers slots)[streamModeIndex mode := Some h],
             registered := (registered slots)[streamModeIndex mode := True]\<rparr>) (sv_stream_methods sv)\<rparr>"
    using False by (simp add: registerMethodByMode_def slots_def Let_def)
  have none: "\<not> registered slots ! streamModeIndex mode'" if "map_of (sv_stream_methods sv) m = None"
    using that by (cases mode') (auto simp: slots_def RpcMethodSlots_init_def)
  show ?thesis
  proof (cases "m' = m \<and> mode' \<noteq> UNARY")
    case True
    have idx: "streamModeIndex mode' < length (handlers slots)" "streamModeIndex mode' < length (registered slots)"
      using ok by (simp_all add: slots_ok_def)
    show ?thesis
      using True False none idx
      by (auto simp: reg findMethod_def update_conv' nth_list_update streamModeIndex_inj Let_def slots_def
          split: option.splits if_splits)
  next
    case other: False
    then show ?thesis
      using False by (auto simp: reg findMethod_def findMethod_unary_def update_conv' Let_def split: option.splits)
  qed
qed

interpretation methods: method_registry service_ok "\<lambda>(m, mode) sv. findMethod m mode sv"
    "\<lambda>(m, mode) h sv. registerMethodByMode m mode h sv"
  by unfold_locales (auto simp: registerMethodByMode_ok findMethod_register split: prod.splits)

interpretation sessions: method_registry service_ok findStreamMethod registerStreamMethod
  by unfold_locales
     (erule registerStreamMethod_ok, simp add: findStreamMethod_def registerStreamMethod_def update_conv')

lemma methodNames_set:
  "set (methodNames sv) = dom (map_of (sv_unary_methods sv)) \<union> dom (map_of (sv_stream_methods sv)) \<union>
    dom (map_of (sv_stream_session_methods sv))"
  by (auto simp: methodNames_def dom_map_of_conv_image_fst map_of_eq_None_iff)

section \<open>Properties\<close>

text \<open>C27. A method is found under exactly the route it was registered for. After any sequence of
  registrations on a new service, looking up a method name with a call mode gives the handler that
  was registered last under this name and this mode, and nothing when there is none: the four modes
  of one name never mix.\<close>

theorem service_lookup:
  "findMethod m mode (foldl (\<lambda>sv ((m, mode), h). registerMethodByMode m mode h sv) (mkRpcService name) regs) =
    map_of (rev regs) (m, mode)"
proof -
  have "findMethod m mode (mkRpcService name) = None"
    by (simp add: findMethod_def findMethod_unary_def mkRpcService_def)
  moreover have reg: "foldl (\<lambda>sv ((m, mode), h). registerMethodByMode m mode h sv) (mkRpcService name) regs =
      foldl (\<lambda>r (k, v). (case k of (m, mode) \<Rightarrow> \<lambda>h sv. registerMethodByMode m mode h sv) v r) (mkRpcService name) regs"
    by (rule foldl_cong) auto
  ultimately show ?thesis
    unfolding reg using methods.look_enter_all [of "mkRpcService name" "(m, mode)" regs] by (auto split: option.splits)
qed

lemma stream_method_registered:
  assumes "service_ok sv"
  shows "map_of (sv_stream_methods sv) m \<noteq> None \<longleftrightarrow> (\<exists>mode. mode \<noteq> UNARY \<and> findMethod m mode sv \<noteq> None)"
proof
  assume "map_of (sv_stream_methods sv) m \<noteq> None"
  then obtain slots where s: "map_of (sv_stream_methods sv) m = Some slots" by auto
  then obtain i where i: "i < 3" "registered slots ! i" and ok: "slots_ok slots"
    using assms by (auto simp: service_ok_def dest!: map_of_SomeD)
  have "i = 0 \<or> i = 1 \<or> i = 2" using i(1) by linarith
  then obtain mode where "mode \<noteq> UNARY" "streamModeIndex mode = i"
    using streamModeIndex.simps(1-3) RpcCallMode.distinct by metis
  then show "\<exists>mode. mode \<noteq> UNARY \<and> findMethod m mode sv \<noteq> None"
    using s i ok by (intro exI [of _ mode]) (auto simp: findMethod_def slots_ok_def)
qed (auto simp: findMethod_def split: option.splits)

text \<open>The list of method names of a service names exactly the methods that can be found, in some call
  mode or as a stream session, and each of them once.\<close>

lemma service_method_names:
  assumes "service_ok sv"
  shows "distinct (methodNames sv) \<and>
    (m \<in> set (methodNames sv) \<longleftrightarrow> (\<exists>mode. findMethod m mode sv \<noteq> None) \<or> findStreamMethod m sv \<noteq> None)"
proof
  show "distinct (methodNames sv)"
    using assms by (auto simp: methodNames_def service_ok_def map_of_eq_None_iff)
  have "map_of (sv_unary_methods sv) m \<noteq> None \<longleftrightarrow> findMethod m UNARY sv \<noteq> None"
    by (simp add: findMethod_def findMethod_unary_def)
  then show "m \<in> set (methodNames sv) \<longleftrightarrow> (\<exists>mode. findMethod m mode sv \<noteq> None) \<or> findStreamMethod m sv \<noteq> None"
    using stream_method_registered [OF assms, of m]
    by (auto simp: methodNames_set findStreamMethod_def) (metis option.simps(3))+
qed

end
