(* ===== verification/Rpc_Route.thy ===== *)
theory Rpc_Route
  imports Rpc_Service
begin

text \<open>
  The request routing of \<^verbatim>\<open>src/galay-rpc/kernel/rpc_server.h\<close>: the FNV route hash, the per-connection
  route cache and the resolution through the service registry. The main fact is that the cache is
  transparent: it never changes which handler a request gets.

  A handler pointer is modelled by the handler it points to, a null pointer by \<open>None\<close>: the registries
  are filled before the server starts and are not changed while a connection is served.
\<close>

section \<open>The route hash\<close>

definition kFnvOffset :: u64 where
  "kFnvOffset = 1469598103934665603"

definition kFnvPrime :: u64 where
  "kFnvPrime = 1099511628211"

fun hashAppend :: "u64 \<Rightarrow> bytes \<Rightarrow> u64" where
  "hashAppend hash [] = hash"
| "hashAppend hash (ch # str) = hashAppend (xor hash (ucast ch) * kFnvPrime) str"

definition buildRouteHash :: "bytes \<Rightarrow> bytes \<Rightarrow> RpcCallMode \<Rightarrow> u64" where
  "buildRouteHash service_name method_name call_mode = (
     let hash = kFnvOffset;
         hash = hashAppend hash service_name;
         hash = xor hash 0xff;
         hash = hash * kFnvPrime;
         hash = hashAppend hash method_name;
         hash = xor hash (ucast (callmode_to_u8 call_mode));
         hash = hash * kFnvPrime
     in hash)"

section \<open>Cache entries\<close>

text \<open>A cached \<^verbatim>\<open>std::string\<close>: its contents and its capacity.\<close>

record cached_string =
  cs_value :: bytes
  cs_capacity :: nat

record 'h RouteCacheEntry =
  rc_route_hash :: u64
  rc_service_name :: cached_string
  rc_method_name :: cached_string
  rc_call_mode :: RpcCallMode
  rc_handler :: "'h option"

definition kRouteCacheSize :: nat where
  "kRouteCacheSize = 8"

definition kRouteStringReserve :: nat where
  "kRouteStringReserve = 32"

definition routeCacheHit :: "'h RouteCacheEntry \<Rightarrow> RpcRequest \<Rightarrow> u64 \<Rightarrow> bool" where
  "routeCacheHit entry request route_hash \<longleftrightarrow>
     rc_handler entry \<noteq> None \<and>
     rc_route_hash entry = route_hash \<and>
     rc_call_mode entry = rq_call_mode request \<and>
     cs_value (rc_service_name entry) = rq_service_name request \<and>
     cs_value (rc_method_name entry) = rq_method_name request"

definition routeCacheKeyMatch :: "'h RouteCacheEntry \<Rightarrow> RpcRequest \<Rightarrow> u64 \<Rightarrow> bool" where
  "routeCacheKeyMatch entry request route_hash \<longleftrightarrow>
     rc_route_hash entry = route_hash \<and>
     rc_call_mode entry = rq_call_mode request \<and>
     cs_value (rc_service_name entry) = rq_service_name request \<and>
     cs_value (rc_method_name entry) = rq_method_name request"

text \<open>
  The loop that doubles the target capacity, on 64-bit sizes. \<open>None\<close> is a loop that is still running
  after \<open>fuel\<close> rounds; 64 rounds are enough for every length up to \<open>2 ^ 63\<close> (\<open>grow_enough\<close>).
\<close>

fun growCapacity :: "nat \<Rightarrow> nat \<Rightarrow> nat \<Rightarrow> nat option" where
  "growCapacity fuel target_capacity n =
     (if target_capacity < n
      then (case fuel of 0 \<Rightarrow> None | Suc fuel' \<Rightarrow> growCapacity fuel' (target_capacity * 2 mod 2 ^ 64) n)
      else Some target_capacity)"

definition assignCachedString :: "cached_string \<Rightarrow> bytes \<Rightarrow> cached_string option" where
  "assignCachedString cache_value incoming =
     (if cs_value cache_value = incoming then Some cache_value
      else do {
        capacity \<leftarrow>
          (if cs_capacity cache_value < length incoming
           then do {
             let target_capacity = (if cs_capacity cache_value = 0 then kRouteStringReserve else cs_capacity cache_value);
             target_capacity \<leftarrow> growCapacity 64 target_capacity (length incoming);
             Some (max (cs_capacity cache_value) target_capacity) }
           else Some (cs_capacity cache_value));
        Some \<lparr>cs_value = incoming, cs_capacity = capacity\<rparr> })"

section \<open>The cache of a connection\<close>

text \<open>The three locals of \<^verbatim>\<open>handleConnection\<close>; \<open>last_hit\<close> is the index of the entry it points to.\<close>

record 'h route_cache =
  rt_entries :: "'h RouteCacheEntry list"
  rt_cursor :: nat
  rt_last_hit :: "nat option"

definition RouteCacheEntry_init :: "'h RouteCacheEntry" where
  "RouteCacheEntry_init =
     \<lparr>rc_route_hash = 0, rc_service_name = \<lparr>cs_value = [], cs_capacity = kRouteStringReserve\<rparr>,
      rc_method_name = \<lparr>cs_value = [], cs_capacity = kRouteStringReserve\<rparr>,
      rc_call_mode = UNARY, rc_handler = None\<rparr>"

definition route_cache_init :: "'h route_cache" where
  "route_cache_init =
     \<lparr>rt_entries = replicate kRouteCacheSize RouteCacheEntry_init, rt_cursor = 0, rt_last_hit = None\<rparr>"

fun find_index :: "('a \<Rightarrow> bool) \<Rightarrow> 'a list \<Rightarrow> nat option" where
  "find_index P [] = None"
| "find_index P (x # xs) = (if P x then Some 0 else map_option Suc (find_index P xs))"

definition findCachedHandler :: "RpcRequest \<Rightarrow> u64 \<Rightarrow> 'h route_cache \<Rightarrow> 'h option \<times> 'h route_cache" where
  "findCachedHandler request route_hash c =
     (case rt_last_hit c of
        Some i \<Rightarrow>
          (if routeCacheHit (rt_entries c ! i) request route_hash
           then (rc_handler (rt_entries c ! i), c)
           else case find_index (\<lambda>entry. routeCacheHit entry request route_hash) (rt_entries c) of
               Some j \<Rightarrow> (rc_handler (rt_entries c ! j), c\<lparr>rt_last_hit := Some j\<rparr>)
             | None \<Rightarrow> (None, c))
      | None \<Rightarrow>
          (case find_index (\<lambda>entry. routeCacheHit entry request route_hash) (rt_entries c) of
             Some j \<Rightarrow> (rc_handler (rt_entries c ! j), c\<lparr>rt_last_hit := Some j\<rparr>)
           | None \<Rightarrow> (None, c)))"

definition updateRouteCache :: "RpcRequest \<Rightarrow> u64 \<Rightarrow> 'h \<Rightarrow> 'h route_cache \<Rightarrow> 'h route_cache option" where
  "updateRouteCache request route_hash handler c =
     (case find_index (\<lambda>entry. routeCacheKeyMatch entry request route_hash) (rt_entries c) of
        Some i \<Rightarrow> Some (c\<lparr>rt_entries := (rt_entries c)[i := (rt_entries c ! i)\<lparr>rc_handler := Some handler\<rparr>],
                          rt_last_hit := Some i\<rparr>)
      | None \<Rightarrow> do {
          let slot = rt_entries c ! rt_cursor c;
          service \<leftarrow> assignCachedString (rc_service_name slot) (rq_service_name request);
          method \<leftarrow> assignCachedString (rc_method_name slot) (rq_method_name request);
          let slot = slot\<lparr>rc_route_hash := route_hash, rc_service_name := service, rc_method_name := method,
                          rc_call_mode := rq_call_mode request, rc_handler := Some handler\<rparr>;
          Some \<lparr>rt_entries = (rt_entries c)[rt_cursor c := slot],
                rt_cursor = (rt_cursor c + 1) mod kRouteCacheSize,
                rt_last_hit = Some (rt_cursor c)\<rparr> })"

text \<open>The service registry of the server.\<close>

type_synonym ('h, 's) services = "(bytes \<times> ('h, 's) RpcService) list"

definition registerService :: "('h, 's) RpcService \<Rightarrow> ('h, 's) services \<Rightarrow> ('h, 's) services" where
  "registerService service services = AList.update (sv_name service) service services"

definition resolveMethodHandler :: "('h, 's) services \<Rightarrow> RpcRequest \<Rightarrow> RpcErrorCode + 'h" where
  "resolveMethodHandler services request =
     (case map_of services (rq_service_name request) of
        None \<Rightarrow> Inl SERVICE_NOT_FOUND
      | Some service \<Rightarrow>
          (case findMethod (rq_method_name request) (rq_call_mode request) service of
             None \<Rightarrow> Inl METHOD_NOT_FOUND
           | Some handler \<Rightarrow> Inr handler))"

text \<open>The routing block of \<^verbatim>\<open>handleConnection\<close>: the cache first, then the registry.\<close>

definition route_request ::
  "('h, 's) services \<Rightarrow> RpcRequest \<Rightarrow> 'h route_cache \<Rightarrow> ((RpcErrorCode + 'h) \<times> 'h route_cache) option" where
  "route_request services request c = (
     let route_hash = buildRouteHash (rq_service_name request) (rq_method_name request) (rq_call_mode request);
         (handler, c) = findCachedHandler request route_hash c
     in case handler of
          Some h \<Rightarrow> Some (Inr h, c)
        | None \<Rightarrow>
            (case resolveMethodHandler services request of
               Inl code \<Rightarrow> Some (Inl code, c)
             | Inr h \<Rightarrow> do { c \<leftarrow> updateRouteCache request route_hash h c; Some (Inr h, c) }))"

section \<open>Transparency\<close>

lemma grow_enough_steps:
  "0 < t \<Longrightarrow> n \<le> t * 2 ^ k \<Longrightarrow> k \<le> fuel \<Longrightarrow> n \<le> 2 ^ 63 \<Longrightarrow> \<exists>c. growCapacity fuel t n = Some c \<and> n \<le> c"
proof (induction k arbitrary: t fuel)
  case (Suc k)
  show ?case
  proof (cases "t < n")
    case True
    obtain fuel' where f: "fuel = Suc fuel'" "k \<le> fuel'" using Suc.prems(3) by (cases fuel) auto
    have "t * 2 mod 2 ^ 64 = t * 2" using True Suc.prems(4) by (intro mod_less) simp
    moreover have "\<exists>c. growCapacity fuel' (t * 2) n = Some c \<and> n \<le> c"
      using Suc.prems f by (intro Suc.IH) (simp_all add: mult.assoc)
    ultimately show ?thesis using True f by simp
  qed simp
qed simp

lemma grow_enough:
  assumes "0 < t" "n \<le> 2 ^ 63"
  shows "\<exists>c. growCapacity 64 t n = Some c \<and> n \<le> c"
proof -
  have "n \<le> t * 2 ^ 63" using assms by (cases t) simp_all
  then show ?thesis using assms by (intro grow_enough_steps [where k = 63]) simp_all
qed

lemma assignCachedString_ok:
  assumes "length incoming \<le> 2 ^ 63"
  shows "\<exists>s. assignCachedString cv incoming = Some s \<and> cs_value s = incoming \<and>
    (length (cs_value cv) \<le> cs_capacity cv \<longrightarrow> length incoming \<le> cs_capacity s)"
proof -
  let ?t = "if cs_capacity cv = 0 then kRouteStringReserve else cs_capacity cv"
  have "0 < ?t" by (simp add: kRouteStringReserve_def)
  then obtain c where "growCapacity 64 ?t (length incoming) = Some c" "length incoming \<le> c"
    using grow_enough assms by blast
  then show ?thesis
    by (auto simp: assignCachedString_def Let_def simp del: growCapacity.simps)
qed

lemma find_index_Some: "find_index P xs = Some i \<Longrightarrow> i < length xs \<and> P (xs ! i)"
  by (induction xs arbitrary: i) (auto split: if_splits)

lemma find_index_None: "find_index P xs = None \<longleftrightarrow> (\<forall>x \<in> set xs. \<not> P x)"
  by (induction xs) auto

definition entry_route :: "'h RouteCacheEntry \<Rightarrow> RpcRequest" where
  "entry_route e = RpcRequest_init\<lparr>rq_service_name := cs_value (rc_service_name e),
     rq_method_name := cs_value (rc_method_name e), rq_call_mode := rc_call_mode e\<rparr>"

text \<open>
  The cache invariant: eight entries, the cursor and the last hit among them, every string within
  its capacity, and every entry that has a handler has the one its route resolves to.
\<close>

definition entry_ok :: "('h, 's) services \<Rightarrow> 'h RouteCacheEntry \<Rightarrow> bool" where
  "entry_ok services e \<longleftrightarrow>
     length (cs_value (rc_service_name e)) \<le> cs_capacity (rc_service_name e) \<and>
     length (cs_value (rc_method_name e)) \<le> cs_capacity (rc_method_name e) \<and>
     (\<forall>h. rc_handler e = Some h \<longrightarrow> resolveMethodHandler services (entry_route e) = Inr h)"

definition cache_ok :: "('h, 's) services \<Rightarrow> 'h route_cache \<Rightarrow> bool" where
  "cache_ok services c \<longleftrightarrow>
     length (rt_entries c) = kRouteCacheSize \<and> rt_cursor c < kRouteCacheSize \<and>
     (case rt_last_hit c of None \<Rightarrow> True | Some i \<Rightarrow> i < kRouteCacheSize) \<and>
     (\<forall>e \<in> set (rt_entries c). entry_ok services e)"

lemma resolve_cong:
  "rq_service_name r = rq_service_name q \<Longrightarrow> rq_method_name r = rq_method_name q \<Longrightarrow> rq_call_mode r = rq_call_mode q \<Longrightarrow>
    resolveMethodHandler services r = resolveMethodHandler services q"
  by (simp add: resolveMethodHandler_def cong: option.case_cong)

lemma entry_route_sel [simp]:
  "rq_service_name (entry_route e) = cs_value (rc_service_name e)"
  "rq_method_name (entry_route e) = cs_value (rc_method_name e)"
  "rq_call_mode (entry_route e) = rc_call_mode e"
  by (simp_all add: entry_route_def)

lemma hit_resolves:
  assumes "entry_ok services e" "routeCacheHit e r hash"
  obtains h where "rc_handler e = Some h" "resolveMethodHandler services r = Inr h"
proof -
  obtain h where h: "rc_handler e = Some h" using assms(2) by (auto simp: routeCacheHit_def)
  then have "resolveMethodHandler services (entry_route e) = Inr h"
    using assms(1) by (simp add: entry_ok_def)
  moreover have "resolveMethodHandler services r = resolveMethodHandler services (entry_route e)"
    using assms(2) by (intro resolve_cong) (auto simp: routeCacheHit_def)
  ultimately show ?thesis using that h by simp
qed

lemma route_cache_init_ok [simp]: "cache_ok services route_cache_init"
  by (simp add: cache_ok_def route_cache_init_def entry_ok_def RouteCacheEntry_init_def kRouteCacheSize_def)

lemma findCachedHandler_ok:
  assumes "cache_ok services c"
  shows "\<exists>h c'. findCachedHandler r hash c = (h, c') \<and> cache_ok services c' \<and> rt_entries c' = rt_entries c \<and>
    (\<forall>x. h = Some x \<longrightarrow> resolveMethodHandler services r = Inr x)"
proof -
  let ?hit = "\<lambda>e. routeCacheHit e r hash"
  have len: "length (rt_entries c) = kRouteCacheSize" using assms by (simp add: cache_ok_def)
  have res: "resolveMethodHandler services r = Inr x"
    if "i < kRouteCacheSize" "?hit (rt_entries c ! i)" "rc_handler (rt_entries c ! i) = Some x" for i x
    using hit_resolves [of services "rt_entries c ! i" r hash] that assms len by (auto simp: cache_ok_def)
  have scan: "j < kRouteCacheSize \<and> ?hit (rt_entries c ! j)" if "find_index ?hit (rt_entries c) = Some j" for j
    using find_index_Some [OF that] len by simp
  show ?thesis
    using assms res scan
    by (auto simp: findCachedHandler_def cache_ok_def split: option.splits)
qed

lemma updateRouteCache_ok:
  assumes "cache_ok services c" "resolveMethodHandler services r = Inr h"
    and "length (rq_service_name r) \<le> 2 ^ 63" "length (rq_method_name r) \<le> 2 ^ 63"
  shows "\<exists>c'. updateRouteCache r hash h c = Some c' \<and> cache_ok services c'"
proof (cases "find_index (\<lambda>e. routeCacheKeyMatch e r hash) (rt_entries c)")
  case (Some i)
  let ?e = "rt_entries c ! i"
  have i: "i < kRouteCacheSize" "routeCacheKeyMatch ?e r hash"
    using find_index_Some [OF Some] assms(1) by (auto simp: cache_ok_def)
  have "resolveMethodHandler services (entry_route (?e\<lparr>rc_handler := Some h\<rparr>)) = resolveMethodHandler services r"
    using i by (intro resolve_cong) (auto simp: routeCacheKeyMatch_def)
  moreover have "entry_ok services ?e" using assms(1) i by (simp add: cache_ok_def)
  ultimately have "entry_ok services (?e\<lparr>rc_handler := Some h\<rparr>)"
    using assms(2) by (simp add: entry_ok_def)
  then show ?thesis
    using Some i assms(1) set_update_subset_insert [of "rt_entries c" i]
    by (fastforce simp: updateRouteCache_def cache_ok_def)
next
  case None
  let ?e = "rt_entries c ! rt_cursor c"
  have e: "entry_ok services ?e" using assms(1) by (simp add: cache_ok_def)
  obtain s where s: "assignCachedString (rc_service_name ?e) (rq_service_name r) = Some s" "cs_value s = rq_service_name r"
      "length (rq_service_name r) \<le> cs_capacity s"
    using assignCachedString_ok [OF assms(3), of "rc_service_name ?e"] e by (auto simp: entry_ok_def)
  obtain m where m: "assignCachedString (rc_method_name ?e) (rq_method_name r) = Some m" "cs_value m = rq_method_name r"
      "length (rq_method_name r) \<le> cs_capacity m"
    using assignCachedString_ok [OF assms(4), of "rc_method_name ?e"] e by (auto simp: entry_ok_def)
  let ?slot = "?e\<lparr>rc_route_hash := hash, rc_service_name := s, rc_method_name := m,
    rc_call_mode := rq_call_mode r, rc_handler := Some h\<rparr>"
  have "resolveMethodHandler services (entry_route ?slot) = resolveMethodHandler services r"
    using s m by (intro resolve_cong) auto
  then have "entry_ok services ?slot" using s m assms(2) by (simp add: entry_ok_def)
  then show ?thesis
    using None s m assms(1) set_update_subset_insert [of "rt_entries c" "rt_cursor c"]
    by (fastforce simp: updateRouteCache_def cache_ok_def kRouteCacheSize_def)
qed

text \<open>Requests one after the other, each with the cache the previous one left.\<close>

fun thread :: "('q \<Rightarrow> 'c \<Rightarrow> ('a \<times> 'c) option) \<Rightarrow> 'q list \<Rightarrow> 'c \<Rightarrow> ('a list \<times> 'c) option" where
  "thread f [] c = Some ([], c)"
| "thread f (q # qs) c = do { (a, c) \<leftarrow> f q c; (as, c) \<leftarrow> thread f qs c; Some (a # as, c) }"

text \<open>
  A cache in front of a lookup: it answers as the lookup does and stays a cache. What a client may
  conclude from this alone is that any sequence of lookups is answered as without the cache.
\<close>

locale transparent_cache =
  fixes inv :: "'c \<Rightarrow> bool"
    and good :: "'q \<Rightarrow> bool"
    and cached :: "'q \<Rightarrow> 'c \<Rightarrow> ('a \<times> 'c) option"
    and direct :: "'q \<Rightarrow> 'a"
  assumes cached_law: "inv c \<Longrightarrow> good q \<Longrightarrow> \<exists>c'. cached q c = Some (direct q, c') \<and> inv c'"
begin

lemma thread_direct:
  "inv c \<Longrightarrow> list_all good qs \<Longrightarrow> \<exists>c'. thread cached qs c = Some (map direct qs, c') \<and> inv c'"
proof (induction qs arbitrary: c)
  case (Cons q qs)
  then obtain c' where "cached q c = Some (direct q, c')" "inv c'" using cached_law [of c q] by auto
  then show ?case using Cons.IH [of c'] Cons.prems by auto
qed simp

end

definition route_names_ok :: "RpcRequest \<Rightarrow> bool" where
  "route_names_ok r \<longleftrightarrow> length (rq_service_name r) \<le> 2 ^ 63 \<and> length (rq_method_name r) \<le> 2 ^ 63"

lemma route_request_ok:
  assumes "cache_ok services c" "route_names_ok r"
  shows "\<exists>c'. route_request services r c = Some (resolveMethodHandler services r, c') \<and> cache_ok services c'"
proof -
  let ?hash = "buildRouteHash (rq_service_name r) (rq_method_name r) (rq_call_mode r)"
  obtain h c1 where f: "findCachedHandler r ?hash c = (h, c1)" "cache_ok services c1"
      "\<forall>x. h = Some x \<longrightarrow> resolveMethodHandler services r = Inr x"
    using findCachedHandler_ok [OF assms(1)] by blast
  show ?thesis
  proof (cases h)
    case (Some x)
    then show ?thesis using f by (simp add: route_request_def Let_def)
  next
    case None
    show ?thesis
    proof (cases "resolveMethodHandler services r")
      case (Inl code)
      then show ?thesis using f None by (simp add: route_request_def Let_def)
    next
      case (Inr x)
      then show ?thesis
        using f None updateRouteCache_ok [OF f(2) Inr, of ?hash] assms(2)
        by (auto simp: route_request_def route_names_ok_def Let_def)
    qed
  qed
qed

interpretation cached_routes: transparent_cache "cache_ok services" route_names_ok "route_request services"
    "resolveMethodHandler services" for services
  by unfold_locales (rule route_request_ok)

section \<open>Properties\<close>

text \<open>C13. The route cache is transparent. Starting from the empty cache of a new connection, every request of
  every sequence is routed exactly as the registry routes it: to the handler registered for its
  service, method and call mode, or to SERVICE_NOT_FOUND or METHOD_NOT_FOUND; neither evictions nor
  the last-hit shortcut nor hash collisions ever change the answer, and every lookup terminates.\<close>

theorem route_cache_transparent:
  assumes "list_all route_names_ok requests"
  shows "\<exists>c. thread (route_request services) requests route_cache_init =
      Some (map (resolveMethodHandler services) requests, c) \<and> cache_ok services c"
  using cached_routes.thread_direct [OF route_cache_init_ok assms] .

theorem route_cache_transparent_witness:
  "\<exists>c. thread (route_request (registerService (registerUnaryMethod [70] (1 :: nat) (mkRpcService [69])) [] :: (nat, unit) services))
      [mkRpcRequest 1 [69] [70], mkRpcRequest 2 [69] [71], mkRpcRequest 3 [69] [70]] route_cache_init =
    Some ([Inr 1, Inl METHOD_NOT_FOUND, Inr 1], c)"
proof -
  let ?rs = "[mkRpcRequest 1 [69] [70], mkRpcRequest 2 [69] [71], mkRpcRequest 3 [69] [70]]"
  let ?sv = "registerService (registerUnaryMethod [70] (1 :: nat) (mkRpcService [69])) [] :: (nat, unit) services"
  have eq: "map (resolveMethodHandler ?sv) ?rs = [Inr 1, Inl METHOD_NOT_FOUND, Inr 1]" by code_simp
  have "list_all route_names_ok ?rs" by (simp add: route_names_ok_def mkRpcRequest_def)
  from route_cache_transparent [OF this, of ?sv] show ?thesis unfolding eq by blast
qed

end
