(* ===== verification/Rpc_Server.thy ===== *)
theory Rpc_Server
  imports Rpc_Route
begin

text \<open>
  Model of \<^verbatim>\<open>src/galay-rpc/kernel/rpc_server.h\<close> and of \<^verbatim>\<open>src/galay-rpc/utils/runtime_compat.h\<close>: configuration and
  builder, start and stop, the accept loop and the loop that serves one connection.

  Of the kernel's runtime only the calls are kept, in order. A coroutine loop runs over a list of
  rounds, each with the results of the awaited operations of that round; the list ends when the
  running flag is found cleared. User handlers are values of a type parameter, and \<open>run\<close> is what
  calling one does to the context, \<open>None\<close> if it meets undefined behaviour.
\<close>

section \<open>Configuration\<close>

definition resolveIoSchedulerCount :: "nat \<Rightarrow> nat \<Rightarrow> nat" where
  "resolveIoSchedulerCount hardware_concurrency requested =
     (if requested \<noteq> 0 then requested
      else let detected = hardware_concurrency in max 1 detected)"

datatype affinity_mode = Affinity_default | Sequential | Custom

record RuntimeAffinityConfig =
  af_mode :: affinity_mode
  af_seq_io_count :: nat
  af_seq_compute_count :: nat
  af_custom_io_cpus :: "u32 list"
  af_custom_compute_cpus :: "u32 list"

record RpcServerConfig =
  cfg_host :: string
  cfg_port :: u16
  cfg_backlog :: int
  cfg_io_scheduler_count :: nat
  cfg_compute_scheduler_count :: nat
  cfg_affinity :: RuntimeAffinityConfig
  cfg_ring_buffer_size :: nat

text \<open>\<open>affinity\<close> is the default of the kernel's affinity configuration.\<close>

definition RpcServerConfig_init :: "RuntimeAffinityConfig \<Rightarrow> RpcServerConfig" where
  "RpcServerConfig_init affinity =
     \<lparr>cfg_host = ''0.0.0.0'', cfg_port = 9000, cfg_backlog = 128, cfg_io_scheduler_count = 0,
      cfg_compute_scheduler_count = 0, cfg_affinity = affinity, cfg_ring_buffer_size = kDefaultRpcRingBufferSize\<rparr>"

text \<open>The builder holds a configuration; its setters replace one member each.\<close>

definition builder_host :: "string \<Rightarrow> RpcServerConfig \<Rightarrow> RpcServerConfig" where
  "builder_host value cfg = cfg\<lparr>cfg_host := value\<rparr>"

definition builder_port :: "u16 \<Rightarrow> RpcServerConfig \<Rightarrow> RpcServerConfig" where
  "builder_port value cfg = cfg\<lparr>cfg_port := value\<rparr>"

definition builder_backlog :: "int \<Rightarrow> RpcServerConfig \<Rightarrow> RpcServerConfig" where
  "builder_backlog value cfg = cfg\<lparr>cfg_backlog := value\<rparr>"

definition builder_ioSchedulerCount :: "nat \<Rightarrow> RpcServerConfig \<Rightarrow> RpcServerConfig" where
  "builder_ioSchedulerCount value cfg = cfg\<lparr>cfg_io_scheduler_count := value\<rparr>"

definition builder_computeSchedulerCount :: "nat \<Rightarrow> RpcServerConfig \<Rightarrow> RpcServerConfig" where
  "builder_computeSchedulerCount value cfg = cfg\<lparr>cfg_compute_scheduler_count := value\<rparr>"

definition builder_ringBufferSize :: "nat \<Rightarrow> RpcServerConfig \<Rightarrow> RpcServerConfig" where
  "builder_ringBufferSize value cfg = cfg\<lparr>cfg_ring_buffer_size := value\<rparr>"

definition sequentialAffinity :: "nat \<Rightarrow> nat \<Rightarrow> RpcServerConfig \<Rightarrow> RpcServerConfig" where
  "sequentialAffinity io_count compute_count cfg =
     cfg\<lparr>cfg_affinity := (cfg_affinity cfg)
       \<lparr>af_mode := Sequential, af_seq_io_count := io_count, af_seq_compute_count := compute_count\<rparr>\<rparr>"

definition customAffinity :: "u32 list \<Rightarrow> u32 list \<Rightarrow> RpcServerConfig \<Rightarrow> bool \<times> RpcServerConfig" where
  "customAffinity io_cpus compute_cpus cfg =
     (if length io_cpus \<noteq> cfg_io_scheduler_count cfg \<or> length compute_cpus \<noteq> cfg_compute_scheduler_count cfg
      then (False, cfg)
      else (True, cfg\<lparr>cfg_affinity := (cfg_affinity cfg)
        \<lparr>af_mode := Custom, af_custom_io_cpus := io_cpus, af_custom_compute_cpus := compute_cpus\<rparr>\<rparr>))"

section \<open>Lifecycle\<close>

datatype runtime_call = RuntimeStart | RuntimeStop

record ('h, 's) RpcServer =
  srv_config :: RpcServerConfig
  srv_io_schedulers :: nat
  srv_services :: "('h, 's) services"
  srv_running :: bool
  srv_last_error :: "RpcError option"
  srv_runtime_calls :: "runtime_call list"

definition mkRpcServer :: "nat \<Rightarrow> RpcServerConfig \<Rightarrow> ('h, 's) RpcServer" where
  "mkRpcServer hardware_concurrency config =
     \<lparr>srv_config = config,
      srv_io_schedulers = resolveIoSchedulerCount hardware_concurrency (cfg_io_scheduler_count config),
      srv_services = [], srv_running = False, srv_last_error = None, srv_runtime_calls = []\<rparr>"

definition server_registerService :: "('h, 's) RpcService \<Rightarrow> ('h, 's) RpcServer \<Rightarrow> ('h, 's) RpcServer" where
  "server_registerService service srv = srv\<lparr>srv_services := registerService service (srv_services srv)\<rparr>"

text \<open>\<open>scheduled\<close> is what \<^verbatim>\<open>scheduleTask\<close> answers for the accept loop.\<close>

definition server_start :: "bool \<Rightarrow> ('h, 's) RpcServer \<Rightarrow> ('h, 's) RpcServer" where
  "server_start scheduled srv = (
     let srv = srv\<lparr>srv_running := True, srv_runtime_calls := srv_runtime_calls srv @ [RuntimeStart]\<rparr>
     in if \<not> scheduled
        then srv\<lparr>srv_last_error := Some (mkRpcError INTERNAL_ERROR ''Failed to schedule accept loop''),
                 srv_running := False, srv_runtime_calls := srv_runtime_calls srv @ [RuntimeStop]\<rparr>
        else srv)"

definition server_stop :: "('h, 's) RpcServer \<Rightarrow> ('h, 's) RpcServer" where
  "server_stop srv =
     (if srv_running srv
      then srv\<lparr>srv_running := False, srv_runtime_calls := srv_runtime_calls srv @ [RuntimeStop]\<rparr>
      else srv)"

section \<open>The accept loop\<close>

text \<open>
  The results of the listener's system calls: \<open>None\<close> is success. One round accepts a connection or
  fails; an accepted handle is scheduled or, when that fails, closed.
\<close>

record listener_env =
  le_reuse_addr :: "IOError option"
  le_non_block :: "IOError option"
  le_bind :: "IOError option"
  le_listen :: "IOError option"
  le_close :: "IOError option"

datatype accept_round = AcceptFail IOError | Accepted nat bool "IOError option"

fun note_error :: "IOError option \<Rightarrow> RpcError option \<Rightarrow> RpcError option" where
  "note_error None err = err"
| "note_error (Some e) err = Some (RpcError_from e INTERNAL_ERROR)"

text \<open>\<open>failed\<close> is the message of the error that is kept when a connection cannot be scheduled.\<close>

fun accept_rounds :: "string \<Rightarrow> accept_round list \<Rightarrow> nat list \<Rightarrow> RpcError option \<Rightarrow> nat list \<times> RpcError option" where
  "accept_rounds failed [] handled err = (handled, err)"
| "accept_rounds failed (AcceptFail e # rounds) handled err =
     accept_rounds failed rounds handled (Some (RpcError_from e INTERNAL_ERROR))"
| "accept_rounds failed (Accepted handle scheduled close_result # rounds) handled err =
     (if scheduled then accept_rounds failed rounds (handled @ [handle]) err
      else accept_rounds failed rounds handled (note_error close_result (Some (mkRpcError INTERNAL_ERROR failed))))"

text \<open>The handles whose connections were scheduled, and the last error. Both servers run this loop.\<close>

definition accept_loop :: "string \<Rightarrow> listener_env \<Rightarrow> accept_round list \<Rightarrow> nat list \<times> RpcError option" where
  "accept_loop failed env rounds =
     (case le_reuse_addr env of Some e \<Rightarrow> ([], Some (RpcError_from e INTERNAL_ERROR)) | None \<Rightarrow>
      case le_non_block env of Some e \<Rightarrow> ([], Some (RpcError_from e INTERNAL_ERROR)) | None \<Rightarrow>
      case le_bind env of Some e \<Rightarrow> ([], Some (RpcError_from e INTERNAL_ERROR)) | None \<Rightarrow>
      case le_listen env of Some e \<Rightarrow> ([], Some (RpcError_from e INTERNAL_ERROR)) | None \<Rightarrow>
        let (handled, err) = accept_rounds failed rounds [] None
        in (handled, note_error (le_close env) err))"

definition acceptLoop :: "listener_env \<Rightarrow> accept_round list \<Rightarrow> nat list \<times> RpcError option" where
  "acceptLoop env rounds = accept_loop ''Failed to schedule connection handler'' env rounds"

section \<open>Serving a connection\<close>

text \<open>The locals of the coroutine, the memory, what has not arrived yet and what has been sent.\<close>

record ('rb, 'h) serve_state =
  ss_mem :: memory
  ss_conn :: "'rb RpcConn"
  ss_stream :: bytes
  ss_wire :: bytes
  ss_cache :: "'h route_cache"
  ss_last_error :: "RpcError option"

datatype ('rb, 'h) serve_result =
    Serving "('rb, 'h) serve_state"
  | Closed "('rb, 'h) serve_state"
  | Waiting
  | Serve_undefined

definition new_response :: "RpcRequest \<Rightarrow> RpcResponse" where
  "new_response request = (mkRpcResponse (rq_request_id request) OK)
     \<lparr>rs_call_mode := rq_call_mode request, rs_end_of_stream := True\<rparr>"

definition dispatch ::
  "('h \<Rightarrow> memory \<Rightarrow> RpcContext \<Rightarrow> RpcContext option) \<Rightarrow> ('h, 's) services \<Rightarrow> memory \<Rightarrow> RpcRequest \<Rightarrow> 'h route_cache \<Rightarrow>
   (RpcResponse \<times> 'h route_cache) option" where
  "dispatch run services mem request cache = do {
     let response = new_response request;
     (target, cache) \<leftarrow> route_request services request cache;
     case target of
       Inl code \<Rightarrow> Some (response\<lparr>rs_error_code := code\<rparr>, cache)
     | Inr handler \<Rightarrow> do {
         ctx \<leftarrow> run handler mem \<lparr>cx_request = request, cx_response = response\<rparr>;
         Some (cx_response ctx, cache) } }"

definition close_conn :: "IOError option \<Rightarrow> ('rb, 'h) serve_state \<Rightarrow> ('rb, 'h) serve_result" where
  "close_conn close_result st = Closed (st\<lparr>ss_last_error := note_error close_result (ss_last_error st)\<rparr>)"

definition serve_round ::
  "endian \<Rightarrow> 'rb ring_ops \<Rightarrow> IOError \<Rightarrow> ('h \<Rightarrow> memory \<Rightarrow> RpcContext \<Rightarrow> RpcContext option) \<Rightarrow> ('h, 's) services \<Rightarrow>
   IOError option \<Rightarrow> io_event list \<times> io_event list \<Rightarrow> ('rb, 'h) serve_state \<Rightarrow> ('rb, 'h) serve_result" where
  "serve_round en ops sf run services close_result io st =
     (case read_run ops (request_parseFromRingBuffer en ops) (fst io) (ss_mem st)
             (getRequest (ss_conn st) RpcRequest_init) (ss_stream st) of
        Undefined \<Rightarrow> Serve_undefined
      | Suspended _ _ _ \<Rightarrow> Waiting
      | Finished result mem m stream \<Rightarrow>
          (let st = st\<lparr>ss_mem := mem, ss_conn := (ss_conn st)\<lparr>cn_ring_buffer := machine_ring m\<rparr>, ss_stream := stream\<rparr>
           in case result of
             Inl e \<Rightarrow> close_conn close_result (st\<lparr>ss_last_error := Some e\<rparr>)
           | Inr _ \<Rightarrow>
               (case dispatch run services mem (rqs_request (machine_self m)) (ss_cache st) of
                  None \<Rightarrow> Serve_undefined
                | Some (response, cache) \<Rightarrow>
                    (let st = st\<lparr>ss_cache := cache\<rparr>
                     in case send_run sf (snd io) mem (sendResponse en response) (ss_wire st) of
                       Undefined \<Rightarrow> Serve_undefined
                     | Suspended _ _ _ \<Rightarrow> Waiting
                     | Finished result _ _ wire \<Rightarrow>
                         (let st = st\<lparr>ss_wire := wire\<rparr>
                          in case result of
                            Inl e \<Rightarrow> close_conn close_result (st\<lparr>ss_last_error := Some e\<rparr>)
                          | Inr _ \<Rightarrow> Serving st)))))"

fun serve_loop ::
  "endian \<Rightarrow> 'rb ring_ops \<Rightarrow> IOError \<Rightarrow> ('h \<Rightarrow> memory \<Rightarrow> RpcContext \<Rightarrow> RpcContext option) \<Rightarrow> ('h, 's) services \<Rightarrow>
   IOError option \<Rightarrow> (io_event list \<times> io_event list) list \<Rightarrow> ('rb, 'h) serve_state \<Rightarrow> ('rb, 'h) serve_result" where
  "serve_loop en ops sf run services close_result [] st = close_conn close_result st"
| "serve_loop en ops sf run services close_result (io # ios) st =
     (case serve_round en ops sf run services close_result io st of
        Serving st \<Rightarrow> serve_loop en ops sf run services close_result ios st
      | r \<Rightarrow> r)"

definition serve_init :: "(nat \<Rightarrow> 'rb) \<Rightarrow> RpcServerConfig \<Rightarrow> memory \<Rightarrow> bytes \<Rightarrow> ('rb, 'h) serve_state" where
  "serve_init mk_ring config mem stream =
     \<lparr>ss_mem = mem, ss_conn = mkRpcConn mk_ring RpcReaderSetting_init (cfg_ring_buffer_size config),
      ss_stream = stream, ss_wire = [], ss_cache = route_cache_init, ss_last_error = None\<rparr>"

definition handleConnection ::
  "endian \<Rightarrow> 'rb ring_ops \<Rightarrow> (nat \<Rightarrow> 'rb) \<Rightarrow> IOError \<Rightarrow> ('h \<Rightarrow> memory \<Rightarrow> RpcContext \<Rightarrow> RpcContext option) \<Rightarrow>
   ('h, 's) RpcServer \<Rightarrow> IOError option \<Rightarrow> (io_event list \<times> io_event list) list \<Rightarrow> memory \<Rightarrow> bytes \<Rightarrow>
   ('rb, 'h) serve_result" where
  "handleConnection en ops mk_ring sf run srv close_result ios mem stream =
     serve_loop en ops sf run (srv_services srv) close_result ios (serve_init mk_ring (srv_config srv) mem stream)"

section \<open>What a server answers\<close>

definition route_of :: "request_fields \<Rightarrow> RpcRequest" where
  "route_of f = RpcRequest_init\<lparr>rq_service_name := qf_service f, rq_method_name := qf_method f, rq_call_mode := qf_mode f\<rparr>"

text \<open>
  The specification of a server: a request gets the answer of its handler, or the error code of the
  failed lookup with an empty payload, under its own request id and call mode.
\<close>

definition answer :: "('h, 's) services \<Rightarrow> ('h \<Rightarrow> request_fields \<Rightarrow> response_fields) \<Rightarrow> request_fields \<Rightarrow> response_fields" where
  "answer services act f =
     (case resolveMethodHandler services (route_of f) of
        Inl code \<Rightarrow> \<lparr>pf_id = qf_id f, pf_mode = qf_mode f, pf_end = True, pf_error = code, pf_payload = []\<rparr>
      | Inr handler \<Rightarrow> act handler f)"

text \<open>
  The handlers' part: each handler computes what its response shows from what the request shows.
\<close>

definition handlers_compute ::
  "('h \<Rightarrow> memory \<Rightarrow> RpcContext \<Rightarrow> RpcContext option) \<Rightarrow> ('h, 's) services \<Rightarrow> ('h \<Rightarrow> request_fields \<Rightarrow> response_fields) \<Rightarrow> bool" where
  "handlers_compute run services act \<longleftrightarrow>
     (\<forall>h mem q f. resolveMethodHandler services q = Inr h \<and> request_value mem q = Some f \<longrightarrow>
        (\<exists>ctx. run h mem \<lparr>cx_request = q, cx_response = new_response q\<rparr> = Some ctx \<and>
          response_value mem (cx_response ctx) = Some (act h f)))"

lemma request_value_route:
  "request_value mem q = Some f \<Longrightarrow> resolveMethodHandler services (route_of f) = resolveMethodHandler services q"
  by (rule resolve_cong) (auto simp: request_value_def route_of_def split: if_splits)

lemma new_response_value:
  "request_value mem q = Some f \<Longrightarrow> response_value mem ((new_response q)\<lparr>rs_error_code := code\<rparr>) =
    Some \<lparr>pf_id = qf_id f, pf_mode = qf_mode f, pf_end = True, pf_error = code, pf_payload = []\<rparr>"
  by (auto simp: request_value_def new_response_def mkRpcResponse_def RpcResponse_init_def response_value_def
      RpcResponse_payloadView_def view_simps split: if_splits)

lemma dispatch_answer:
  assumes "handlers_compute run services act" "cache_ok services cache" "route_names_ok q" "request_value mem q = Some f"
  shows "\<exists>resp cache'. dispatch run services mem q cache = Some (resp, cache') \<and> cache_ok services cache' \<and>
    response_value mem resp = Some (answer services act f)"
proof -
  obtain cache' where "route_request services q cache = Some (resolveMethodHandler services q, cache')" "cache_ok services cache'"
    using route_request_ok [OF assms(2,3)] by blast
  then show ?thesis
    using assms(1,4) request_value_route [OF assms(4), of services] new_response_value [OF assms(4)]
    by (cases "resolveMethodHandler services q") (fastforce simp: dispatch_def answer_def handlers_compute_def Let_def)+
qed

text \<open>A connection that is being served: the ring and the cache are in order.\<close>

definition serving_ok :: "('rb \<Rightarrow> bool) \<Rightarrow> ('h, 's) services \<Rightarrow> ('rb, 'h) serve_state \<Rightarrow> bool" where
  "serving_ok ring_inv services st \<longleftrightarrow> ring_inv (cn_ring_buffer (ss_conn st)) \<and> cache_ok services (ss_cache st)"

text \<open>The bytes the server has not parsed yet: those in its ring and those still to come.\<close>

definition unread :: "'rb ring_ops \<Rightarrow> ('rb, 'h) serve_state \<Rightarrow> bytes" where
  "unread ops st = ring_content ops (ss_mem st) (cn_ring_buffer (ss_conn st)) @ ss_stream st"

abbreviation state_capacity :: "'rb ring_ops \<Rightarrow> ('rb, 'h) serve_state \<Rightarrow> nat" where
  "state_capacity ops st \<equiv> ring_capacity ops (cn_ring_buffer (ss_conn st))"

lemma fits_route_names: "request_value mem q = request_value smem r \<Longrightarrow> request_fits mx r \<Longrightarrow> route_names_ok q"
  by (auto simp: request_value_def request_fits_def route_names_ok_def split: if_splits)

lemma fits_value: "request_fits mx r \<Longrightarrow> \<exists>f. request_value smem r = Some f"
  by (simp add: request_fits_def request_value_def)

context ring_buffer
begin

lemma serve_round_answers:
  assumes ok: "serving_ok ring_inv services st" and h: "handlers_compute run services act"
    and r: "request_fits (max_message_size (cn_reader_setting (ss_conn st))) r" "request_value smem r = Some f"
      "unread ops st = request_wire smem r @ later" "length (request_wire smem r) \<le> state_capacity ops st"
    and io: "delivers revs" "state_capacity ops st \<le> length revs"
      "delivers wevs" "length (response_frame (answer services act f)) \<le> length wevs"
  shows "\<exists>st'. serve_round en ops sf run services close_result (revs, wevs) st = Serving st' \<and>
    serving_ok ring_inv services st' \<and> unread ops st' = later \<and>
    ss_wire st' = ss_wire st @ response_frame (answer services act f) \<and>
    state_capacity ops st' = state_capacity ops st \<and>
    cn_reader_setting (ss_conn st') = cn_reader_setting (ss_conn st) \<and> ss_last_error st' = ss_last_error st"
proof -
  have inv: "ring_inv (cn_ring_buffer (ss_conn st))" "cache_ok services (ss_cache st)"
    using ok by (simp_all add: serving_ok_def)
  obtain mem' m' rest where read: "read_run ops (request_parseFromRingBuffer en ops) revs (ss_mem st)
      (getRequest (ss_conn st) RpcRequest_init) (ss_stream st) = Finished (Inr True) mem' m' rest"
      "request_value mem' (rqs_request (machine_self m')) = request_value smem r" "ring_inv (machine_ring m')"
      "ring_capacity ops (machine_ring m') = state_capacity ops st"
      "ring_content ops mem' (machine_ring m') @ rest = later"
    using request_read [OF inv(1) r(1) io(1), of "ss_mem st" "ss_stream st" smem later en RpcRequest_init] r io
    by (auto simp: unread_def)
  let ?q = "rqs_request (machine_self m')"
  have names: "route_names_ok ?q" using fits_route_names [OF read(2) r(1)] .
  have val: "request_value mem' ?q = Some f" using read(2) r(2) by simp
  obtain resp cache' where d: "dispatch run services mem' ?q (ss_cache st) = Some (resp, cache')"
      "cache_ok services cache'" "response_value mem' resp = Some (answer services act f)"
    using dispatch_answer [OF h inv(2) names val] by blast
  note w = response_value_wire [OF d(3)]
  obtain wm where "send_run sf wevs mem' (RpcResponseWriteState en resp) (ss_wire st) =
      Finished (Inr True) mem' wm (ss_wire st @ response_frame (answer services act f))"
    using response_writer.send_completes [of resp wevs mem' sf en "ss_wire st"] w io by auto
  then show ?thesis
    using read d by (simp add: serve_round_def serving_ok_def unread_def Let_def)
qed

lemma serve_loop_answers:
  assumes "serving_ok ring_inv services st" "handlers_compute run services act"
    and "length ios = length rs"
    and "list_all2 (\<lambda>(revs, wevs) r. request_fits (max_message_size (cn_reader_setting (ss_conn st))) r \<and>
        length (request_wire smem r) \<le> state_capacity ops st \<and> delivers revs \<and> state_capacity ops st \<le> length revs \<and>
        delivers wevs \<and> length (response_frame (answer services act (the (request_value smem r)))) \<le> length wevs) ios rs"
    and "unread ops st = concat (map (request_wire smem) rs) @ later"
  shows "\<exists>st'. serve_loop en ops sf run services close_result (ios @ iosr) st = serve_loop en ops sf run services close_result iosr st' \<and>
    serving_ok ring_inv services st' \<and> unread ops st' = later \<and> ss_last_error st' = ss_last_error st \<and>
    state_capacity ops st' = state_capacity ops st \<and> cn_reader_setting (ss_conn st') = cn_reader_setting (ss_conn st) \<and>
    ss_wire st' = ss_wire st @ concat (map (\<lambda>r. response_frame (answer services act (the (request_value smem r)))) rs)"
  using assms(3,1,4,5)
proof (induction ios rs arbitrary: st rule: list_induct2)
  case Nil
  then show ?case by auto
next
  case (Cons io ios r rs)
  obtain revs wevs where io: "io = (revs, wevs)" by fastforce
  have "request_fits (max_message_size (cn_reader_setting (ss_conn st))) r" using Cons.prems(2) io by simp
  then obtain f where f: "request_value smem r = Some f" using fits_value by blast
  from Cons.prems io f obtain st1 where
    st1: "serve_round en ops sf run services close_result (revs, wevs) st = Serving st1"
      "serving_ok ring_inv services st1" "unread ops st1 = concat (map (request_wire smem) rs) @ later"
      "ss_wire st1 = ss_wire st @ response_frame (answer services act f)"
      "state_capacity ops st1 = state_capacity ops st"
      "cn_reader_setting (ss_conn st1) = cn_reader_setting (ss_conn st)" "ss_last_error st1 = ss_last_error st"
    using serve_round_answers [OF Cons.prems(1) assms(2), of r smem f "concat (map (request_wire smem) rs) @ later"
        revs wevs en sf close_result] by auto
  then show ?case using Cons.IH [of st1] Cons.prems io f by simp
qed

lemma connection_served:
  assumes "rb = mk_ring (normalizeRingBufferSize (cfg_ring_buffer_size (srv_config srv)))" "ring_inv rb" "ring_content ops mem rb = []"
    and "handlers_compute run (srv_services srv) act" "length ios = length rs"
    and "list_all2 (\<lambda>(revs, wevs) r. request_fits RPC_MAX_BODY_SIZE r \<and> length (request_wire smem r) \<le> ring_capacity ops rb \<and>
        delivers revs \<and> ring_capacity ops rb \<le> length revs \<and> delivers wevs \<and>
        length (response_frame (answer (srv_services srv) act (the (request_value smem r)))) \<le> length wevs) ios rs"
  shows "\<exists>st. handleConnection en ops mk_ring sf run srv None ios mem (concat (map (request_wire smem) rs) @ later) = Closed st \<and>
    ss_wire st = concat (map (\<lambda>r. response_frame (answer (srv_services srv) act (the (request_value smem r)))) rs) \<and>
    unread ops st = later \<and> ss_last_error st = None"
proof -
  let ?st = "serve_init mk_ring (srv_config srv) mem (concat (map (request_wire smem) rs) @ later)"
  have st: "serving_ok ring_inv (srv_services srv) ?st" "unread ops ?st = concat (map (request_wire smem) rs) @ later"
      "state_capacity ops ?st = ring_capacity ops rb" "max_message_size (cn_reader_setting (ss_conn ?st)) = RPC_MAX_BODY_SIZE"
      "ss_wire ?st = []" "ss_last_error ?st = None"
    using assms(1-3)
    by (simp_all add: serving_ok_def serve_init_def unread_def mkRpcConn_def RpcReaderSetting_init_def)
  note loop = serve_loop_answers [OF st(1) assms(4,5) _ st(2), unfolded st(3-6), OF assms(6)]
  obtain st' where "serve_loop en ops sf run (srv_services srv) None ios ?st = close_conn None st'" "unread ops st' = later"
      "ss_last_error st' = None"
      "ss_wire st' = concat (map (\<lambda>r. response_frame (answer (srv_services srv) act (the (request_value smem r)))) rs)"
    using loop [of en sf None "[]"] by auto
  then show ?thesis by (auto simp: handleConnection_def close_conn_def unread_def)
qed

text \<open>A request the server cannot read ends the connection; nothing is sent for it.\<close>

lemma serve_round_rejects:
  assumes "serving_ok ring_inv services st" "delivers revs" "length (ss_stream st) \<le> length revs"
    and "malformed (max_message_size (cn_reader_setting (ss_conn st))) (unread ops st) = Some code"
    and "16 \<le> state_capacity ops st" "code = DESERIALIZATION_ERROR \<longrightarrow> 16 + body_len (unread ops st) \<le> state_capacity ops st"
  shows "\<exists>st' e. serve_round en ops sf run services None (revs, wevs) st = Closed st' \<and>
    ss_last_error st' = Some e \<and> err_code e = code \<and> ss_wire st' = ss_wire st"
proof -
  have inv: "ring_inv (cn_ring_buffer (ss_conn st))" using assms(1) by (simp add: serving_ok_def)
  obtain mem' m' rest e where "read_run ops (request_parseFromRingBuffer en ops) revs (ss_mem st)
      (getRequest (ss_conn st) RpcRequest_init) (ss_stream st) = Finished (Inl e) mem' m' rest" "err_code e = code"
    using request_read_malformed [OF inv assms(2,3), of "ss_mem st" code en RpcRequest_init] assms(4-6)
    by (auto simp: unread_def)
  then show ?thesis by (simp add: serve_round_def close_conn_def Let_def)
qed

lemma connection_rejects:
  assumes "rb = mk_ring (normalizeRingBufferSize (cfg_ring_buffer_size (srv_config srv)))" "ring_inv rb" "ring_content ops mem rb = []"
    and "handlers_compute run (srv_services srv) act" "length ios = length rs"
    and "list_all2 (\<lambda>(revs, wevs) r. request_fits RPC_MAX_BODY_SIZE r \<and> length (request_wire smem r) \<le> ring_capacity ops rb \<and>
        delivers revs \<and> ring_capacity ops rb \<le> length revs \<and> delivers wevs \<and>
        length (response_frame (answer (srv_services srv) act (the (request_value smem r)))) \<le> length wevs) ios rs"
    and "malformed RPC_MAX_BODY_SIZE bad = Some code" "16 \<le> ring_capacity ops rb"
    and "code = DESERIALIZATION_ERROR \<longrightarrow> 16 + body_len bad \<le> ring_capacity ops rb"
    and "delivers revs" "length bad \<le> length revs"
  shows "\<exists>st e. handleConnection en ops mk_ring sf run srv None (ios @ (revs, wevs) # iosr) mem
      (concat (map (request_wire smem) rs) @ bad) = Closed st \<and>
    ss_wire st = concat (map (\<lambda>r. response_frame (answer (srv_services srv) act (the (request_value smem r)))) rs) \<and>
    ss_last_error st = Some e \<and> err_code e = code"
proof -
  let ?st = "serve_init mk_ring (srv_config srv) mem (concat (map (request_wire smem) rs) @ bad)"
  have st: "serving_ok ring_inv (srv_services srv) ?st" "unread ops ?st = concat (map (request_wire smem) rs) @ bad"
      "state_capacity ops ?st = ring_capacity ops rb" "max_message_size (cn_reader_setting (ss_conn ?st)) = RPC_MAX_BODY_SIZE"
      "ss_wire ?st = []"
    using assms(1-3) by (simp_all add: serving_ok_def serve_init_def unread_def mkRpcConn_def RpcReaderSetting_init_def)
  note loop = serve_loop_answers [OF st(1) assms(4,5) _ st(2), unfolded st(3-5), OF assms(6)]
  obtain st' where st': "serve_loop en ops sf run (srv_services srv) None (ios @ (revs, wevs) # iosr) ?st =
        serve_loop en ops sf run (srv_services srv) None ((revs, wevs) # iosr) st'"
      "serving_ok ring_inv (srv_services srv) st'" "unread ops st' = bad" "state_capacity ops st' = ring_capacity ops rb"
      "max_message_size (cn_reader_setting (ss_conn st')) = RPC_MAX_BODY_SIZE"
      "ss_wire st' = [] @ concat (map (\<lambda>r. response_frame (answer (srv_services srv) act (the (request_value smem r)))) rs)"
    using loop [of en sf None "(revs, wevs) # iosr"] by (elim exE conjE) (rule that, assumption+, simp only: st(4))
  have "length (ss_stream st') \<le> length bad" using st'(3) by (auto simp: unread_def)
  then have "length (ss_stream st') \<le> length revs" using assms(11) by simp
  then obtain st1 e where "serve_round en ops sf run (srv_services srv) None (revs, wevs) st' = Closed st1"
      "ss_last_error st1 = Some e" "err_code e = code" "ss_wire st1 = ss_wire st'"
    using serve_round_rejects [OF st'(2) assms(10), of code en sf run wevs, unfolded st'(3-5), OF _ assms(7-9)] by blast
  then show ?thesis using st'(1,6) by (simp add: handleConnection_def)
qed

end

section \<open>Lifecycle and accepting\<close>

text \<open>
  What owning a runtime means: a start tells the runtime to start, and to stop again when the accept
  loop could not be scheduled; a stop tells it to stop if and only if the owner was running. From
  these laws alone, the owner's flag and the runtime never disagree.
\<close>

locale runtime_owner =
  fixes running :: "'srv \<Rightarrow> bool"
    and calls :: "'srv \<Rightarrow> runtime_call list"
    and start :: "bool \<Rightarrow> 'srv \<Rightarrow> 'srv"
    and stop :: "'srv \<Rightarrow> 'srv"
  assumes start_running: "running (start scheduled s) \<longleftrightarrow> scheduled"
    and start_calls: "calls (start scheduled s) = calls s @ (if scheduled then [RuntimeStart] else [RuntimeStart, RuntimeStop])"
    and stop_running: "\<not> running (stop s)"
    and stop_calls: "calls (stop s) = calls s @ (if running s then [RuntimeStop] else [])"
    and stop_idle: "\<not> running s \<Longrightarrow> stop s = s"
begin

definition in_step :: "'srv \<Rightarrow> bool" where
  "in_step s \<longleftrightarrow> (running s \<longleftrightarrow> calls s \<noteq> [] \<and> last (calls s) = RuntimeStart)"

lemma start_in_step: "in_step (start scheduled s)"
  by (simp add: in_step_def start_running start_calls)

lemma stop_in_step: "in_step s \<Longrightarrow> in_step (stop s)"
  by (simp add: in_step_def stop_running stop_calls)

text \<open>Any sequence of starts (with what the scheduling answered) and stops.\<close>

lemma sequence_in_step:
  "in_step s \<Longrightarrow> in_step (foldl (\<lambda>s op. case op of Some scheduled \<Rightarrow> start scheduled s | None \<Rightarrow> stop s) s ops)"
  by (induction ops arbitrary: s) (auto simp: start_in_step stop_in_step split: option.split)

lemma stop_twice: "stop (stop s) = stop s"
  by (rule stop_idle) (rule stop_running)

end

interpretation server_runtime: runtime_owner srv_running srv_runtime_calls server_start server_stop
  by unfold_locales (simp_all add: server_start_def server_stop_def Let_def)

text \<open>The states a server goes through when its owner starts and stops it, in any order.\<close>

inductive server_reachable :: "RpcServerConfig \<Rightarrow> nat \<Rightarrow> ('h, 's) RpcServer \<Rightarrow> bool" for config hc where
  made: "server_reachable config hc (mkRpcServer hc config)"
| registered: "server_reachable config hc srv \<Longrightarrow> server_reachable config hc (server_registerService sv srv)"
| started: "server_reachable config hc srv \<Longrightarrow> server_reachable config hc (server_start scheduled srv)"
| stopped: "server_reachable config hc srv \<Longrightarrow> server_reachable config hc (server_stop srv)"

lemma reachable_runtime:
  assumes "server_reachable config hc srv"
  shows "server_runtime.in_step srv"
  using assms
proof (induction rule: server_reachable.induct)
  case made
  then show ?case by (simp add: server_runtime.in_step_def mkRpcServer_def)
next
  case (registered srv sv)
  then show ?case by (simp add: server_runtime.in_step_def server_registerService_def)
qed (simp_all add: server_runtime.start_in_step server_runtime.stop_in_step)

lemma reachable_schedulers: "server_reachable config hc srv \<Longrightarrow> srv_config srv = config \<and> 1 \<le> srv_io_schedulers srv"
  by (induction rule: server_reachable.induct)
     (auto simp: mkRpcServer_def server_registerService_def server_start_def server_stop_def resolveIoSchedulerCount_def Let_def)

fun scheduled_handle :: "accept_round \<Rightarrow> nat list" where
  "scheduled_handle (Accepted handle True close_result) = [handle]"
| "scheduled_handle _ = []"

text \<open>What a round leaves behind as an error, and the first step of the listener that failed.\<close>

fun round_error :: "string \<Rightarrow> accept_round \<Rightarrow> RpcError option" where
  "round_error failed (AcceptFail e) = Some (RpcError_from e INTERNAL_ERROR)"
| "round_error failed (Accepted handle True close_result) = None"
| "round_error failed (Accepted handle False None) = Some (mkRpcError INTERNAL_ERROR failed)"
| "round_error failed (Accepted handle False (Some e)) = Some (RpcError_from e INTERNAL_ERROR)"

definition listener_failures :: "listener_env \<Rightarrow> IOError list" where
  "listener_failures env =
     List.map_filter (\<lambda>step. step env) [le_reuse_addr, le_non_block, le_bind, le_listen]"

definition latest :: "'a list \<Rightarrow> 'a option" where
  "latest errs = (if errs = [] then None else Some (last errs))"

lemma latest_simps [simp]: "latest [] = None" "latest (xs @ [x]) = Some x"
    "latest (x # xs) = (case latest xs of None \<Rightarrow> Some x | Some y \<Rightarrow> Some y)"
  by (simp_all add: latest_def)

lemma accept_rounds_eq:
  "accept_rounds failed rounds handled err =
    (handled @ concat (map scheduled_handle rounds),
     case latest (List.map_filter (round_error failed) rounds) of None \<Rightarrow> err | Some e \<Rightarrow> Some e)"
proof (induction rounds arbitrary: handled err)
  case (Cons a rounds)
  then show ?case
    by (cases "(failed, a)" rule: round_error.cases) (simp_all add: List.map_filter_simps split: option.split)
qed (simp add: List.map_filter_simps)

lemma accept_loop_eq:
  "accept_loop failed env rounds =
    (case listener_failures env of
       e # _ \<Rightarrow> ([], Some (RpcError_from e INTERNAL_ERROR))
     | [] \<Rightarrow> (concat (map scheduled_handle rounds),
         latest (List.map_filter (round_error failed) rounds @
           (case le_close env of None \<Rightarrow> [] | Some e \<Rightarrow> [RpcError_from e INTERNAL_ERROR]))))"
  by (simp add: accept_loop_def listener_failures_def accept_rounds_eq List.map_filter_simps split: option.split)

section \<open>A concrete server\<close>

text \<open>
  The echo server of the repository's example, on a ring of 64 bytes: its handler answers with a view
  of the request's payload, which it does not copy.
\<close>

definition test_config :: RpcServerConfig where
  "test_config = (RpcServerConfig_init \<lparr>af_mode = Affinity_default, af_seq_io_count = 0, af_seq_compute_count = 0,
     af_custom_io_cpus = [], af_custom_compute_cpus = []\<rparr>)\<lparr>cfg_ring_buffer_size := 64\<rparr>"

definition echo_server :: "(unit, unit) RpcServer" where
  "echo_server = server_registerService (registerUnaryMethod [70] () (mkRpcService [69])) (mkRpcServer 4 test_config)"

definition echo_run :: "unit \<Rightarrow> memory \<Rightarrow> RpcContext \<Rightarrow> RpcContext option" where
  "echo_run h mem ctx = Some (cx_setPayload_view (RpcRequest_payloadView (cx_request ctx)) ctx)"

definition echo_act :: "unit \<Rightarrow> request_fields \<Rightarrow> response_fields" where
  "echo_act h f = \<lparr>pf_id = qf_id f, pf_mode = qf_mode f, pf_end = True, pf_error = OK, pf_payload = qf_payload f\<rparr>"

lemma echo_computes: "handlers_compute echo_run services echo_act"
  by (auto simp: handlers_compute_def echo_run_def echo_act_def cx_setPayload_view_def new_response_def mkRpcResponse_def
      RpcResponse_init_def request_value_def response_value_def RpcResponse_set_payloadView_def RpcResponse_payloadView_def
      split: if_splits)

section \<open>Properties\<close>

text \<open>C2. A connection is served. When any number of requests arrive back to back, however the bytes are cut,
  the server sends one response per request, in the order of the requests, and each is the specified
  answer: what the handler registered for the service, method and call mode computes from the request,
  or SERVICE_NOT_FOUND or METHOD_NOT_FOUND, under the request's own id and mode. Nothing of what
  follows the requests is consumed, and no error is recorded.\<close>

theorem pipeline_served:
  assumes "ring_buffer ops ring_inv"
    and "rb = mk_ring (normalizeRingBufferSize (cfg_ring_buffer_size (srv_config srv)))" "ring_inv rb" "ring_content ops mem rb = []"
    and "handlers_compute run (srv_services srv) act" "length ios = length rs"
    and "list_all2 (\<lambda>(revs, wevs) r. request_fits RPC_MAX_BODY_SIZE r \<and> length (request_wire smem r) \<le> ring_capacity ops rb \<and>
        delivers revs \<and> ring_capacity ops rb \<le> length revs \<and> delivers wevs \<and>
        length (response_frame (answer (srv_services srv) act (the (request_value smem r)))) \<le> length wevs) ios rs"
  shows "\<exists>st. handleConnection en ops mk_ring sf run srv None ios mem (concat (map (request_wire smem) rs) @ later) = Closed st \<and>
    ss_wire st = concat (map (\<lambda>r. response_frame (answer (srv_services srv) act (the (request_value smem r)))) rs) \<and>
    unread ops st = later \<and> ss_last_error st = None"
  using ring_buffer.connection_served [where mk_ring = mk_ring, OF assms] .

theorem pipeline_served_witness:
  "\<exists>st. handleConnection Little circ_ops mk_circ no_error echo_run echo_server None
      (replicate 2 (replicate 64 (Deliver 3), replicate 64 (Deliver 5))) (\<lambda>_. 0)
      (concat (map (request_wire (\<lambda>_. 0)) [mkRpcRequest 1 [69] [70], mkRpcRequest 2 [69] [71]]) @ [9]) = Closed st \<and>
    unread circ_ops st = [9] \<and> ss_last_error st = None \<and>
    ss_wire st = response_frame \<lparr>pf_id = 1, pf_mode = UNARY, pf_end = True, pf_error = OK, pf_payload = []\<rparr> @
      response_frame \<lparr>pf_id = 2, pf_mode = UNARY, pf_end = True, pf_error = METHOD_NOT_FOUND, pf_payload = []\<rparr>"
proof -
  let ?rs = "[mkRpcRequest 1 [69] [70], mkRpcRequest 2 [69] [71]]"
  let ?ios = "replicate 2 (replicate 64 (Deliver 3), replicate 64 (Deliver 5))"
  let ?ans = "\<lambda>r. answer (srv_services echo_server) echo_act (the (request_value (\<lambda>_. 0) r))"
  note msg = mkRpcRequest_def RpcRequest_init_def RpcRequest_payloadView_def view_simps
  have size: "normalizeRingBufferSize (cfg_ring_buffer_size (srv_config echo_server)) = 64"
    by (simp add: echo_server_def server_registerService_def mkRpcServer_def test_config_def normalizeRingBufferSize_def)
  have res: "resolveMethodHandler (srv_services echo_server) (route_of (the (request_value (\<lambda>_. 0) (?rs ! 0)))) = Inr ()"
    "resolveMethodHandler (srv_services echo_server) (route_of (the (request_value (\<lambda>_. 0) (?rs ! 1)))) = Inl METHOD_NOT_FOUND"
    by code_simp+
  have ans: "?ans (?rs ! 0) = \<lparr>pf_id = 1, pf_mode = UNARY, pf_end = True, pf_error = OK, pf_payload = []\<rparr>"
    "?ans (?rs ! 1) = \<lparr>pf_id = 2, pf_mode = UNARY, pf_end = True, pf_error = METHOD_NOT_FOUND, pf_payload = []\<rparr>"
    by (simp_all only: answer_def res) (simp_all add: echo_act_def request_value_def msg)
  have fits: "request_fits RPC_MAX_BODY_SIZE r \<and> length (request_wire (\<lambda>_. 0) r) = 22" if "r \<in> set ?rs" for r
    using that by (auto simp: request_fits_def max_body_eq RpcRequest_payloadSize_def request_wire_frame msg)
  have len: "length (response_frame (?ans r)) = 18" if "r \<in> set ?rs" for r
    using that ans by (auto simp: response_frame_def)
  have "list_all2 (\<lambda>(revs, wevs) r. request_fits RPC_MAX_BODY_SIZE r \<and> length (request_wire (\<lambda>_. 0) r) \<le> 64 \<and>
        delivers revs \<and> 64 \<le> length revs \<and> delivers wevs \<and> length (response_frame (?ans r)) \<le> length wevs) ?ios ?rs"
    using fits len by (simp add: delivers_def numeral_2_eq_2)
  then show ?thesis
    using pipeline_served [OF circ.ring_buffer_axioms refl _ _ echo_computes, where mk_ring = mk_circ and mem = "\<lambda>_. 0"
      and later = "[9]" and en = Little and sf = no_error and srv = echo_server and ios = ?ios and rs = ?rs and smem = "\<lambda>_. 0"] size ans
    by auto
qed

text \<open>C30. A malformed message ends the connection, and only there. Whatever good requests came before it, each of
  them is answered; then the connection is closed, nothing is sent for the malformed message or for
  what follows it, and the reason is recorded: INVALID_REQUEST when its header has a wrong magic
  number, type or size, and DESERIALIZATION_ERROR when the header is good and the message complete but
  the lengths in its body do not fit.\<close>

theorem bad_message_closes:
  assumes "ring_buffer ops ring_inv"
    and "rb = mk_ring (normalizeRingBufferSize (cfg_ring_buffer_size (srv_config srv)))" "ring_inv rb" "ring_content ops mem rb = []"
    and "handlers_compute run (srv_services srv) act" "length ios = length rs"
    and "list_all2 (\<lambda>(revs, wevs) r. request_fits RPC_MAX_BODY_SIZE r \<and> length (request_wire smem r) \<le> ring_capacity ops rb \<and>
        delivers revs \<and> ring_capacity ops rb \<le> length revs \<and> delivers wevs \<and>
        length (response_frame (answer (srv_services srv) act (the (request_value smem r)))) \<le> length wevs) ios rs"
    and "malformed RPC_MAX_BODY_SIZE bad = Some code" "16 \<le> ring_capacity ops rb"
    and "code = DESERIALIZATION_ERROR \<longrightarrow> 16 + body_len bad \<le> ring_capacity ops rb"
    and "delivers revs" "length bad \<le> length revs"
  shows "\<exists>st e. handleConnection en ops mk_ring sf run srv None (ios @ (revs, wevs) # iosr) mem
      (concat (map (request_wire smem) rs) @ bad) = Closed st \<and>
    ss_wire st = concat (map (\<lambda>r. response_frame (answer (srv_services srv) act (the (request_value smem r)))) rs) \<and>
    ss_last_error st = Some e \<and> err_code e = code"
  using ring_buffer.connection_rejects [where mk_ring = mk_ring, OF assms] .

text \<open>A request whose body claims a service name of 255 bytes, behind a good request.\<close>

theorem bad_message_closes_witness:
  "\<exists>st e. handleConnection Little circ_ops mk_circ no_error echo_run echo_server None
      [(replicate 64 (Deliver 3), replicate 64 (Deliver 5)), (replicate 64 (Deliver 4), [])] (\<lambda>_. 0)
      (request_wire (\<lambda>_. 0) (mkRpcRequest 1 [69] [70]) @ frame REQUEST 0 2 [0, 255, 0, 0]) = Closed st \<and>
    ss_wire st = response_frame \<lparr>pf_id = 1, pf_mode = UNARY, pf_end = True, pf_error = OK, pf_payload = []\<rparr> \<and>
    ss_last_error st = Some e \<and> err_code e = DESERIALIZATION_ERROR"
proof -
  let ?q = "mkRpcRequest 1 [69] [70]" and ?ans = "\<lambda>r. answer (srv_services echo_server) echo_act (the (request_value (\<lambda>_. 0) r))"
  let ?bad = "frame REQUEST 0 2 [0, 255, 0, 0]"
  have size: "normalizeRingBufferSize (cfg_ring_buffer_size (srv_config echo_server)) = 64"
    by (simp add: echo_server_def server_registerService_def mkRpcServer_def test_config_def normalizeRingBufferSize_def)
  have val: "request_value (\<lambda>_. 0) ?q =
      Some \<lparr>qf_id = 1, qf_mode = UNARY, qf_end = True, qf_service = [69], qf_method = [70], qf_payload = []\<rparr>"
    by (simp add: request_value_def mkRpcRequest_def RpcRequest_init_def RpcRequest_payloadView_def view_simps)
  have "resolveMethodHandler (srv_services echo_server) (route_of
      \<lparr>qf_id = 1, qf_mode = UNARY, qf_end = True, qf_service = [69], qf_method = [70], qf_payload = []\<rparr>) = Inr ()"
    by code_simp
  then have ans: "?ans ?q = \<lparr>pf_id = 1, pf_mode = UNARY, pf_end = True, pf_error = OK, pf_payload = []\<rparr>"
    unfolding val by (simp add: answer_def echo_act_def)
  have "request_fits RPC_MAX_BODY_SIZE ?q" "length (request_wire (\<lambda>_. 0) ?q) \<le> 64" "length (response_frame (?ans ?q)) \<le> 64"
    unfolding ans
    by (simp_all add: request_fits_def request_wire_def mkRpcRequest_def RpcRequest_init_def RpcRequest_payloadView_def view_simps
        RpcRequest_payloadSize_def route_bytes_def response_frame_def max_body_eq)
  moreover have "parse_route [0, 255, 0, 0] = None" by code_simp
  then have "malformed RPC_MAX_BODY_SIZE ?bad = Some DESERIALIZATION_ERROR" "16 + body_len ?bad \<le> 64"
    using malformed_body [of "[0, 255, 0, 0]" 0 2 "[]"] body_len_frame [of "[0, 255, 0, 0]" REQUEST 0 2 "[]"] by (simp_all add: max_body_eq)
  ultimately show ?thesis
    using bad_message_closes [OF circ.ring_buffer_axioms refl _ _ echo_computes, where mk_ring = mk_circ and mem = "\<lambda>_. 0"
      and en = Little and sf = no_error and srv = echo_server and ios = "[(replicate 64 (Deliver 3), replicate 64 (Deliver 5))]" and rs = "[?q]"
      and smem = "\<lambda>_. 0" and bad = ?bad and code = DESERIALIZATION_ERROR and revs = "replicate 64 (Deliver 4)" and wevs = "[]" and iosr = "[]"] size ans
    by (simp add: delivers_def)
qed

text \<open>C35. Starting and stopping keep the server and its runtime together. In every state that is reached by
  registering services, starting (whether or not the accept loop could be scheduled) and stopping, in
  any order, the server says it is running exactly when the last thing it told its runtime was to
  start; and it always has at least one I/O scheduler.\<close>

theorem server_lifecycle:
  assumes "server_reachable config hc srv"
  shows "(srv_running srv \<longleftrightarrow> srv_runtime_calls srv \<noteq> [] \<and> last (srv_runtime_calls srv) = RuntimeStart) \<and>
    1 \<le> srv_io_schedulers srv \<and> \<not> srv_running (server_stop srv) \<and> server_stop (server_stop srv) = server_stop srv"
  using reachable_runtime [OF assms] reachable_schedulers [OF assms] server_runtime.stop_running [of srv]
    server_runtime.stop_twice [of srv]
  by (simp add: server_runtime.in_step_def)

theorem server_lifecycle_witness:
  "srv_runtime_calls (server_stop (server_start True (mkRpcServer 0 test_config :: (unit, unit) RpcServer))) =
     [RuntimeStart, RuntimeStop] \<and>
   1 \<le> srv_io_schedulers (server_stop (server_start True (mkRpcServer 0 test_config :: (unit, unit) RpcServer)))"
proof -
  let ?s = "server_stop (server_start True (mkRpcServer 0 test_config :: (unit, unit) RpcServer))"
  have "server_reachable test_config 0 ?s" by (intro server_reachable.intros)
  moreover have "srv_runtime_calls ?s = [RuntimeStart, RuntimeStop]"
    by (simp add: server_stop_def server_start_def mkRpcServer_def Let_def)
  ultimately show ?thesis using server_lifecycle [of test_config 0 ?s] by blast
qed

text \<open>C36. The accept loop serves every connection it can and records what went wrong. When the listener comes
  up, exactly the accepted handles whose handler could be scheduled are served, in the order of
  acceptance: a failed accept or a failed scheduling never ends the loop. The recorded error is the
  latest of: the error of a failed accept, the error of closing a connection that could not be
  scheduled or, if it could be closed, the message that it was not scheduled, and the error of closing
  the listener. When the listener does not come up, nothing is served and the recorded error is that of
  the first step that failed, of setting the reuse-address and the non-blocking option, binding and
  listening.\<close>

theorem accept_loop_serves:
  "acceptLoop env rounds =
    (case listener_failures env of
       e # _ \<Rightarrow> ([], Some (RpcError_from e INTERNAL_ERROR))
     | [] \<Rightarrow> (concat (map scheduled_handle rounds),
         latest (List.map_filter (round_error ''Failed to schedule connection handler'') rounds @
           (case le_close env of None \<Rightarrow> [] | Some e \<Rightarrow> [RpcError_from e INTERNAL_ERROR]))))"
  unfolding acceptLoop_def by (rule accept_loop_eq)

theorem accept_loop_serves_witness:
  "acceptLoop \<lparr>le_reuse_addr = None, le_non_block = None, le_bind = None, le_listen = None, le_close = None\<rparr>
    [Accepted 3 True None, AcceptFail \<lparr>ioe_timeout = False, ioe_disconnect = False, ioe_message = []\<rparr>,
     Accepted 4 False None, Accepted 5 True None] =
    ([3, 5], Some (mkRpcError INTERNAL_ERROR ''Failed to schedule connection handler''))"
  by (subst accept_loop_serves) (simp add: listener_failures_def List.map_filter_simps)

end
