(* ===== verification/Rpc_Calls.thy ===== *)
theory Rpc_Calls
  imports Rpc_Client Rpc_Server
begin

text \<open>
  A client and a server together: sequences of calls on one connection, the requests they send, and
  the two halves of a conversation, each over its own ring. What the server answers to the requests of
  a call sequence is what the client's calls return.
\<close>

section \<open>Sequences of calls\<close>

text \<open>A call a client makes, and what its request shows under the id it is given.\<close>

record rpc_call =
  ca_service :: bytes
  ca_method :: bytes
  ca_mode :: RpcCallMode
  ca_end :: bool
  ca_payload :: bytes

definition fields_of_call :: "u32 \<Rightarrow> rpc_call \<Rightarrow> request_fields" where
  "fields_of_call i c = call_fields i (ca_service c) (ca_method c) (ca_mode c) (ca_end c) (ca_payload c)"

fun call_seq :: "u32 \<Rightarrow> rpc_call list \<Rightarrow> request_fields list" where
  "call_seq i [] = []"
| "call_seq i (c # cs) = fields_of_call i c # call_seq (i + 1) cs"

lemma length_call_seq [simp]: "length (call_seq i cs) = length cs"
  by (induction cs arbitrary: i) simp_all

text \<open>
  The calls of a client, one after another on one connection: what each returns, shown at the time it
  returns, and the bytes sent.
\<close>

fun do_calls ::
  "endian \<Rightarrow> 'rb ring_ops \<Rightarrow> IOError \<Rightarrow> rpc_call list \<Rightarrow> (io_event list \<times> io_event list) list \<Rightarrow> network \<Rightarrow> 'rb RpcClient \<Rightarrow>
   ((RpcError + response_fields option) list \<times> bytes) option" where
  "do_calls en ops sf (c # cs) (io # ios) net cl =
     (case callWithMode en ops sf (ca_service c) (ca_method c) (ca_mode c) (ca_end c)
             (Buf (ca_payload c) 0) (length (ca_payload c)) io net cl of
        Returned result net' cl' \<Rightarrow>
          map_option (\<lambda>(results, wire).
              ((case result of Inl e \<Rightarrow> Inl e
                | Inr resp \<Rightarrow> Inr (case resp of None \<Rightarrow> None | Some r \<Rightarrow> response_value (nw_mem net') r)) # results, wire))
            (do_calls en ops sf cs ios net' cl')
      | _ \<Rightarrow> None)"
| "do_calls en ops sf _ _ net cl = Some ([], nw_wire net)"

text \<open>A request object that shows given fields.\<close>

definition request_of :: "request_fields \<Rightarrow> RpcRequest" where
  "request_of f = RpcRequest_set_payload_move (qf_payload f)
     (RpcRequest_init\<lparr>rq_request_id := qf_id f, rq_call_mode := qf_mode f, rq_end_of_stream := qf_end f,
        rq_service_name := qf_service f, rq_method_name := qf_method f\<rparr>)"

definition fields_fit :: "request_fields \<Rightarrow> bool" where
  "fields_fit f \<longleftrightarrow> length (qf_service f) < 65536 \<and> length (qf_method f) < 65536 \<and>
     4 + length (qf_service f) + length (qf_method f) + length (qf_payload f) \<le> RPC_MAX_BODY_SIZE"

lemma request_of_value [simp]: "request_value mem (request_of f) = Some f"
  by (cases f) (simp add: request_of_def request_value_def RpcRequest_set_payload_move_def RpcRequest_payloadView_def view_simps)

lemma request_of_wire [simp]: "request_wire mem (request_of f) = request_frame f"
  using request_value_wire [OF request_of_value] by blast

lemma request_of_fits: "fields_fit f \<Longrightarrow> request_fits RPC_MAX_BODY_SIZE (request_of f)"
  by (simp add: fields_fit_def request_fits_def request_of_def RpcRequest_set_payload_move_def RpcRequest_payloadView_def
      RpcRequest_payloadSize_def max_body_eq view_simps)

lemma call_payload_Buf [simp]: "call_payload mem (Buf b 0) (length b) = b"
  by (simp add: call_payload_def)

text \<open>A reply the client can take: it fits, and it carries the id and the mode of the request.\<close>

definition reply_ok :: "nat \<Rightarrow> nat \<Rightarrow> request_fields \<Rightarrow> response_fields \<Rightarrow> bool" where
  "reply_ok mx cap f g \<longleftrightarrow> reply_fits mx g \<and> length (response_frame g) \<le> cap \<and> pf_id g = qf_id f \<and> pf_mode g = qf_mode f"

context ring_buffer
begin

lemma calls_return:
  assumes "length ios = length cs" "connected cl rb" "ring_inv rb"
    and "list_all (\<lambda>f. reply_ok (max_message_size (cc_reader_setting (cl_config cl))) (ring_capacity ops rb) f (reply f) \<and>
        length (request_frame f) \<le> k) (call_seq (cl_request_id cl) cs)"
    and "list_all (\<lambda>(wevs, revs). delivers wevs \<and> k \<le> length wevs \<and> delivers revs \<and> ring_capacity ops rb \<le> length revs) ios"
    and "ring_content ops (nw_mem net) rb @ nw_stream net =
      concat (map (\<lambda>f. response_frame (reply f)) (call_seq (cl_request_id cl) cs)) @ later"
  shows "do_calls en ops sf cs ios net cl =
    Some (map (\<lambda>f. Inr (Some (reply f))) (call_seq (cl_request_id cl) cs),
      nw_wire net @ concat (map request_frame (call_seq (cl_request_id cl) cs)))"
  using assms
proof (induction ios cs arbitrary: net cl rb rule: list_induct2)
  case (Cons io ios c cs)
  obtain wevs revs where io: "io = (wevs, revs)" by fastforce
  let ?f = "fields_of_call (cl_request_id cl) c"
  let ?later = "concat (map (\<lambda>f. response_frame (reply f)) (call_seq (cl_request_id cl + 1) cs)) @ later"
  have f: "?f = call_fields (cl_request_id cl) (ca_service c) (ca_method c) (ca_mode c) (ca_end c)
      (call_payload (nw_mem net) (Buf (ca_payload c) 0) (length (ca_payload c)))"
    by (simp add: fields_of_call_def)
  have g: "reply_ok (max_message_size (cc_reader_setting (cl_config cl))) (ring_capacity ops rb) ?f (reply ?f)"
    using Cons.prems(3) by simp
  then have ids: "pf_id (reply ?f) = cl_request_id cl" "pf_mode (reply ?f) = ca_mode c"
    by (simp_all add: reply_ok_def fields_of_call_def call_fields_def)
  obtain resp net' cl' rb' where one:
    "callWithMode en ops sf (ca_service c) (ca_method c) (ca_mode c) (ca_end c) (Buf (ca_payload c) 0) (length (ca_payload c))
      (wevs, revs) net cl = Returned (Inr (Some resp)) net' cl'"
    "response_value (nw_mem net') resp = Some (reply ?f)" "nw_wire net' = nw_wire net @ request_frame ?f"
    "cl' = cl\<lparr>cl_request_id := cl_request_id cl + 1, cl_ring_buffer := Some rb'\<rparr>" "ring_inv rb'"
    "ring_capacity ops rb' = ring_capacity ops rb" "ring_content ops (nw_mem net') rb' @ nw_stream net' = ?later"
    using call_receives [OF Cons.prems(1,2), of "Buf (ca_payload c) 0" "length (ca_payload c)" "reply ?f" net ?later wevs revs ?f
        "ca_service c" "ca_method c" "ca_mode c" "ca_end c" en sf] f g ids Cons.prems io
    by (auto simp: reply_ok_def)
  have "connected cl' rb'" using Cons.prems(1) one(4) by (simp add: connected_def)
  then show ?case
    using Cons.IH [of cl' rb' net'] Cons.prems one io by simp
qed simp

text \<open>The server's half: the requests of a conversation are answered, one response each and in order.\<close>

lemma calls_served:
  assumes "rb = mk_ring (normalizeRingBufferSize (cfg_ring_buffer_size (srv_config srv)))" "ring_inv rb" "ring_content ops mem rb = []"
    and "handlers_compute run (srv_services srv) act" "length ios = length fs"
    and "list_all (\<lambda>f. fields_fit f \<and> length (request_frame f) \<le> ring_capacity ops rb \<and>
        length (response_frame (answer (srv_services srv) act f)) \<le> k) fs"
    and "list_all (\<lambda>(revs, wevs). delivers revs \<and> ring_capacity ops rb \<le> length revs \<and> delivers wevs \<and> k \<le> length wevs) ios"
  shows "\<exists>st. handleConnection en ops mk_ring sf run srv None ios mem (concat (map request_frame fs) @ later) = Closed st \<and>
    ss_wire st = concat (map (\<lambda>f. response_frame (answer (srv_services srv) act f)) fs) \<and>
    unread ops st = later \<and> ss_last_error st = None"
proof -
  let ?ans = "answer (srv_services srv) act" and ?rs = "map request_of fs"
  have len: "length ios = length ?rs" using assms(5) by simp
  have "list_all2 (\<lambda>(revs, wevs) r. request_fits RPC_MAX_BODY_SIZE r \<and>
        length (request_wire mem r) \<le> ring_capacity ops rb \<and> delivers revs \<and> ring_capacity ops rb \<le> length revs \<and>
        delivers wevs \<and> length (response_frame (?ans (the (request_value mem r)))) \<le> length wevs) ios ?rs"
  proof (rule list_all2_all_nthI [OF len], clarify)
    fix n revs wevs assume n: "n < length ios" and io: "(revs, wevs) = ios ! n"
    have "fs ! n \<in> set fs" "(revs, wevs) \<in> set ios" using n len io by (auto simp: in_set_conv_nth)
    then have "fields_fit (fs ! n)" "length (request_frame (fs ! n)) \<le> ring_capacity ops rb"
        "length (response_frame (?ans (fs ! n))) \<le> k" "delivers revs" "ring_capacity ops rb \<le> length revs"
        "delivers wevs" "k \<le> length wevs"
      using assms(6,7) by (auto simp: list_all_iff)
    then show "request_fits RPC_MAX_BODY_SIZE (?rs ! n) \<and>
        length (request_wire mem (?rs ! n)) \<le> ring_capacity ops rb \<and> delivers revs \<and> ring_capacity ops rb \<le> length revs \<and>
        delivers wevs \<and> length (response_frame (?ans (the (request_value mem (?rs ! n))))) \<le> length wevs"
      using n len request_of_fits by simp
  qed
  from connection_served [where mk_ring = mk_ring, OF assms(1-4) len this, of en sf later] show ?thesis by (simp add: comp_def)
qed

end

end
