(* ===== verification/Rpc_Text.thy ===== *)
theory Rpc_Text
  imports Rpc_Prelude
begin

text \<open>
  The functions on text of the C and C++ libraries that the code calls: the bytes of a string, the
  decimal digits of \<^verbatim>\<open>std::to_string\<close>, and the reading of decimal numbers by \<^verbatim>\<open>std::atoi\<close> and
  \<^verbatim>\<open>std::strtoull\<close>, with the lemma that both read back what \<^verbatim>\<open>std::to_string\<close> writes.
\<close>

section \<open>Bytes and text\<close>

text \<open>The bytes of a \<^verbatim>\<open>std::string\<close> literal, and bytes shown as text.\<close>

definition ascii :: "string \<Rightarrow> bytes" where
  "ascii s = map of_char s"

definition shown :: "bytes \<Rightarrow> string" where
  "shown b = map (\<lambda>w. char_of (unat w)) b"

lemma of_char_byte: "unat (of_char c :: byte) = of_char c"
proof -
  have "unat (word_of_nat (of_char c) :: byte) = of_char c"
    using nat_of_char_less_256 [of c] by (simp add: unat_of_nat)
  then show ?thesis by (simp only: of_nat_of_char)
qed

lemma shown_ascii [simp]: "shown (ascii s) = s"
  by (simp add: shown_def ascii_def of_char_byte comp_def)

lemma length_ascii [simp]: "length (ascii s) = length s"
  by (simp add: ascii_def)

lemma ascii_eq_iff [simp]: "ascii s = ascii t \<longleftrightarrow> s = t"
  by (metis shown_ascii)

section \<open>Decimal digits\<close>

definition digit :: "nat \<Rightarrow> char" where
  "digit n = char_of (48 + n)"

fun to_string :: "nat \<Rightarrow> string" where
  "to_string n = (if n < 10 then [digit n] else to_string (n div 10) @ [digit (n mod 10)])"

declare to_string.simps [simp del]

definition is_digit :: "char \<Rightarrow> bool" where
  "is_digit c \<longleftrightarrow> c \<in> set ''0123456789''"

definition digit_value :: "char \<Rightarrow> nat" where
  "digit_value c = of_char c - 48"

lemma digit_value_digit: "n < 10 \<Longrightarrow> digit_value (digit n) = n"
  by (simp add: digit_value_def digit_def of_char_of)

lemma is_digit_digit: "n < 10 \<Longrightarrow> is_digit (digit n)"
proof -
  assume "n < 10"
  then have "n \<in> set [0..<10]" by simp
  moreover have "\<forall>n \<in> set [0..<10]. is_digit (digit n)"
    by code_simp
  ultimately show ?thesis by blast
qed

lemma to_string_digits: "to_string n \<noteq> [] \<and> list_all is_digit (to_string n)"
proof (induction n rule: to_string.induct)
  case (1 n)
  then show ?case by (subst (1 2) to_string.simps) (simp add: is_digit_digit)
qed

lemma to_string_value: "foldl (\<lambda>a c. 10 * a + digit_value c) 0 (to_string n) = n"
proof (induction n rule: to_string.induct)
  case (1 n)
  then show ?case by (subst to_string.simps) (simp add: digit_value_digit)
qed

lemma to_string_no_colon: "CHR '':'' \<notin> set (to_string n)"
proof -
  have "\<not> is_digit (CHR '':'')" by (simp add: is_digit_def)
  then show ?thesis using to_string_digits [of n] by (metis list_all_iff)
qed

section \<open>Reading a number\<close>

text \<open>White space, a sign, and digits up to the first character that is none.\<close>

fun digits_value :: "nat \<Rightarrow> string \<Rightarrow> nat" where
  "digits_value n [] = n"
| "digits_value n (c # cs) = (if is_digit c then digits_value (10 * n + digit_value c) cs else n)"

fun signed_digits :: "string \<Rightarrow> bool \<times> nat" where
  "signed_digits [] = (False, 0)"
| "signed_digits (c # cs) =
     (if c \<in> {CHR '' '', CHR 0x09, CHR 0x0A, CHR 0x0B, CHR 0x0C, CHR 0x0D} then signed_digits cs
      else if c = CHR ''-'' then (True, digits_value 0 cs)
      else if c = CHR ''+'' then (False, digits_value 0 cs)
      else (False, digits_value 0 (c # cs)))"

text \<open>
  \<^verbatim>\<open>std::atoi\<close> on a number that an \<^verbatim>\<open>int\<close> can hold; beyond that it is undefined. \<^verbatim>\<open>std::strtoull\<close> gives
  the largest value of its type when the number is too large, and negates modulo 2^64.
\<close>

definition atoi :: "string \<Rightarrow> int" where
  "atoi s = (case signed_digits s of (negative, n) \<Rightarrow> if negative then - int n else int n)"

definition strtoull :: "string \<Rightarrow> nat" where
  "strtoull s = (case signed_digits s of (negative, n) \<Rightarrow>
     if n \<ge> 2 ^ 64 then 2 ^ 64 - 1 else if negative then (2 ^ 64 - n) mod 2 ^ 64 else n)"

lemma digits_value_all: "list_all is_digit cs \<Longrightarrow> digits_value n cs = foldl (\<lambda>a c. 10 * a + digit_value c) n cs"
  by (induction cs arbitrary: n) auto

lemma signed_digits_to_string [simp]: "signed_digits (to_string n) = (False, n)"
proof -
  obtain c cs where s: "to_string n = c # cs" using to_string_digits [of n] by (cases "to_string n") auto
  have "digits_value 0 (to_string n) = n"
    using to_string_digits [of n] by (simp add: digits_value_all to_string_value)
  moreover have "is_digit c" using to_string_digits [of n] s by simp
  then have "c \<notin> {CHR '' '', CHR 0x09, CHR 0x0A, CHR 0x0B, CHR 0x0C, CHR 0x0D}" "c \<noteq> CHR ''-''" "c \<noteq> CHR ''+''"
    by (auto simp: is_digit_def)
  ultimately show ?thesis unfolding s by simp
qed

lemma atoi_to_string [simp]: "atoi (to_string n) = int n"
  by (simp add: atoi_def)

lemma strtoull_to_string [simp]: "n < 2 ^ 64 \<Longrightarrow> strtoull (to_string n) = n"
  by (simp add: strtoull_def)

end
