(* ===== verification/Rpc_Echo.thy ===== *)
theory Rpc_Echo
  imports Rpc_Calls Rpc_Text
begin

text \<open>
  Model of the echo programs of the repository, \<^verbatim>\<open>src/examples/include/e1_echo.cc\<close> (a service with the
  methods echo, reverse and length, and a server for it) and \<^verbatim>\<open>src/examples/include/e2_echo.cc\<close> (a client
  that calls echo in the four call modes).
\<close>

section \<open>The echo service\<close>

text \<open>The member functions that the service registers as handlers.\<close>

datatype EchoMethod = Echo | Reverse | Length

definition EchoService_echo :: "memory \<Rightarrow> RpcContext \<Rightarrow> RpcContext option" where
  "EchoService_echo mem ctx = (
     let req = cx_request ctx
     in Some (cx_setPayload_view (RpcRequest_payloadView req) ctx))"

definition EchoService_reverse :: "memory \<Rightarrow> RpcContext \<Rightarrow> RpcContext option" where
  "EchoService_reverse mem ctx = do {
     (payload, request) \<leftarrow> RpcRequest_payload mem (cx_request ctx);
     let ctx = ctx\<lparr>cx_request := request\<rparr>;
     let data = payload;
     let data = rev data;
     cx_setPayload_string mem data ctx }"

definition EchoService_length :: "endian \<Rightarrow> memory \<Rightarrow> RpcContext \<Rightarrow> RpcContext option" where
  "EchoService_length en mem ctx = do {
     (payload, request) \<leftarrow> RpcRequest_payload mem (cx_request ctx);
     let ctx = ctx\<lparr>cx_request := request\<rparr>;
     let len = (word_of_nat (length payload) :: u32);
     cx_setPayload mem (Buf (host_store32 en len) 0) 4 ctx }"

fun EchoService_run :: "endian \<Rightarrow> EchoMethod \<Rightarrow> memory \<Rightarrow> RpcContext \<Rightarrow> RpcContext option" where
  "EchoService_run en Echo = EchoService_echo"
| "EchoService_run en Reverse = EchoService_reverse"
| "EchoService_run en Length = EchoService_length en"

text \<open>The constructor: the members are bound to the service object itself, which has no state of its own.
  The service has no stream sessions.\<close>

definition EchoService :: "(EchoMethod, unit) RpcService" where
  "EchoService = (
     let sv = mkRpcService (ascii ''EchoService'');
         sv = registerMethod_member (ascii ''echo'') () (\<lambda>_. Echo) sv;
         sv = registerClientStreamingMethod_member (ascii ''echo'') () (\<lambda>_. Echo) sv;
         sv = registerServerStreamingMethod_member (ascii ''echo'') () (\<lambda>_. Echo) sv;
         sv = registerBidiStreamingMethod_member (ascii ''echo'') () (\<lambda>_. Echo) sv;
         sv = registerMethod_member (ascii ''reverse'') () (\<lambda>_. Reverse) sv
     in registerMethod_member (ascii ''length'') () (\<lambda>_. Length) sv)"

section \<open>What the service computes\<close>

definition echo_result :: "endian \<Rightarrow> EchoMethod \<Rightarrow> bytes \<Rightarrow> bytes" where
  "echo_result en h data =
     (case h of Echo \<Rightarrow> data | Reverse \<Rightarrow> rev data | Length \<Rightarrow> host_store32 en (word_of_nat (length data)))"

definition EchoService_act :: "endian \<Rightarrow> EchoMethod \<Rightarrow> request_fields \<Rightarrow> response_fields" where
  "EchoService_act en h f = \<lparr>pf_id = qf_id f, pf_mode = qf_mode f, pf_end = True, pf_error = OK,
     pf_payload = echo_result en h (qf_payload f)\<rparr>"

lemma request_payload_bytes:
  assumes "request_value mem q = Some f"
  shows "\<exists>q'. RpcRequest_payload mem q = Some (qf_payload f, q')"
  using assms request_payload.materialize_bytes [of q mem]
  by (fastforce simp: RpcRequest_payload_def request_value_def split: if_splits)

lemma set_payload_value:
  assumes "request_value mem q = Some f"
  shows "\<exists>ctx. cx_setPayload mem (Buf b 0) (length b) \<lparr>cx_request = q', cx_response = new_response q\<rparr> = Some ctx \<and>
    response_value mem (cx_response ctx) =
      Some \<lparr>pf_id = qf_id f, pf_mode = qf_mode f, pf_end = True, pf_error = OK, pf_payload = b\<rparr>"
  using assms
  by (auto simp: cx_setPayload_def RpcResponse_set_payload_def rdp_Some request_value_def response_value_def new_response_def
      mkRpcResponse_def RpcResponse_init_def RpcResponse_payloadView_def view_simps split: if_splits)

lemma EchoService_computes: "handlers_compute (EchoService_run en) services (EchoService_act en)"
  unfolding handlers_compute_def
proof (intro allI impI)
  fix h mem q f assume "resolveMethodHandler services q = Inr h \<and> request_value mem q = Some f"
  then have val: "request_value mem q = Some f" by blast
  obtain q' where pay: "RpcRequest_payload mem q = Some (qf_payload f, q')"
    using request_payload_bytes [OF val] by blast
  let ?ctx = "\<lparr>cx_request = q, cx_response = new_response q\<rparr>"
  show "\<exists>ctx. EchoService_run en h mem ?ctx = Some ctx \<and> response_value mem (cx_response ctx) = Some (EchoService_act en h f)"
  proof (cases h)
    case Echo
    then show ?thesis
      using val
      by (auto simp: EchoService_echo_def EchoService_act_def echo_result_def cx_setPayload_view_def new_response_def
          mkRpcResponse_def RpcResponse_init_def request_value_def response_value_def RpcResponse_set_payloadView_def
          RpcResponse_payloadView_def split: if_splits)
  next
    case Reverse
    then show ?thesis
      using pay set_payload_value [OF val, of "rev (qf_payload f)" q']
      by (simp add: EchoService_reverse_def EchoService_act_def echo_result_def cx_setPayload_string_def)
  next
    case Length
    have "length (host_store32 en v) = 4" for v by (cases en) (simp_all add: host_store32_def le_bytes32_def)
    then show ?thesis
      using Length pay set_payload_value [OF val, of "host_store32 en (word_of_nat (length (qf_payload f)))" q']
      by (simp add: EchoService_length_def EchoService_act_def echo_result_def)
  qed
qed

definition echo_method :: "bytes \<Rightarrow> RpcCallMode \<Rightarrow> EchoMethod option" where
  "echo_method method mode =
     (if method = ascii ''echo'' then Some Echo
      else if mode = UNARY \<and> method = ascii ''reverse'' then Some Reverse
      else if mode = UNARY \<and> method = ascii ''length'' then Some Length
      else None)"

lemma EchoService_methods: "findMethod m mode EchoService = echo_method m mode"
  by (cases mode)
     (simp_all add: EchoService_def echo_method_def registerMethod_member_def registerUnaryMethod_member_def
       registerClientStreamingMethod_member_def registerServerStreamingMethod_member_def
       registerBidiStreamingMethod_member_def registerMemberMethod_def registerMethodByMode_def mkRpcService_def
       findMethod_def findMethod_unary_def RpcMethodSlots_init_def kStreamRpcModeCount_def numeral_eq_Suc Let_def)

section \<open>The server program\<close>

definition e1_port :: "string list \<Rightarrow> u16" where
  "e1_port argv = (if length argv > 1 then word_of_int (atoi (argv ! 1)) else 9000)"

definition e1_server :: "nat \<Rightarrow> RuntimeAffinityConfig \<Rightarrow> u16 \<Rightarrow> (EchoMethod, unit) RpcServer" where
  "e1_server hardware_concurrency affinity port = (
     let echoService = EchoService;
         server = mkRpcServer hardware_concurrency
           (builder_port port (builder_host ''0.0.0.0'' (RpcServerConfig_init affinity)))
     in server_registerService echoService server)"

text \<open>
  The main program: it starts the server, waits until a signal arrives or the server is found
  stopped, and stops it. What it prints is left out.
\<close>

definition e1_main :: "nat \<Rightarrow> RuntimeAffinityConfig \<Rightarrow> string list \<Rightarrow> bool \<Rightarrow> (EchoMethod, unit) RpcServer" where
  "e1_main hardware_concurrency affinity argv scheduled = (
     let server = e1_server hardware_concurrency affinity (e1_port argv);
         server = server_start scheduled server
     in server_stop server)"

lemma e1_port_read: "e1_port [program] = 9000" "e1_port (program # to_string n # argv) = word_of_nat n"
  by (simp_all add: e1_port_def)

text \<open>What the server answers to a request.\<close>

definition echo_answer :: "endian \<Rightarrow> request_fields \<Rightarrow> response_fields" where
  "echo_answer en f =
     (let reply = \<lambda>code data. \<lparr>pf_id = qf_id f, pf_mode = qf_mode f, pf_end = True, pf_error = code, pf_payload = data\<rparr>
      in if qf_service f \<noteq> ascii ''EchoService'' then reply SERVICE_NOT_FOUND []
         else case echo_method (qf_method f) (qf_mode f) of
             None \<Rightarrow> reply METHOD_NOT_FOUND []
           | Some h \<Rightarrow> reply OK (echo_result en h (qf_payload f)))"

lemma EchoService_name: "sv_name EchoService = ascii ''EchoService''"
  by (simp add: EchoService_def registerMethod_member_def registerUnaryMethod_member_def
       registerClientStreamingMethod_member_def registerServerStreamingMethod_member_def
       registerBidiStreamingMethod_member_def registerMemberMethod_def registerMethodByMode_def mkRpcService_def Let_def)

lemma e1_services: "srv_services (e1_server hc aff port) = [(ascii ''EchoService'', EchoService)]"
  by (simp add: e1_server_def server_registerService_def registerService_def mkRpcServer_def EchoService_name)

lemma e1_answers: "answer (srv_services (e1_server hc aff port)) (EchoService_act en) f = echo_answer en f"
  by (auto simp: answer_def resolveMethodHandler_def e1_services EchoService_methods route_of_def echo_answer_def
      EchoService_act_def Let_def split: option.split)

section \<open>The client program\<close>

text \<open>What a program has printed to its two output streams.\<close>

record console =
  con_out :: string
  con_err :: string

definition say :: "string \<Rightarrow> console \<Rightarrow> console" where
  "say text con = con\<lparr>con_out := con_out con @ text\<rparr>"

definition complain :: "string \<Rightarrow> console \<Rightarrow> console" where
  "complain text con = con\<lparr>con_err := con_err con @ text\<rparr>"

abbreviation newline :: string where
  "newline \<equiv> [CHR 0x0A]"

fun callModeToString :: "RpcCallMode \<Rightarrow> string" where
  "callModeToString UNARY = ''unary''"
| "callModeToString CLIENT_STREAMING = ''client_stream''"
| "callModeToString SERVER_STREAMING = ''server_stream''"
| "callModeToString BIDI_STREAMING = ''bidi''"

text \<open>A coroutine of the client has returned, is still suspended, or has met undefined behaviour.\<close>

datatype 'rb client_run = Ran console network "'rb RpcClient" | Still_waiting | Ran_undefined

definition report_echo :: "RpcCallMode \<Rightarrow> memory \<Rightarrow> RpcError + RpcResponse option \<Rightarrow> console \<Rightarrow> console option" where
  "report_echo expected_mode mem result con =
     (case result of
        Inl e \<Rightarrow> Some (complain (''Transport error: '' @ err_message e @ newline @ newline) con)
      | Inr None \<Rightarrow> Some (complain (''No response received'' @ newline @ newline) con)
      | Inr (Some response) \<Rightarrow>
          (if \<not> RpcResponse_isOk response
           then Some (complain (''RPC error: '' @ rpcErrorCodeToString (rs_error_code response) @ newline @ newline) con)
           else do {
             (payload, response) \<leftarrow> RpcResponse_payload mem response;
             let output = payload;
             let con = say (''Output: '' @ shown output @ newline) con;
             let con = say (''Response mode: '' @ callModeToString (rs_call_mode response) @
               '', end_of_stream='' @ (if rs_end_of_stream response then ''true'' else ''false'') @ newline) con;
             let con = (if rs_call_mode response \<noteq> expected_mode
               then complain (''Mode mismatch: expected='' @ callModeToString expected_mode @
                      '', actual='' @ callModeToString (rs_call_mode response) @ newline) con
               else con);
             Some (say newline con) }))"

definition callEchoWithMode ::
  "string \<Rightarrow> RpcCallMode \<Rightarrow> bytes \<Rightarrow> (network \<Rightarrow> 'rb RpcClient \<Rightarrow> ('rb RpcClient, RpcResponse option) call_outcome) \<Rightarrow>
   console \<Rightarrow> network \<Rightarrow> 'rb RpcClient \<Rightarrow> 'rb client_run" where
  "callEchoWithMode title expected_mode payload call_fn con net cl = (
     let con = say (''=== '' @ title @ '' ==='' @ newline) con;
         con = say (''Input: '' @ shown payload @ newline) con
     in case call_fn net cl of
          Call_waiting \<Rightarrow> Still_waiting
        | Call_undefined \<Rightarrow> Ran_undefined
        | Returned result net cl \<Rightarrow>
            (case report_echo expected_mode (nw_mem net) result con of
               None \<Rightarrow> Ran_undefined
             | Some con \<Rightarrow> Ran con net cl))"

fun then_run :: "'rb client_run \<Rightarrow> (console \<Rightarrow> network \<Rightarrow> 'rb RpcClient \<Rightarrow> 'rb client_run) \<Rightarrow> 'rb client_run" where
  "then_run (Ran con net cl) next = next con net cl"
| "then_run r next = r"

lemma then_run_assoc: "then_run (then_run r f) g = then_run r (\<lambda>con net cl. then_run (f con net cl) g)"
  by (cases r) simp_all

definition e2_args :: "string list \<Rightarrow> string \<times> u16" where
  "e2_args argv =
     (if length argv > 1 then argv ! 1 else ''127.0.0.1'',
      if length argv > 2 then word_of_int (atoi (argv ! 2)) else 9000)"

lemma e2_args_read: "e2_args [program] = (''127.0.0.1'', 9000)" "e2_args [program, host, to_string n] = (host, word_of_nat n)"
  by (simp_all add: e2_args_def)

text \<open>
  \<open>connect_result\<close> is what the kernel's connect answers; \<open>io1\<close> to \<open>io4\<close> are the schedules of the four
  calls. Closing the socket at the end only concerns the kernel.
\<close>

definition runClient ::
  "endian \<Rightarrow> 'rb ring_ops \<Rightarrow> (nat \<Rightarrow> 'rb) \<Rightarrow> IOError \<Rightarrow> IOError option \<Rightarrow>
   io_event list \<times> io_event list \<Rightarrow> io_event list \<times> io_event list \<Rightarrow>
   io_event list \<times> io_event list \<Rightarrow> io_event list \<times> io_event list \<Rightarrow> string \<Rightarrow> u16 \<Rightarrow> network \<Rightarrow> 'rb client_run" where
  "runClient en ops mk_ring sf connect_result io1 io2 io3 io4 host port net = (
     let con = say (''Connecting to '' @ host @ '':'' @ to_string (unat port) @ ''...'' @ newline) \<lparr>con_out = [], con_err = []\<rparr>;
         client = client_connect mk_ring (mkRpcClient RpcClientConfig_init)
     in case connect_result of
          Some e \<Rightarrow> Ran (complain (''Failed to connect: '' @ ioe_message e @ newline) con) net client
        | None \<Rightarrow>
           (let con = say (''Connected!'' @ newline @ newline) con;
                payload = ascii ''Hello, 4-mode RPC World!'';
                es = ascii ''EchoService''; echo = ascii ''echo''
            in then_run (callEchoWithMode ''Unary Echo'' UNARY payload
                 (call_string en ops sf es echo payload io1) con net client)
               (\<lambda>con net client. then_run (callEchoWithMode ''Client Streaming Echo (single frame)'' CLIENT_STREAMING payload
                  (callClientStreamFrame en ops sf es echo (Buf payload 0) (length payload) True io2) con net client)
               (\<lambda>con net client. then_run (callEchoWithMode ''Server Streaming Echo (single response frame)'' SERVER_STREAMING payload
                  (callServerStreamRequest en ops sf es echo (Buf payload 0) (length payload) io3) con net client)
               (\<lambda>con net client. then_run (callEchoWithMode ''Bidi Streaming Echo (single frame)'' BIDI_STREAMING payload
                  (callBidiStreamFrame en ops sf es echo (Buf payload 0) (length payload) True io4) con net client)
               (\<lambda>con net client. Ran (say (''Client closed.'' @ newline) con) net client))))))"

section \<open>The client against the server\<close>

text \<open>What one successful call prints.\<close>

definition echo_section :: "string \<Rightarrow> RpcCallMode \<Rightarrow> bytes \<Rightarrow> string" where
  "echo_section title mode data =
     ''=== '' @ title @ '' ==='' @ newline @ ''Input: '' @ shown data @ newline @ ''Output: '' @ shown data @ newline @
     ''Response mode: '' @ callModeToString mode @ '', end_of_stream=true'' @ newline @ newline"

lemma response_payload_bytes:
  assumes "response_value mem r = Some g"
  shows "\<exists>r'. RpcResponse_payload mem r = Some (pf_payload g, r') \<and> rs_call_mode r' = pf_mode g \<and> rs_end_of_stream r' = pf_end g"
proof -
  have val: "view_ok (RpcResponse_payloadView r)" "pf_payload g = view_bytes mem (RpcResponse_payloadView r)"
      "rs_call_mode r = pf_mode g" "rs_end_of_stream r = pf_end g"
    using assms by (auto simp: response_value_def split: if_splits)
  obtain r' where r': "RpcResponse_materialize mem r = Some r'" "rs_payload r' = pf_payload g"
    using response_payload.materialize_bytes [OF val(1), of mem] val(2) by metis
  have "rs_call_mode r' = rs_call_mode r \<and> rs_end_of_stream r' = rs_end_of_stream r"
    using r'(1) by (auto simp: RpcResponse_materialize_def bind_Some_iff Let_def split: if_splits)
  then show ?thesis using r' val by (simp add: RpcResponse_payload_def)
qed

context ring_buffer
begin

lemma echo_call_prints:
  assumes cl: "connected cl rb" "ring_inv rb" "max_message_size (cc_reader_setting (cl_config cl)) = RPC_MAX_BODY_SIZE"
    and f: "f = call_fields (cl_request_id cl) service meth mode True data"
    and g: "reply f = \<lparr>pf_id = cl_request_id cl, pf_mode = mode, pf_end = True, pf_error = OK, pf_payload = data\<rparr>"
      "length (response_frame (reply f)) \<le> ring_capacity ops rb" "length data + 2 \<le> RPC_MAX_BODY_SIZE"
      "ring_content ops (nw_mem net) rb @ nw_stream net = response_frame (reply f) @ later"
    and io: "delivers wevs" "delivers revs" "length (response_frame (reply f)) \<le> length revs" "length (request_frame f) \<le> length wevs"
  shows "\<exists>net' cl' rb'.
    callEchoWithMode title mode data
      (callWithMode en ops sf service meth mode True (Buf data 0) (length data) (wevs, revs)) con net cl =
      Ran (say (echo_section title mode data) con) net' cl' \<and>
    nw_wire net' = nw_wire net @ request_frame f \<and> connected cl' rb' \<and> ring_inv rb' \<and>
    cl_request_id cl' = cl_request_id cl + 1 \<and> cl_config cl' = cl_config cl \<and>
    ring_capacity ops rb' = ring_capacity ops rb \<and> ring_content ops (nw_mem net') rb' @ nw_stream net' = later"
proof -
  have fits: "reply_fits (max_message_size (cc_reader_setting (cl_config cl))) (reply f)"
    using g(1,3) cl(3) by (simp add: reply_fits_def max_body_eq named_errorcode_canonical named_errorcodes_def)
  have ids: "pf_id (reply f) = cl_request_id cl" "pf_mode (reply f) = mode" using g(1) by simp_all
  obtain resp net' cl' rb' where c:
    "callWithMode en ops sf service meth mode True (Buf data 0) (length data) (wevs, revs) net cl = Returned (Inr (Some resp)) net' cl'"
    "response_value (nw_mem net') resp = Some (reply f)" "nw_wire net' = nw_wire net @ request_frame f"
    "cl' = cl\<lparr>cl_request_id := cl_request_id cl + 1, cl_ring_buffer := Some rb'\<rparr>" "ring_inv rb'"
    "ring_capacity ops rb' = ring_capacity ops rb" "ring_content ops (nw_mem net') rb' @ nw_stream net' = later"
    using call_receives [OF cl(1,2) _ fits g(2,4) io(1-3), of "Buf data 0" "length data" f service meth mode True en sf] f io(4) ids
    by auto
  have ok: "RpcResponse_isOk resp" using c(2) g(1) by (auto simp: RpcResponse_isOk_def response_value_def split: if_splits)
  obtain r' where "RpcResponse_payload (nw_mem net') resp = Some (data, r')" "rs_call_mode r' = mode" "rs_end_of_stream r'"
    using response_payload_bytes [OF c(2)] g(1) by auto
  then show ?thesis
    using c ok cl(1)
    by (auto simp: callEchoWithMode_def report_echo_def echo_section_def say_def connected_def Let_def)
qed

text \<open>The four requests of the client program, and the replies to them.\<close>

end

definition hello :: bytes where
  "hello = ascii ''Hello, 4-mode RPC World!''"

definition hello_call :: "u32 \<Rightarrow> RpcCallMode \<Rightarrow> request_fields" where
  "hello_call i mode = call_fields i (ascii ''EchoService'') (ascii ''echo'') mode True hello"

fun hello_calls :: "u32 \<Rightarrow> RpcCallMode list \<Rightarrow> request_fields list" where
  "hello_calls i [] = []"
| "hello_calls i (mode # modes) = hello_call i mode # hello_calls (i + 1) modes"

abbreviation the_modes :: "RpcCallMode list" where
  "the_modes \<equiv> [UNARY, CLIENT_STREAMING, SERVER_STREAMING, BIDI_STREAMING]"

text \<open>The calls of the client program, one after another.\<close>

fun hello_runs ::
  "endian \<Rightarrow> 'rb ring_ops \<Rightarrow> IOError \<Rightarrow> (string \<times> RpcCallMode \<times> io_event list \<times> io_event list) list \<Rightarrow>
   console \<Rightarrow> network \<Rightarrow> 'rb RpcClient \<Rightarrow> 'rb client_run" where
  "hello_runs en ops sf [] con net cl = Ran con net cl"
| "hello_runs en ops sf ((title, mode, io) # xs) con net cl =
     then_run (callEchoWithMode title mode hello
       (callWithMode en ops sf (ascii ''EchoService'') (ascii ''echo'') mode True (Buf hello 0) (length hello) io) con net cl)
     (hello_runs en ops sf xs)"

definition hello_transcript :: "string \<Rightarrow> u16 \<Rightarrow> string" where
  "hello_transcript host port =
     ''Connecting to '' @ host @ '':'' @ to_string (unat port) @ ''...'' @ newline @ ''Connected!'' @ newline @ newline @
     echo_section ''Unary Echo'' UNARY hello @
     echo_section ''Client Streaming Echo (single frame)'' CLIENT_STREAMING hello @
     echo_section ''Server Streaming Echo (single response frame)'' SERVER_STREAMING hello @
     echo_section ''Bidi Streaming Echo (single frame)'' BIDI_STREAMING hello @
     ''Client closed.'' @ newline"

lemma hello_answer:
  "echo_answer en (hello_call i mode) = \<lparr>pf_id = i, pf_mode = mode, pf_end = True, pf_error = OK, pf_payload = hello\<rparr>"
  by (simp add: echo_answer_def hello_call_def call_fields_def echo_method_def echo_result_def)

lemma hello_sizes: "length (request_frame (hello_call i mode)) = 59"
    "length (response_frame (echo_answer en (hello_call i mode))) = 42" "fields_fit (hello_call i mode)"
  by (simp_all add: hello_answer) (simp_all add: hello_call_def request_frame_def response_frame_def call_fields_def hello_def
      fields_fit_def max_body_eq)

text \<open>A client between two calls: its next request id, and what it has not read yet.\<close>

definition between_calls :: "'rb ring_ops \<Rightarrow> ('rb \<Rightarrow> bool) \<Rightarrow> u32 \<Rightarrow> bytes \<Rightarrow> network \<Rightarrow> 'rb RpcClient \<Rightarrow> bool" where
  "between_calls ops ring_inv i pending net cl \<longleftrightarrow> (\<exists>rb. connected cl rb \<and> ring_inv rb \<and> cl_request_id cl = i \<and>
     max_message_size (cc_reader_setting (cl_config cl)) = RPC_MAX_BODY_SIZE \<and> 42 \<le> ring_capacity ops rb \<and>
     ring_content ops (nw_mem net) rb @ nw_stream net = pending)"

context ring_buffer
begin

lemma hello_call_prints:
  assumes "between_calls ops ring_inv i (response_frame (echo_answer sen (hello_call i mode)) @ later) net cl"
    and "delivers (fst io)" "59 \<le> length (fst io)" "delivers (snd io)" "42 \<le> length (snd io)"
  obtains net' cl' where
    "callEchoWithMode title mode hello (callWithMode en ops sf (ascii ''EchoService'') (ascii ''echo'') mode True
        (Buf hello 0) (length hello) io) con net cl = Ran (say (echo_section title mode hello) con) net' cl'"
    "nw_wire net' = nw_wire net @ request_frame (hello_call i mode)" "between_calls ops ring_inv (i + 1) later net' cl'"
proof -
  obtain rb where cl: "connected cl rb" "ring_inv rb" "max_message_size (cc_reader_setting (cl_config cl)) = RPC_MAX_BODY_SIZE"
      "cl_request_id cl = i" "42 \<le> ring_capacity ops rb"
      "ring_content ops (nw_mem net) rb @ nw_stream net = response_frame (echo_answer sen (hello_call i mode)) @ later"
    using assms(1) by (auto simp: between_calls_def)
  have data: "length hello + 2 \<le> RPC_MAX_BODY_SIZE" by (simp add: hello_def max_body_eq)
  have f: "hello_call i mode = call_fields (cl_request_id cl) (ascii ''EchoService'') (ascii ''echo'') mode True hello"
    using cl(4) by (simp add: hello_call_def)
  have g: "echo_answer sen (hello_call i mode) =
      \<lparr>pf_id = cl_request_id cl, pf_mode = mode, pf_end = True, pf_error = OK, pf_payload = hello\<rparr>"
    using cl(4) by (simp add: hello_answer)
  obtain net' cl' rb' where "callEchoWithMode title mode hello (callWithMode en ops sf (ascii ''EchoService'') (ascii ''echo'') mode True
        (Buf hello 0) (length hello) (fst io, snd io)) con net cl = Ran (say (echo_section title mode hello) con) net' cl'"
      "nw_wire net' = nw_wire net @ request_frame (hello_call i mode)" "connected cl' rb'" "ring_inv rb'"
      "cl_request_id cl' = cl_request_id cl + 1" "cl_config cl' = cl_config cl" "ring_capacity ops rb' = ring_capacity ops rb"
      "ring_content ops (nw_mem net') rb' @ nw_stream net' = later"
    using echo_call_prints [OF cl(1-3) f, where reply = "echo_answer sen", OF g _ data cl(6) assms(2,4)] hello_sizes cl(5) assms(3,5)
    by metis
  then show thesis
    using that [of net' cl'] cl(3-5) unfolding between_calls_def by (metis prod.collapse)
qed

lemma hello_runs_print:
  assumes "between_calls ops ring_inv i
      (concat (map (\<lambda>f. response_frame (echo_answer sen f)) (hello_calls i (map (\<lambda>x. fst (snd x)) xs)))) net cl"
    and "\<forall>(title, mode, wevs, revs) \<in> set xs. delivers wevs \<and> 59 \<le> length wevs \<and> delivers revs \<and> 42 \<le> length revs"
  shows "\<exists>net' cl'. hello_runs en ops sf xs con net cl =
      Ran (say (concat (map (\<lambda>(title, mode, io). echo_section title mode hello) xs)) con) net' cl' \<and>
    nw_wire net' = nw_wire net @ concat (map request_frame (hello_calls i (map (\<lambda>x. fst (snd x)) xs)))"
  using assms
proof (induction xs arbitrary: i con net cl)
  case Nil
  then show ?case by (simp add: say_def)
next
  case (Cons x xs)
  obtain title mode wevs revs where x: "x = (title, mode, wevs, revs)" by (cases x)
  let ?later = "concat (map (\<lambda>f. response_frame (echo_answer sen f)) (hello_calls (i + 1) (map (\<lambda>x. fst (snd x)) xs)))"
  have "between_calls ops ring_inv i (response_frame (echo_answer sen (hello_call i mode)) @ ?later) net cl"
    using Cons.prems(1) x by simp
  moreover have io: "delivers (fst (wevs, revs))" "59 \<le> length (fst (wevs, revs))"
      "delivers (snd (wevs, revs))" "42 \<le> length (snd (wevs, revs))"
    using Cons.prems(2) x by simp_all
  ultimately obtain net1 cl1 where
    one: "callEchoWithMode title mode hello (callWithMode en ops sf (ascii ''EchoService'') (ascii ''echo'') mode True
        (Buf hello 0) (length hello) (wevs, revs)) con net cl = Ran (say (echo_section title mode hello) con) net1 cl1"
    "nw_wire net1 = nw_wire net @ request_frame (hello_call i mode)" "between_calls ops ring_inv (i + 1) ?later net1 cl1"
    by (rule hello_call_prints)
  have "\<forall>(title, mode, wevs, revs) \<in> set xs. delivers wevs \<and> 59 \<le> length wevs \<and> delivers revs \<and> 42 \<le> length revs"
    using Cons.prems(2) by simp
  from Cons.IH [OF one(3) this, of "say (echo_section title mode hello) con"] one(1,2) x show ?case
    by (auto simp: say_def)
qed

lemma runClient_prints:
  assumes rb: "rb = mk_ring kDefaultRpcRingBufferSize" "ring_inv rb" "ring_content ops mem rb = []" "42 \<le> ring_capacity ops rb"
    and io: "list_all (\<lambda>(wevs, revs). delivers wevs \<and> 59 \<le> length wevs \<and> delivers revs \<and> 42 \<le> length revs) [io1, io2, io3, io4]"
    and net: "net = \<lparr>nw_mem = mem, nw_stream = concat (map (\<lambda>f. response_frame (echo_answer sen f)) (hello_calls 0 the_modes)), nw_wire = []\<rparr>"
  shows "\<exists>net' cl'. runClient en ops mk_ring sf None io1 io2 io3 io4 host port net =
      Ran \<lparr>con_out = hello_transcript host port, con_err = []\<rparr> net' cl' \<and>
    nw_wire net' = concat (map request_frame (hello_calls 0 the_modes))"
proof -
  let ?cl = "client_connect mk_ring (mkRpcClient RpcClientConfig_init)"
  let ?xs = "[(''Unary Echo'', UNARY, io1), (''Client Streaming Echo (single frame)'', CLIENT_STREAMING, io2),
    (''Server Streaming Echo (single response frame)'', SERVER_STREAMING, io3), (''Bidi Streaming Echo (single frame)'', BIDI_STREAMING, io4)]"
  let ?con = "say (''Connected!'' @ newline @ newline) (say (''Connecting to '' @ host @ '':'' @ to_string (unat port) @ ''...'' @ newline)
      \<lparr>con_out = [], con_err = []\<rparr>)"
  have modes: "map (\<lambda>x. fst (snd x)) ?xs = the_modes" by simp
  have "between_calls ops ring_inv 0 (nw_stream net) net ?cl"
    using rb net by (auto simp: between_calls_def connected_def client_connect_def mkRpcClient_def RpcClientConfig_init_def
        RpcReaderSetting_init_def kDefaultRpcRingBufferSize_def Let_def)
  then have "between_calls ops ring_inv 0 (concat (map (\<lambda>f. response_frame (echo_answer sen f)) (hello_calls 0 (map (\<lambda>x. fst (snd x)) ?xs)))) net ?cl"
    using net by (simp only: modes) simp
  from hello_runs_print [OF this, of en sf ?con] io obtain net' cl' where
    "hello_runs en ops sf ?xs ?con net ?cl = Ran (say (concat (map (\<lambda>(title, mode, io). echo_section title mode hello) ?xs)) ?con) net' cl'"
    "nw_wire net' = nw_wire net @ concat (map request_frame (hello_calls 0 the_modes))"
    by (auto simp: case_prod_beta)
  moreover have "runClient en ops mk_ring sf None io1 io2 io3 io4 host port net =
      then_run (hello_runs en ops sf ?xs ?con net ?cl) (\<lambda>con net client. Ran (say (''Client closed.'' @ newline) con) net client)"
    by (simp add: runClient_def call_string_def call_def callClientStreamFrame_def callServerStreamRequest_def
        callBidiStreamFrame_def hello_def [symmetric] then_run_assoc Let_def)
  ultimately show ?thesis
    using net by (simp add: hello_transcript_def say_def)
qed

end

lemma e1_ring: "cfg_ring_buffer_size (srv_config (e1_server hc aff port)) = kDefaultRpcRingBufferSize"
  by (simp add: e1_server_def server_registerService_def mkRpcServer_def builder_port_def builder_host_def RpcServerConfig_init_def)

lemma normalize_default [simp]: "normalizeRingBufferSize kDefaultRpcRingBufferSize = kDefaultRpcRingBufferSize"
  by (simp add: normalizeRingBufferSize_def kDefaultRpcRingBufferSize_def)

definition default_affinity :: RuntimeAffinityConfig where
  "default_affinity = \<lparr>af_mode = Affinity_default, af_seq_io_count = 0, af_seq_compute_count = 0,
     af_custom_io_cpus = [], af_custom_compute_cpus = []\<rparr>"

section \<open>Properties\<close>

text \<open>C11. The echo server of the examples does what it says. Whatever requests arrive on a connection, in any
  number and cut anywhere, each gets one response, in order: echo, in each of the four call modes,
  returns the payload unchanged; reverse returns it reversed and length returns its length as four
  bytes in the byte order of the server, both as unary calls only; another method of the service is
  METHOD_NOT_FOUND and another service SERVICE_NOT_FOUND.\<close>

theorem echo_server_answers:
  assumes "ring_buffer ops ring_inv" "rb = mk_ring kDefaultRpcRingBufferSize" "ring_inv rb" "ring_content ops mem rb = []"
    and "length ios = length fs"
    and "list_all (\<lambda>f. fields_fit f \<and> length (request_frame f) \<le> ring_capacity ops rb \<and>
        length (response_frame (echo_answer en f)) \<le> k) fs"
    and "list_all (\<lambda>(revs, wevs). delivers revs \<and> ring_capacity ops rb \<le> length revs \<and> delivers wevs \<and> k \<le> length wevs) ios"
  shows "\<exists>st. handleConnection en ops mk_ring sf (EchoService_run en) (e1_server hc aff port) None ios mem
      (concat (map request_frame fs) @ later) = Closed st \<and>
    ss_wire st = concat (map (\<lambda>f. response_frame (echo_answer en f)) fs) \<and>
    unread ops st = later \<and> ss_last_error st = None"
  using ring_buffer.calls_served [where mk_ring = mk_ring and srv = "e1_server hc aff port" and run = "EchoService_run en",
      OF assms(1) _ assms(3,4) EchoService_computes assms(5), unfolded e1_answers e1_ring normalize_default, OF assms(2,6,7)] .

theorem echo_server_answers_witness:
  "\<exists>st. handleConnection Little circ_ops mk_circ no_error (EchoService_run Little) (e1_server 4 default_affinity 9000) None
      [(replicate 8192 (Deliver 3), replicate 30 (Deliver 2))] (\<lambda>_. 0)
      (request_frame (call_fields 7 (ascii ''EchoService'') (ascii ''reverse'') UNARY True [1, 2, 3])) = Closed st \<and>
    ss_wire st = response_frame \<lparr>pf_id = 7, pf_mode = UNARY, pf_end = True, pf_error = OK, pf_payload = [3, 2, 1]\<rparr>"
proof -
  let ?f = "call_fields 7 (ascii ''EchoService'') (ascii ''reverse'') UNARY True [1, 2, 3]"
  have ans: "echo_answer Little ?f = \<lparr>pf_id = 7, pf_mode = UNARY, pf_end = True, pf_error = OK, pf_payload = [3, 2, 1]\<rparr>"
    by (simp add: echo_answer_def call_fields_def echo_method_def echo_result_def)
  have "fields_fit ?f" "length (request_frame ?f) \<le> 8192" "length (response_frame (echo_answer Little ?f)) \<le> 30"
    unfolding ans by (simp_all add: fields_fit_def call_fields_def request_frame_def response_frame_def max_body_eq)
  then show ?thesis
    using echo_server_answers [OF circ.ring_buffer_axioms refl, of mk_circ "\<lambda>_. 0" "[(replicate 8192 (Deliver 3), replicate 30 (Deliver 2))]"
        "[?f]" Little 30 no_error 4 default_affinity 9000 "[]"] ans
    by (auto simp: kDefaultRpcRingBufferSize_def delivers_def)
qed

text \<open>C10. The two echo programs of the examples work together. The client program, run against the server
  program over one connection, with any byte order on either side and the bytes cut anywhere in both
  directions, prints the four sections of its transcript, each with the payload echoed under its own
  call mode and marked as the end of its stream; nothing is printed to the error stream, and the
  server records no error.\<close>

theorem echo_programs_agree:
  assumes "ring_buffer cops cinv" "crb = cmk kDefaultRpcRingBufferSize" "cinv crb" "ring_content cops cmem crb = []" "42 \<le> ring_capacity cops crb"
    and "ring_buffer sops sinv" "srb = smk kDefaultRpcRingBufferSize" "sinv srb" "ring_content sops smem srb = []" "59 \<le> ring_capacity sops srb"
    and "list_all (\<lambda>(wevs, revs). delivers wevs \<and> 59 \<le> length wevs \<and> delivers revs \<and> 42 \<le> length revs) [io1, io2, io3, io4]"
    and "length sios = 4"
    and "list_all (\<lambda>(revs, wevs). delivers revs \<and> ring_capacity sops srb \<le> length revs \<and> delivers wevs \<and> 42 \<le> length wevs) sios"
  shows "\<exists>st net' cl'.
    handleConnection sen sops smk ssf (EchoService_run sen) (e1_server hc aff port) None sios smem (nw_wire net') = Closed st \<and>
    ss_last_error st = None \<and>
    runClient cen cops cmk csf None io1 io2 io3 io4 host port \<lparr>nw_mem = cmem, nw_stream = ss_wire st, nw_wire = []\<rparr> =
      Ran \<lparr>con_out = hello_transcript host port, con_err = []\<rparr> net' cl'"
proof -
  have "list_all (\<lambda>f. fields_fit f \<and> length (request_frame f) \<le> ring_capacity sops srb \<and> length (response_frame (echo_answer sen f)) \<le> 42)
      (hello_calls 0 the_modes)"
    using assms(10) hello_sizes by simp
  from ring_buffer.calls_served [where mk_ring = smk and srv = "e1_server hc aff port" and run = "EchoService_run sen",
      OF assms(6) _ assms(8,9) EchoService_computes _, unfolded e1_answers e1_ring normalize_default, OF assms(7) _ this assms(13), where sf = ssf and en = sen and later = "[]"]
    assms(12) obtain st where st:
    "handleConnection sen sops smk ssf (EchoService_run sen) (e1_server hc aff port) None sios smem
       (concat (map request_frame (hello_calls 0 the_modes))) = Closed st"
    "ss_wire st = concat (map (\<lambda>f. response_frame (echo_answer sen f)) (hello_calls 0 the_modes))" "ss_last_error st = None"
    by auto
  from ring_buffer.runClient_prints [where mk_ring = cmk, OF assms(1-5,11) refl, where sen = sen and en = cen and sf = csf
      and host = host and port = port] obtain net' cl' where
    "runClient cen cops cmk csf None io1 io2 io3 io4 host port \<lparr>nw_mem = cmem, nw_stream = ss_wire st, nw_wire = []\<rparr> =
      Ran \<lparr>con_out = hello_transcript host port, con_err = []\<rparr> net' cl'"
    "nw_wire net' = concat (map request_frame (hello_calls 0 the_modes))"
    unfolding st(2) by blast
  with st(1,3) show ?thesis by (intro exI [of _ st] exI [of _ net'] exI [of _ cl']) simp
qed

theorem echo_programs_agree_witness:
  "\<exists>st net' cl'.
    handleConnection Big circ_ops mk_circ no_error (EchoService_run Big) (e1_server 4 default_affinity 9000) None
      (replicate 4 (replicate 8192 (Deliver 3), replicate 42 (Deliver 5))) (\<lambda>_. 0) (nw_wire net') = Closed st \<and>
    runClient Little circ_ops mk_circ no_error None (replicate 60 (Deliver 1), replicate 42 (Deliver 2))
      (replicate 60 (Deliver 4), replicate 42 (Deliver 9)) (replicate 60 (Deliver 8), replicate 42 (Deliver 1))
      (replicate 60 (Deliver 90), replicate 42 (Deliver 7)) ''127.0.0.1'' 9000
      \<lparr>nw_mem = \<lambda>_. 0, nw_stream = ss_wire st, nw_wire = []\<rparr> =
      Ran \<lparr>con_out = hello_transcript ''127.0.0.1'' 9000, con_err = []\<rparr> net' cl'"
proof -
  have "circ_inv (mk_circ kDefaultRpcRingBufferSize)" "ring_capacity circ_ops (mk_circ kDefaultRpcRingBufferSize) = 8192"
    by (simp_all add: kDefaultRpcRingBufferSize_def)
  then show ?thesis
    using echo_programs_agree [OF circ.ring_buffer_axioms refl _ _ _ circ.ring_buffer_axioms refl, where cmk = mk_circ and smk = mk_circ
        and cmem = "\<lambda>_. 0" and smem = "\<lambda>_. 0" and ?io1.0 = "(replicate 60 (Deliver 1), replicate 42 (Deliver 2))"
        and ?io2.0 = "(replicate 60 (Deliver 4), replicate 42 (Deliver 9))" and ?io3.0 = "(replicate 60 (Deliver 8), replicate 42 (Deliver 1))"
        and ?io4.0 = "(replicate 60 (Deliver 90), replicate 42 (Deliver 7))"
        and sios = "replicate 4 (replicate 8192 (Deliver 3), replicate 42 (Deliver 5))" and sen = Big and ssf = no_error and hc = 4
        and aff = default_affinity and port = 9000 and cen = Little and csf = no_error and host = "''127.0.0.1''"]
    by (auto simp: delivers_def list_all_iff)
qed

end
