(* ===== verification/Rpc_Streamsvc.thy ===== *)
theory Rpc_Streamsvc
  imports Rpc_Server
begin

text \<open>
  Model of \<^verbatim>\<open>src/galay-rpc/kernel/streamsvc.h\<close>: the stream server's configuration, start and stop, its accept
  loop, and the loop that opens stream sessions on a connection.

  The configuration struct has the members of the unary server's, so the same record is used with
  other defaults. A session handler is a value of a type parameter; \<open>run\<close> is what calling one does
  with the session it is given and with the connection: it may read and write any number of frames,
  and it returns (\<open>SServing\<close>), is still waiting, or meets undefined behaviour.
\<close>

section \<open>Configuration and lifecycle\<close>

definition kDefaultStreamRingBufferSize :: nat where
  "kDefaultStreamRingBufferSize = 128 * 1024"

definition RpcStreamServerConfig_init :: "RuntimeAffinityConfig \<Rightarrow> RpcServerConfig" where
  "RpcStreamServerConfig_init affinity =
     \<lparr>cfg_host = ''0.0.0.0'', cfg_port = 9100, cfg_backlog = 1024, cfg_io_scheduler_count = 0,
      cfg_compute_scheduler_count = 0, cfg_affinity = affinity, cfg_ring_buffer_size = kDefaultStreamRingBufferSize\<rparr>"

text \<open>The setters of the builder.\<close>

definition stream_host :: "string \<Rightarrow> RpcServerConfig \<Rightarrow> RpcServerConfig" where
  "stream_host value cfg = cfg\<lparr>cfg_host := value\<rparr>"

definition stream_port :: "u16 \<Rightarrow> RpcServerConfig \<Rightarrow> RpcServerConfig" where
  "stream_port value cfg = cfg\<lparr>cfg_port := value\<rparr>"

definition stream_backlog :: "int \<Rightarrow> RpcServerConfig \<Rightarrow> RpcServerConfig" where
  "stream_backlog value cfg = cfg\<lparr>cfg_backlog := value\<rparr>"

definition stream_ioSchedulerCount :: "nat \<Rightarrow> RpcServerConfig \<Rightarrow> RpcServerConfig" where
  "stream_ioSchedulerCount value cfg = cfg\<lparr>cfg_io_scheduler_count := value\<rparr>"

definition stream_computeSchedulerCount :: "nat \<Rightarrow> RpcServerConfig \<Rightarrow> RpcServerConfig" where
  "stream_computeSchedulerCount value cfg = cfg\<lparr>cfg_compute_scheduler_count := value\<rparr>"

definition stream_sequentialAffinity :: "nat \<Rightarrow> nat \<Rightarrow> RpcServerConfig \<Rightarrow> RpcServerConfig" where
  "stream_sequentialAffinity io_count compute_count cfg =
     cfg\<lparr>cfg_affinity := (cfg_affinity cfg)
       \<lparr>af_mode := Sequential, af_seq_io_count := io_count, af_seq_compute_count := compute_count\<rparr>\<rparr>"

definition stream_customAffinity :: "u32 list \<Rightarrow> u32 list \<Rightarrow> RpcServerConfig \<Rightarrow> bool \<times> RpcServerConfig" where
  "stream_customAffinity io_cpus compute_cpus cfg =
     (if length io_cpus \<noteq> cfg_io_scheduler_count cfg \<or> length compute_cpus \<noteq> cfg_compute_scheduler_count cfg
      then (False, cfg)
      else (True, cfg\<lparr>cfg_affinity := (cfg_affinity cfg)
        \<lparr>af_mode := Custom, af_custom_io_cpus := io_cpus, af_custom_compute_cpus := compute_cpus\<rparr>\<rparr>))"

definition stream_ringBufferSize :: "nat \<Rightarrow> RpcServerConfig \<Rightarrow> RpcServerConfig" where
  "stream_ringBufferSize value cfg = cfg\<lparr>cfg_ring_buffer_size := value\<rparr>"

text \<open>The server object has the members of the unary one.\<close>

definition mkRpcStreamServer :: "nat \<Rightarrow> RpcServerConfig \<Rightarrow> ('h, 's) RpcServer" where
  "mkRpcStreamServer hardware_concurrency config =
     \<lparr>srv_config = config,
      srv_io_schedulers = resolveIoSchedulerCount hardware_concurrency (cfg_io_scheduler_count config),
      srv_services = [], srv_running = False, srv_last_error = None, srv_runtime_calls = []\<rparr>"

definition stream_registerService :: "('h, 's) RpcService \<Rightarrow> ('h, 's) RpcServer \<Rightarrow> ('h, 's) RpcServer" where
  "stream_registerService service srv = srv\<lparr>srv_services := registerService service (srv_services srv)\<rparr>"

text \<open>Both builders and both constructors do the same; only the defaults of the configuration differ.\<close>

lemma stream_builder_agrees:
  "stream_host = builder_host" "stream_port = builder_port" "stream_backlog = builder_backlog"
  "stream_ioSchedulerCount = builder_ioSchedulerCount" "stream_computeSchedulerCount = builder_computeSchedulerCount"
  "stream_sequentialAffinity = sequentialAffinity" "stream_customAffinity = customAffinity"
  "stream_ringBufferSize = builder_ringBufferSize" "mkRpcStreamServer = mkRpcServer"
  "stream_registerService = server_registerService"
  by (simp_all add: fun_eq_iff stream_host_def builder_host_def stream_port_def builder_port_def stream_backlog_def builder_backlog_def
      stream_ioSchedulerCount_def builder_ioSchedulerCount_def stream_computeSchedulerCount_def builder_computeSchedulerCount_def
      stream_sequentialAffinity_def sequentialAffinity_def stream_customAffinity_def customAffinity_def
      stream_ringBufferSize_def builder_ringBufferSize_def mkRpcStreamServer_def mkRpcServer_def
      stream_registerService_def server_registerService_def)

definition stream_server_start :: "bool \<Rightarrow> ('h, 's) RpcServer \<Rightarrow> ('h, 's) RpcServer" where
  "stream_server_start scheduled srv = (
     let srv = srv\<lparr>srv_running := True, srv_runtime_calls := srv_runtime_calls srv @ [RuntimeStart]\<rparr>
     in if \<not> scheduled
        then srv\<lparr>srv_last_error := Some (mkRpcError INTERNAL_ERROR ''Failed to schedule stream accept loop''),
                 srv_running := False, srv_runtime_calls := srv_runtime_calls srv @ [RuntimeStop]\<rparr>
        else srv)"

definition stream_server_stop :: "('h, 's) RpcServer \<Rightarrow> ('h, 's) RpcServer" where
  "stream_server_stop srv =
     (if srv_running srv
      then srv\<lparr>srv_running := False, srv_runtime_calls := srv_runtime_calls srv @ [RuntimeStop]\<rparr>
      else srv)"

interpretation stream_runtime: runtime_owner srv_running srv_runtime_calls stream_server_start stream_server_stop
  by unfold_locales (simp_all add: stream_server_start_def stream_server_stop_def Let_def)

definition stream_acceptLoop :: "listener_env \<Rightarrow> accept_round list \<Rightarrow> nat list \<times> RpcError option" where
  "stream_acceptLoop env rounds = accept_loop ''Failed to schedule stream connection handler'' env rounds"

section \<open>Opening sessions\<close>

definition resolveStreamHandler :: "('h, 's) services \<Rightarrow> StreamInitRequest \<Rightarrow> RpcErrorCode + 's" where
  "resolveStreamHandler services init_req =
     (case map_of services (si_service_name init_req) of
        None \<Rightarrow> Inl SERVICE_NOT_FOUND
      | Some service \<Rightarrow>
          (case findStreamMethod (si_method_name init_req) service of
             None \<Rightarrow> Inl METHOD_NOT_FOUND
           | Some handler \<Rightarrow> Inr handler))"

text \<open>The connection: the memory, the ring, the bytes to come, the bytes sent, and the last error.\<close>

record 'rb stream_conn =
  sc_mem :: memory
  sc_ring :: 'rb
  sc_stream :: bytes
  sc_wire :: bytes
  sc_last_error :: "RpcError option"

datatype 'rb stream_result =
    SServing "'rb stream_conn"
  | SClosed "'rb stream_conn"
  | SWaiting
  | SUndefined

definition stream_close :: "IOError option \<Rightarrow> 'rb stream_conn \<Rightarrow> 'rb stream_result" where
  "stream_close close_result st = SClosed (st\<lparr>sc_last_error := note_error close_result (sc_last_error st)\<rparr>)"

text \<open>
  Sending a control frame on the session and going on with \<open>next\<close>; a failed send ends the connection.
\<close>

definition send_control ::
  "IOError \<Rightarrow> IOError option \<Rightarrow> io_event list \<Rightarrow> WriteState option \<Rightarrow> ('rb stream_conn \<Rightarrow> 'rb stream_result) \<Rightarrow>
   'rb stream_conn \<Rightarrow> 'rb stream_result" where
  "send_control sf close_result evs ws next st =
     (case send_run sf evs (sc_mem st) ws (sc_wire st) of
        Undefined \<Rightarrow> SUndefined
      | Suspended _ _ _ \<Rightarrow> SWaiting
      | Finished result _ _ wire \<Rightarrow>
          (let st = st\<lparr>sc_wire := wire\<rparr>
           in case result of
             Inl e \<Rightarrow> stream_close close_result (st\<lparr>sc_last_error := Some e\<rparr>)
           | Inr _ \<Rightarrow> next st))"

definition refuse_stream ::
  "endian \<Rightarrow> IOError \<Rightarrow> IOError option \<Rightarrow> io_event list \<Rightarrow> RpcError \<Rightarrow> 'rb RpcStream \<Rightarrow> 'rb stream_conn \<Rightarrow> 'rb stream_result" where
  "refuse_stream en sf close_result evs err stream st =
     send_control sf close_result evs (sendCancel en stream) SServing (st\<lparr>sc_last_error := Some err\<rparr>)"

definition stream_round ::
  "endian \<Rightarrow> 'rb ring_ops \<Rightarrow> IOError \<Rightarrow> ('s \<Rightarrow> 'rb RpcStream \<Rightarrow> 'rb stream_conn \<Rightarrow> 'rb stream_result) \<Rightarrow> ('h, 's) services \<Rightarrow>
   IOError option \<Rightarrow> io_event list \<times> io_event list \<Rightarrow> 'rb stream_conn \<Rightarrow> 'rb stream_result" where
  "stream_round en ops sf run services close_result io st =
     (case read_run ops (stream_parseFromRingBuffer en ops) (fst io) (sc_mem st)
             (getMessage (sc_ring st) StreamMessage_init) (sc_stream st) of
        Undefined \<Rightarrow> SUndefined
      | Suspended _ _ _ \<Rightarrow> SWaiting
      | Finished result mem m stream \<Rightarrow>
          (let st = st\<lparr>sc_mem := mem, sc_ring := machine_ring m, sc_stream := stream\<rparr>
           in case result of
             Inl e \<Rightarrow> stream_close close_result (st\<lparr>sc_last_error := Some e\<rparr>)
           | Inr _ \<Rightarrow>
              (let init_frame = sr_message (machine_self m);
                   stream_id = sm_stream_id init_frame;
                   stream = mkRpcStream (sc_ring st) stream_id [] []
               in if sm_msg_type init_frame \<noteq> STREAM_INIT
                  then refuse_stream en sf close_result (snd io)
                         (mkRpcError INVALID_REQUEST ''Expected STREAM_INIT as first frame'') stream st
                  else case StreamMessage_payload mem init_frame of
                    None \<Rightarrow> SUndefined
                  | Some (payload, init_frame) \<Rightarrow>
                    (case StreamInitRequest_deserializeBody en (mkStreamInitRequest 0 [] []) payload (length payload) of
                       None \<Rightarrow> SUndefined
                     | Some (False, init_req) \<Rightarrow>
                         refuse_stream en sf close_result (snd io)
                           (mkRpcError INVALID_REQUEST ''Failed to parse stream init body'') stream st
                     | Some (True, init_req) \<Rightarrow>
                       (case resolveStreamHandler services init_req of
                          Inl code \<Rightarrow> refuse_stream en sf close_result (snd io) (RpcError_of_code code) stream st
                        | Inr handler \<Rightarrow>
                            (let stream = setRoute (si_service_name init_req) (si_method_name init_req) stream
                             in send_control sf close_result (snd io) (sendInitAck en stream)
                                  (run handler stream) st))))))"

fun stream_loop ::
  "endian \<Rightarrow> 'rb ring_ops \<Rightarrow> IOError \<Rightarrow> ('s \<Rightarrow> 'rb RpcStream \<Rightarrow> 'rb stream_conn \<Rightarrow> 'rb stream_result) \<Rightarrow> ('h, 's) services \<Rightarrow>
   IOError option \<Rightarrow> (io_event list \<times> io_event list) list \<Rightarrow> 'rb stream_conn \<Rightarrow> 'rb stream_result" where
  "stream_loop en ops sf run services close_result [] st = stream_close close_result st"
| "stream_loop en ops sf run services close_result (io # ios) st =
     (case stream_round en ops sf run services close_result io st of
        SServing st \<Rightarrow> stream_loop en ops sf run services close_result ios st
      | r \<Rightarrow> r)"

definition stream_handleConnection ::
  "endian \<Rightarrow> 'rb ring_ops \<Rightarrow> (nat \<Rightarrow> 'rb) \<Rightarrow> IOError \<Rightarrow> ('s \<Rightarrow> 'rb RpcStream \<Rightarrow> 'rb stream_conn \<Rightarrow> 'rb stream_result) \<Rightarrow>
   ('h, 's) RpcServer \<Rightarrow> IOError option \<Rightarrow> IOError option \<Rightarrow> (io_event list \<times> io_event list) list \<Rightarrow> memory \<Rightarrow> bytes \<Rightarrow>
   'rb stream_result" where
  "stream_handleConnection en ops mk_ring sf run srv non_block close_result ios mem stream = (
     let rb = mk_ring (if cfg_ring_buffer_size (srv_config srv) = 0 then 128 * 1024
                       else cfg_ring_buffer_size (srv_config srv));
         st = \<lparr>sc_mem = mem, sc_ring = rb, sc_stream = stream, sc_wire = [], sc_last_error = None\<rparr>
     in case non_block of
          Some e \<Rightarrow> stream_close close_result (st\<lparr>sc_last_error := Some (RpcError_from e INTERNAL_ERROR)\<rparr>)
        | None \<Rightarrow> stream_loop en ops sf run (srv_services srv) close_result ios st)"

section \<open>What a stream server answers\<close>

text \<open>
  The reference lookup: the session method registered under a service and a method name, and which of
  the two is missing when there is none.
\<close>

definition session_handler :: "('h, 's) services \<Rightarrow> bytes \<Rightarrow> bytes \<Rightarrow> 's option" where
  "session_handler services service method =
     Option.bind (map_of services service) (\<lambda>sv. map_of (sv_stream_session_methods sv) method)"

definition missing_part :: "('h, 's) services \<Rightarrow> bytes \<Rightarrow> RpcErrorCode" where
  "missing_part services service =
     (if service \<in> fst ` set services then METHOD_NOT_FOUND else SERVICE_NOT_FOUND)"

lemma resolveStreamHandler_eq:
  "resolveStreamHandler services (mkStreamInitRequest i service meth) =
    (case session_handler services service meth of Some h \<Rightarrow> Inr h | None \<Rightarrow> Inl (missing_part services service))"
proof (cases "map_of services service")
  case None
  moreover have "service \<notin> fst ` set services" using None by (simp add: map_of_eq_None_iff)
  ultimately show ?thesis
    by (simp add: resolveStreamHandler_def mkStreamInitRequest_def session_handler_def missing_part_def)
next
  case (Some sv)
  moreover have "service \<in> fst ` set services" using Some by (metis map_of_eq_None_iff option.distinct(1))
  ultimately show ?thesis
    by (simp add: resolveStreamHandler_def mkStreamInitRequest_def session_handler_def missing_part_def findStreamMethod_def
        split: option.split)
qed

text \<open>
  The specification of one round: a stream-init frame whose body names a registered session method
  opens a session with that route; every other frame is refused.
\<close>

definition opened :: "('h, 's) services \<Rightarrow> RpcMessageType \<Rightarrow> bytes \<Rightarrow> ('s \<times> bytes \<times> bytes) option" where
  "opened services t body =
     (if t \<noteq> STREAM_INIT then None
      else case parse_route body of
          None \<Rightarrow> None
        | Some (service, method, _) \<Rightarrow>
            (case session_handler services service method of
               None \<Rightarrow> None
             | Some h \<Rightarrow> Some (h, service, method)))"

definition refusal :: "('h, 's) services \<Rightarrow> RpcMessageType \<Rightarrow> bytes \<Rightarrow> RpcErrorCode" where
  "refusal services t body =
     (if t \<noteq> STREAM_INIT then INVALID_REQUEST
      else case parse_route body of
          None \<Rightarrow> INVALID_REQUEST
        | Some (service, method, _) \<Rightarrow>
            (case session_handler services service method of
               None \<Rightarrow> missing_part services service
             | Some h \<Rightarrow> OK))"

lemma stream_payload_bytes:
  assumes "view_ok (StreamMessage_payloadView m)"
  shows "\<exists>m'. StreamMessage_payload mem m = Some (view_bytes mem (StreamMessage_payloadView m), m')"
  using stream_payload.materialize_bytes [OF assms, of mem] by (fastforce simp: StreamMessage_payload_def)

lemma init_body_some:
  "parse_route body = Some (service, meth, p) \<Longrightarrow>
    StreamInitRequest_deserializeBody en (mkStreamInitRequest 0 [] []) body (length body) =
      Some (True, mkStreamInitRequest 0 service meth)"
  using request_deserializeBody_ok [of "length body" body service meth p en]
  by (simp add: init_deserializeBody_eq request_with_def mkStreamInitRequest_def RpcRequest_init_def)

lemma init_body_none:
  assumes "parse_route body = None"
  shows "\<exists>r'. StreamInitRequest_deserializeBody en (mkStreamInitRequest 0 [] []) body (length body) = Some (False, r')"
proof -
  obtain r' where "RpcRequest_deserializeBody en
      (RpcRequest_init\<lparr>rq_service_name := si_service_name (mkStreamInitRequest 0 [] []),
        rq_method_name := si_method_name (mkStreamInitRequest 0 [] [])\<rparr>) body (length body) = Some (False, r')"
    using request_deserializeBody_fail [of "length body" body en] assms by fastforce
  then show ?thesis by (simp add: init_deserializeBody_eq)
qed

definition sunread :: "'rb ring_ops \<Rightarrow> 'rb stream_conn \<Rightarrow> bytes" where
  "sunread ops st = ring_content ops (sc_mem st) (sc_ring st) @ sc_stream st"

lemma control_send:
  assumes "delivers evs" "16 \<le> length evs"
  shows "send_control sf close_result evs (StreamFrameWriteState_control en i t) next st =
    next (st\<lparr>sc_wire := sc_wire st @ stream_frame t i []\<rparr>)"
proof -
  obtain m' where "send_run sf evs (sc_mem st) (StreamFrameWriteState_control en i t) (sc_wire st) =
      Finished (Inr True) (sc_mem st) m' (sc_wire st @ stream_frame t i [])"
    using control_writer.send_completes [where x = "(i, t)" and evs = evs and mem = "sc_mem st" and sf = sf
        and out = "sc_wire st" and en = en] assms
    by (auto simp: stream_frame_def)
  then show ?thesis by (simp add: send_control_def)
qed

text \<open>After a frame has been read, the round refuses it or opens the session, as specified.\<close>

lemma round_decides:
  assumes read: "read_run ops (stream_parseFromRingBuffer en ops) revs (sc_mem st)
        (getMessage (sc_ring st) StreamMessage_init) (sc_stream st) = Finished (Inr True) mem' m' rest"
    and val: "stream_value mem' (sr_message (machine_self m')) = Some \<lparr>sf_id = i, sf_type = t, sf_end = e, sf_payload = body\<rparr>"
    and st': "st' = st\<lparr>sc_mem := mem', sc_ring := machine_ring m', sc_stream := rest\<rparr>"
  shows "case opened services t body of
      None \<Rightarrow> \<exists>err. stream_round en ops sf run services close_result (revs, wevs) st =
          refuse_stream en sf close_result wevs err (mkRpcStream (sc_ring st') i [] []) st' \<and>
          err_code err = refusal services t body
    | Some (h, service, meth) \<Rightarrow> stream_round en ops sf run services close_result (revs, wevs) st =
          (let stream = mkRpcStream (sc_ring st') i service meth
           in send_control sf close_result wevs (sendInitAck en stream) (run h stream) st')"
proof -
  let ?msg = "sr_message (machine_self m')"
  have msg: "sm_stream_id ?msg = i" "sm_msg_type ?msg = t" "view_ok (StreamMessage_payloadView ?msg)"
      "view_bytes mem' (StreamMessage_payloadView ?msg) = body"
    using val by (auto simp: stream_value_def split: if_splits)
  obtain msg' where pay: "StreamMessage_payload mem' ?msg = Some (body, msg')"
    using stream_payload_bytes [OF msg(3)] msg(4) by blast
  note facts = read msg(1,2) pay st'
  consider (other) "t \<noteq> STREAM_INIT" | (garbled) "t = STREAM_INIT" "parse_route body = None"
    | (route) service meth p where "t = STREAM_INIT" "parse_route body = Some (service, meth, p)"
    by (cases "parse_route body") auto
  then show ?thesis
  proof cases
    case other
    then show ?thesis using facts by (auto simp: opened_def refusal_def stream_round_def mkRpcError_def)
  next
    case garbled
    then show ?thesis
      using facts init_body_none [OF garbled(2), of en] by (auto simp: opened_def refusal_def stream_round_def mkRpcError_def)
  next
    case route
    then show ?thesis
      using facts init_body_some [OF route(2), of en] resolveStreamHandler_eq [of services 0 service meth]
      by (cases "session_handler services service meth")
         (auto simp: opened_def refusal_def stream_round_def RpcError_of_code_def setRoute_def mkRpcStream_def
           mkStreamInitRequest_def [of 0 service meth] Let_def)
  qed
qed

context ring_buffer
begin

lemma stream_frame_read:
  assumes "ring_inv rb" "frame_ok (ring_capacity ops rb) t body" "delivers evs" "ring_capacity ops rb \<le> length evs"
    and "ring_content ops mem rb @ stream = stream_frame t i body @ later"
  shows "\<exists>mem' m' rest. read_run ops (stream_parseFromRingBuffer en ops) evs mem (getMessage rb StreamMessage_init) stream =
      Finished (Inr True) mem' m' rest \<and>
    stream_value mem' (sr_message (machine_self m')) =
      Some \<lparr>sf_id = i, sf_type = t, sf_end = t \<in> {STREAM_END, STREAM_CANCEL}, sf_payload = body\<rparr> \<and>
    ring_inv (machine_ring m') \<and> ring_capacity ops (machine_ring m') = ring_capacity ops rb \<and>
    ring_content ops mem' (machine_ring m') @ rest = later"
proof -
  let ?m = "getMessage rb StreamMessage_init"
  obtain p' where sp: "stream_spec (AtHeader False) (ring_content ops mem rb @ stream) = (p', length (stream_frame t i body),
      Got (Some \<lparr>sf_id = i, sf_type = t, sf_end = t \<in> {STREAM_END, STREAM_CANCEL}, sf_payload = body\<rparr>))"
    using stream_spec_frame [OF assms(2)] assms(5) by metis
  have cap: "length (stream_frame t i body) \<le> ring_capacity ops rb"
    using assms(2) by (simp add: stream_frame_def frame_ok_def)
  have m: "reading ?m" "machine_ring ?m = rb" "stream_phase_of (machine_self ?m) = AtHeader False"
    by (simp_all add: getMessage_machine StreamMessageReadState_def stream_phase_of_def StreamMessage_init_def)
  show ?thesis
    using stream.read_complete [of ?m evs mem stream p' _ _ en] stream.fits_got [OF sp cap] sp cap m assms
    by simp
qed

lemma stream_round_answers:
  assumes inv: "ring_inv (sc_ring st)"
    and frame: "frame_ok (ring_capacity ops (sc_ring st)) t body" "sunread ops st = stream_frame t i body @ later"
    and io: "delivers revs" "ring_capacity ops (sc_ring st) \<le> length revs" "delivers wevs" "16 \<le> length wevs"
  shows "\<exists>st'. ring_inv (sc_ring st') \<and> ring_capacity ops (sc_ring st') = ring_capacity ops (sc_ring st) \<and>
    sunread ops st' = later \<and>
    (case opened services t body of
       None \<Rightarrow> stream_round en ops sf run services close_result (revs, wevs) st = SServing st' \<and>
         sc_wire st' = sc_wire st @ stream_frame STREAM_CANCEL i [] \<and>
         (\<exists>e. sc_last_error st' = Some e \<and> err_code e = refusal services t body)
     | Some (h, service, meth) \<Rightarrow>
         stream_round en ops sf run services close_result (revs, wevs) st =
           run h (mkRpcStream (sc_ring st') i service meth) st' \<and>
         sc_wire st' = sc_wire st @ stream_frame STREAM_INIT_ACK i [] \<and> sc_last_error st' = sc_last_error st)"
proof -
  obtain mem' m' rest where r: "read_run ops (stream_parseFromRingBuffer en ops) revs (sc_mem st)
        (getMessage (sc_ring st) StreamMessage_init) (sc_stream st) = Finished (Inr True) mem' m' rest"
      "stream_value mem' (sr_message (machine_self m')) =
        Some \<lparr>sf_id = i, sf_type = t, sf_end = t \<in> {STREAM_END, STREAM_CANCEL}, sf_payload = body\<rparr>"
      "ring_inv (machine_ring m')" "ring_capacity ops (machine_ring m') = ring_capacity ops (sc_ring st)"
      "ring_content ops mem' (machine_ring m') @ rest = later"
    using stream_frame_read [OF inv frame(1) io(1,2), of "sc_mem st" "sc_stream st" i later en] frame(2)
    by (auto simp: sunread_def)
  define st1 where "st1 = st\<lparr>sc_mem := mem', sc_ring := machine_ring m', sc_stream := rest\<rparr>"
  note decided = round_decides [OF r(1,2) st1_def, where services = services and sf = sf and run = run and close_result = close_result and wevs = wevs]
  note send = control_send [OF io(3,4), of sf close_result en i]
  have st1: "ring_inv (sc_ring st1)" "ring_capacity ops (sc_ring st1) = ring_capacity ops (sc_ring st)"
      "sunread ops st1 = later" "sc_wire st1 = sc_wire st" "sc_last_error st1 = sc_last_error st"
    using r(3-5) by (simp_all add: st1_def sunread_def)
  show ?thesis
  proof (cases "opened services t body")
    case None
    then obtain err where "stream_round en ops sf run services close_result (revs, wevs) st =
        refuse_stream en sf close_result wevs err (mkRpcStream (sc_ring st1) i [] []) st1" "err_code err = refusal services t body"
      using decided by auto
    then show ?thesis
      using None st1
      by (intro exI [of _ "st1\<lparr>sc_last_error := Some err, sc_wire := sc_wire st @ stream_frame STREAM_CANCEL i []\<rparr>"])
         (simp add: refuse_stream_def sendCancel_def mkRpcStream_def sunread_def send)
  next
    case (Some x)
    obtain h service meth where x: "x = (h, service, meth)" by (cases x) auto
    show ?thesis
      using Some x st1 decided
      by (intro exI [of _ "st1\<lparr>sc_wire := sc_wire st @ stream_frame STREAM_INIT_ACK i []\<rparr>"])
         (simp add: sendInitAck_def mkRpcStream_def sunread_def send)
  qed
qed

text \<open>
  One session as the peer sees it: the frame that asks for it, the bytes its handler will read and
  the bytes its handler will send. A refused frame has no handler.
\<close>

end

record session =
  se_id :: u32
  se_type :: RpcMessageType
  se_body :: bytes
  se_input :: bytes
  se_output :: bytes

definition session_request :: "session \<Rightarrow> bytes" where
  "session_request se = stream_frame (se_type se) (se_id se) (se_body se) @ se_input se"

definition session_reply :: "('h, 's) services \<Rightarrow> session \<Rightarrow> bytes" where
  "session_reply services se =
     (if opened services (se_type se) (se_body se) = None then stream_frame STREAM_CANCEL (se_id se) []
      else stream_frame STREAM_INIT_ACK (se_id se) [] @ se_output se)"

text \<open>The handler's part: it reads its input, sends its output, and leaves the connection in order.\<close>

definition session_ok ::
  "'rb ring_ops \<Rightarrow> ('rb \<Rightarrow> bool) \<Rightarrow> nat \<Rightarrow> ('s \<Rightarrow> 'rb RpcStream \<Rightarrow> 'rb stream_conn \<Rightarrow> 'rb stream_result) \<Rightarrow>
   ('h, 's) services \<Rightarrow> session \<Rightarrow> bool" where
  "session_ok ops ring_inv cap run services se \<longleftrightarrow> frame_ok cap (se_type se) (se_body se) \<and>
     (case opened services (se_type se) (se_body se) of
        None \<Rightarrow> se_input se = []
      | Some (h, service, method) \<Rightarrow>
          \<forall>st later. ring_inv (sc_ring st) \<and> ring_capacity ops (sc_ring st) = cap \<and> sunread ops st = se_input se @ later \<longrightarrow>
            (\<exists>st'. run h (mkRpcStream (sc_ring st) (se_id se) service method) st = SServing st' \<and>
               ring_inv (sc_ring st') \<and> ring_capacity ops (sc_ring st') = cap \<and> sunread ops st' = later \<and>
               sc_wire st' = sc_wire st @ se_output se))"

context ring_buffer
begin

lemma session_served:
  assumes "ring_inv (sc_ring st)" "session_ok ops ring_inv (ring_capacity ops (sc_ring st)) run services se"
    and "sunread ops st = session_request se @ later"
    and "delivers revs" "ring_capacity ops (sc_ring st) \<le> length revs" "delivers wevs" "16 \<le> length wevs"
  shows "\<exists>st'. stream_round en ops sf run services close_result (revs, wevs) st = SServing st' \<and>
    ring_inv (sc_ring st') \<and> ring_capacity ops (sc_ring st') = ring_capacity ops (sc_ring st) \<and>
    sunread ops st' = later \<and> sc_wire st' = sc_wire st @ session_reply services se"
proof -
  have frame: "frame_ok (ring_capacity ops (sc_ring st)) (se_type se) (se_body se)"
    using assms(2) by (simp add: session_ok_def)
  have "sunread ops st = stream_frame (se_type se) (se_id se) (se_body se) @ se_input se @ later"
    using assms(3) by (simp add: session_request_def)
  note round = stream_round_answers [OF assms(1) frame this assms(4-7), where services = services and en = en and sf = sf and run = run and close_result = close_result]
  show ?thesis
  proof (cases "opened services (se_type se) (se_body se)")
    case None
    then show ?thesis using round assms(2) by (auto simp: session_ok_def session_reply_def)
  next
    case (Some x)
    then show ?thesis
      using round assms(2) by (cases x) (fastforce simp: session_ok_def session_reply_def Let_def)
  qed
qed

text \<open>
  The first round of a connection whose peer opens a session: a registered route is acknowledged and
  its handler is run on a session with that id and route, with what the peer sent after the opening
  frame still to be read; an unknown route is cancelled. Then the connection goes on.
\<close>

lemma opening_served:
  assumes "rb = mk_ring (if cfg_ring_buffer_size (srv_config srv) = 0 then 128 * 1024 else cfg_ring_buffer_size (srv_config srv))"
    and "ring_inv rb" "ring_content ops mem rb = []"
    and "length service < 65536" "length meth < 65536" "20 + length service + length meth \<le> ring_capacity ops rb"
    and "delivers revs" "ring_capacity ops rb \<le> length revs" "delivers wevs" "16 \<le> length wevs"
  shows "\<exists>st1. ring_inv (sc_ring st1) \<and> sunread ops st1 = input \<and> ring_capacity ops (sc_ring st1) = ring_capacity ops rb \<and>
    (case session_handler (srv_services srv) service meth of
       Some h \<Rightarrow> sc_wire st1 = stream_frame STREAM_INIT_ACK i [] \<and> sc_last_error st1 = None \<and>
         stream_handleConnection en ops mk_ring sf run srv None close_result ((revs, wevs) # ios) mem
           (stream_frame STREAM_INIT i (route_bytes service meth) @ input) =
         (case run h (mkRpcStream (sc_ring st1) i service meth) st1 of
            SServing st2 \<Rightarrow> stream_loop en ops sf run (srv_services srv) close_result ios st2
          | r \<Rightarrow> r)
     | None \<Rightarrow> sc_wire st1 = stream_frame STREAM_CANCEL i [] \<and>
         (\<exists>e. sc_last_error st1 = Some e \<and> err_code e = missing_part (srv_services srv) service) \<and>
         stream_handleConnection en ops mk_ring sf run srv None close_result ((revs, wevs) # ios) mem
           (stream_frame STREAM_INIT i (route_bytes service meth) @ input) =
         stream_loop en ops sf run (srv_services srv) close_result ios st1)"
proof -
  let ?body = "route_bytes service meth"
  let ?st = "\<lparr>sc_mem = mem, sc_ring = rb, sc_stream = stream_frame STREAM_INIT i ?body @ input, sc_wire = [], sc_last_error = None\<rparr>"
  have "parse_route (?body @ []) = Some (service, meth, [])" using assms(4,5) by (rule parse_route_bytes)
  then have op: "opened (srv_services srv) STREAM_INIT ?body =
        map_option (\<lambda>h. (h, service, meth)) (session_handler (srv_services srv) service meth)"
      "session_handler (srv_services srv) service meth = None \<Longrightarrow>
        refusal (srv_services srv) STREAM_INIT ?body = missing_part (srv_services srv) service"
    by (simp_all add: opened_def refusal_def split: option.split)
  have frame: "frame_ok (ring_capacity ops (sc_ring ?st)) STREAM_INIT ?body"
    using assms(4-6) by (simp add: frame_ok_def named_msgtypes_def max_body_eq)
  have un: "sunread ops ?st = stream_frame STREAM_INIT i ?body @ input" using assms(3) by (simp add: sunread_def)
  note round = stream_round_answers [OF _ frame un assms(7) _ assms(9,10), where services = "srv_services srv" and en = en
      and sf = sf and run = run and close_result = close_result, unfolded op(1)]
  have conn: "stream_handleConnection en ops mk_ring sf run srv None close_result ((revs, wevs) # ios) mem
       (stream_frame STREAM_INIT i ?body @ input) =
     (case stream_round en ops sf run (srv_services srv) close_result (revs, wevs) ?st of
        SServing st \<Rightarrow> stream_loop en ops sf run (srv_services srv) close_result ios st | r \<Rightarrow> r)"
    using assms(1) by (simp add: stream_handleConnection_def Let_def)
  show ?thesis
    unfolding conn using round assms(2,8) op(2) by (cases "session_handler (srv_services srv) service meth") auto
qed

lemma sessions_served:
  assumes "length ios = length ses" "ring_inv (sc_ring st)"
    and "list_all (session_ok ops ring_inv (ring_capacity ops (sc_ring st)) run services) ses"
    and "list_all (\<lambda>(revs, wevs). delivers revs \<and> ring_capacity ops (sc_ring st) \<le> length revs \<and>
        delivers wevs \<and> 16 \<le> length wevs) ios"
    and "sunread ops st = concat (map session_request ses) @ later"
  shows "\<exists>st'. stream_loop en ops sf run services close_result ios st = stream_close close_result st' \<and>
    sunread ops st' = later \<and> sc_wire st' = sc_wire st @ concat (map (session_reply services) ses)"
  using assms
proof (induction ios ses arbitrary: st rule: list_induct2)
  case (Cons io ios se ses)
  obtain revs wevs where io: "io = (revs, wevs)" by fastforce
  with Cons.prems obtain st1 where
    "stream_round en ops sf run services close_result (revs, wevs) st = SServing st1" "ring_inv (sc_ring st1)"
    "ring_capacity ops (sc_ring st1) = ring_capacity ops (sc_ring st)"
    "sunread ops st1 = concat (map session_request ses) @ later" "sc_wire st1 = sc_wire st @ session_reply services se"
    using session_served [of st run services se "concat (map session_request ses) @ later" revs wevs en sf close_result] by auto
  then show ?case using Cons.IH [of st1] Cons.prems io by simp
qed auto

lemma sessions_on_connection:
  assumes "rb = mk_ring (if cfg_ring_buffer_size (srv_config srv) = 0 then 128 * 1024 else cfg_ring_buffer_size (srv_config srv))"
    and "ring_inv rb" "ring_content ops mem rb = []"
    and "list_all (session_ok ops ring_inv (ring_capacity ops rb) run (srv_services srv)) ses"
    and "length ios = length ses"
    and "list_all (\<lambda>(revs, wevs). delivers revs \<and> ring_capacity ops rb \<le> length revs \<and>
        delivers wevs \<and> 16 \<le> length wevs) ios"
  shows "\<exists>st. stream_handleConnection en ops mk_ring sf run srv None close_result ios mem
      (concat (map session_request ses) @ later) = SClosed st \<and>
    sc_wire st = concat (map (session_reply (srv_services srv)) ses) \<and> sunread ops st = later"
proof -
  let ?st = "\<lparr>sc_mem = mem, sc_ring = rb, sc_stream = concat (map session_request ses) @ later, sc_wire = [], sc_last_error = None\<rparr>"
  obtain st' where "stream_loop en ops sf run (srv_services srv) close_result ios ?st = stream_close close_result st'"
      "sunread ops st' = later" "sc_wire st' = concat (map (session_reply (srv_services srv)) ses)"
    using sessions_served [OF assms(5), of ?st run "srv_services srv" later en sf close_result] assms
    by (auto simp: sunread_def)
  then show ?thesis
    using assms(1) by (auto simp: stream_handleConnection_def stream_close_def sunread_def Let_def)
qed

end

section \<open>Properties\<close>

text \<open>C14. The sessions of a connection are served one after another. Whatever sequence of opening frames
  arrives, cut anywhere, each frame is answered in order: a stream-init frame whose body names a
  registered session method is acknowledged under its own stream id and its handler is run on a
  session with that id and that route, before the next frame is read; any other frame, an init frame
  that does not parse and an unknown route are answered with a cancel frame, and the connection goes
  on. The handlers are arbitrary, as long as each reads its own input and sends its own output.\<close>

theorem stream_sessions_served:
  assumes "ring_buffer ops ring_inv"
    and "rb = mk_ring (if cfg_ring_buffer_size (srv_config srv) = 0 then 128 * 1024 else cfg_ring_buffer_size (srv_config srv))"
    and "ring_inv rb" "ring_content ops mem rb = []"
    and "list_all (session_ok ops ring_inv (ring_capacity ops rb) run (srv_services srv)) ses"
    and "length ios = length ses"
    and "list_all (\<lambda>(revs, wevs). delivers revs \<and> ring_capacity ops rb \<le> length revs \<and>
        delivers wevs \<and> 16 \<le> length wevs) ios"
  shows "\<exists>st. stream_handleConnection en ops mk_ring sf run srv None close_result ios mem
      (concat (map session_request ses) @ later) = SClosed st \<and>
    sc_wire st = concat (map (session_reply (srv_services srv)) ses) \<and> sunread ops st = later"
  using ring_buffer.sessions_on_connection [where mk_ring = mk_ring, OF assms] .

theorem stream_sessions_served_witness:
  "\<exists>st. stream_handleConnection Little circ_ops mk_circ no_error
      (\<lambda>_ s st. SServing (st\<lparr>sc_wire := sc_wire st @ stream_frame STREAM_END (rst_stream_id s) []\<rparr>))
      ((mkRpcServer 4 test_config :: (unit, unit) RpcServer)
        \<lparr>srv_services := registerService (registerStreamMethod [70] () (mkRpcService [69])) []\<rparr>) None None
      (replicate 2 (replicate 64 (Deliver 3), replicate 64 (Deliver 5))) (\<lambda>_. 0)
      (stream_frame STREAM_DATA 6 [1] @ stream_frame STREAM_INIT 7 (route_bytes [69] [70])) = SClosed st \<and>
    sc_wire st = stream_frame STREAM_CANCEL 6 [] @ stream_frame STREAM_INIT_ACK 7 [] @ stream_frame STREAM_END 7 []"
proof -
  let ?run = "\<lambda>(_ :: unit) (s :: circ RpcStream) st. SServing (st\<lparr>sc_wire := sc_wire st @ stream_frame STREAM_END (rst_stream_id s) []\<rparr>)"
  let ?srv = "(mkRpcServer 4 test_config :: (unit, unit) RpcServer)
        \<lparr>srv_services := registerService (registerStreamMethod [70] () (mkRpcService [69])) []\<rparr>"
  let ?s1 = "\<lparr>se_id = 6, se_type = STREAM_DATA, se_body = [1], se_input = [], se_output = []\<rparr>"
  let ?s2 = "\<lparr>se_id = 7, se_type = STREAM_INIT, se_body = route_bytes [69] [70], se_input = [],
      se_output = stream_frame STREAM_END 7 []\<rparr>"
  let ?ios = "replicate 2 (replicate 64 (Deliver 3), replicate 64 (Deliver 5))"
  have cfg: "cfg_ring_buffer_size (srv_config ?srv) = 64" by (simp add: mkRpcServer_def test_config_def)
  have "parse_route (route_bytes [69] [70] @ []) = Some ([69], [70], [])" by (rule parse_route_bytes) simp_all
  moreover have "session_handler (srv_services ?srv) [69] [70] = Some ()" by code_simp
  ultimately have op: "opened (srv_services ?srv) STREAM_DATA [1] = None"
      "opened (srv_services ?srv) STREAM_INIT (route_bytes [69] [70]) = Some ((), [69], [70])"
    by (simp_all add: opened_def)
  have "list_all (session_ok circ_ops circ_inv 64 ?run (srv_services ?srv)) [?s1, ?s2]"
    using op by (simp add: session_ok_def frame_ok_def named_msgtypes_def max_body_eq mkRpcStream_def sunread_def)
  moreover have "list_all (\<lambda>(revs, wevs). delivers revs \<and> 64 \<le> length revs \<and> delivers wevs \<and> 16 \<le> length wevs) ?ios"
    by (simp add: delivers_def numeral_2_eq_2)
  ultimately show ?thesis
    using stream_sessions_served [OF circ.ring_buffer_axioms refl, where mk_ring = mk_circ and srv = ?srv and run = ?run
        and ses = "[?s1, ?s2]" and ios = ?ios and mem = "\<lambda>_. 0" and later = "[]" and en = Little and sf = no_error
        and close_result = None] op cfg
    by (auto simp: session_request_def session_reply_def)
qed

text \<open>The stream server keeps its runtime in step in the same way: after any sequence of starts, with
  whatever the scheduling of the accept loop answered, and stops, it says it is running exactly when
  the last thing it told its runtime was to start.\<close>

lemma stream_server_lifecycle:
  "let srv = foldl (\<lambda>s op. case op of Some scheduled \<Rightarrow> stream_server_start scheduled s | None \<Rightarrow> stream_server_stop s)
      (mkRpcServer hc config) ops
   in srv_running srv \<longleftrightarrow> srv_runtime_calls srv \<noteq> [] \<and> last (srv_runtime_calls srv) = RuntimeStart"
proof -
  have "stream_runtime.in_step (mkRpcServer hc config)" by (simp add: stream_runtime.in_step_def mkRpcServer_def)
  from stream_runtime.sequence_in_step [OF this, of ops] show ?thesis
    unfolding stream_runtime.in_step_def Let_def .
qed

text \<open>The stream server's accept loop, too, serves every connection it can schedule, in order, and keeps the
  reason when the listener does not come up.\<close>

lemma stream_accept_loop_serves:
  "stream_acceptLoop env rounds =
    (case listener_failures env of
       e # _ \<Rightarrow> ([], Some (RpcError_from e INTERNAL_ERROR))
     | [] \<Rightarrow> (concat (map scheduled_handle rounds),
         latest (List.map_filter (round_error ''Failed to schedule stream connection handler'') rounds @
           (case le_close env of None \<Rightarrow> [] | Some e \<Rightarrow> [RpcError_from e INTERNAL_ERROR]))))"
  unfolding stream_acceptLoop_def by (rule accept_loop_eq)

end
