(* ===== verification/Rpc_Streaming.thy ===== *)
theory Rpc_Streaming
  imports Rpc_Client Rpc_Streamsvc Rpc_Text
begin

text \<open>
  Model of the streaming programs of the repository, \<^verbatim>\<open>src/examples/include/e3_stream.cc\<close> (a service with
  one session method that echoes data frames and reports what it saw at the end, and a server for it)
  and \<^verbatim>\<open>src/examples/include/e4_stream.cc\<close> (a client that opens a session, sends frames one by one, each
  followed by a read of its echo, ends the stream and reads the report).
\<close>

section \<open>Awaiting on a session\<close>

text \<open>
  A session holds references to the socket and to the ring of its connection, so a read or a send
  works on the connection as it is then. An awaited operation is done, still waiting when its schedule
  ends, or meets undefined behaviour.
\<close>

datatype 'a awaited = Done 'a | Waits | Undef

definition await_read ::
  "endian \<Rightarrow> 'rb ring_ops \<Rightarrow> io_event list \<Rightarrow> 'rb RpcStream \<Rightarrow> 'rb stream_conn \<Rightarrow>
   ((RpcError + StreamMessage) \<times> 'rb stream_conn) awaited" where
  "await_read en ops evs s st =
     (case read_run ops (stream_parseFromRingBuffer en ops) evs (sc_mem st)
             (stream_read (s\<lparr>rst_ring_buffer := sc_ring st\<rparr>) StreamMessage_init) (sc_stream st) of
        Undefined \<Rightarrow> Undef
      | Suspended _ _ _ \<Rightarrow> Waits
      | Finished result mem m stream \<Rightarrow>
          Done (case result of Inl e \<Rightarrow> Inl e | Inr _ \<Rightarrow> Inr (sr_message (machine_self m)),
            st\<lparr>sc_mem := mem, sc_ring := machine_ring m, sc_stream := stream\<rparr>))"

definition await_send ::
  "IOError \<Rightarrow> io_event list \<Rightarrow> WriteState option \<Rightarrow> 'rb stream_conn \<Rightarrow> ((RpcError + bool) \<times> 'rb stream_conn) awaited" where
  "await_send sf evs ws st =
     (case send_run sf evs (sc_mem st) ws (sc_wire st) of
        Undefined \<Rightarrow> Undef
      | Suspended _ _ _ \<Rightarrow> Waits
      | Finished result _ _ wire \<Rightarrow> Done (result, st\<lparr>sc_wire := wire\<rparr>))"

section \<open>The session method\<close>

definition stream_summary :: "'rb RpcStream \<Rightarrow> u64 \<Rightarrow> u64 \<Rightarrow> bytes" where
  "stream_summary stream frames bytes =
     ascii ''service='' @ rst_service_name stream @ ascii '', method='' @ rst_method_name stream @
     ascii '', frames='' @ ascii (to_string (unat frames)) @ ascii '', bytes='' @ ascii (to_string (unat bytes))"

text \<open>
  One element of the schedule is one turn of the loop: the completions of its read, of its first send
  and of the second send that follows the report.
\<close>

fun StreamExampleService_echo ::
  "endian \<Rightarrow> 'rb ring_ops \<Rightarrow> IOError \<Rightarrow> (io_event list \<times> io_event list \<times> io_event list) list \<Rightarrow>
   'rb RpcStream \<Rightarrow> u64 \<Rightarrow> u64 \<Rightarrow> 'rb stream_conn \<Rightarrow> 'rb stream_result" where
  "StreamExampleService_echo en ops sf [] stream frames bytes st = SWaiting"
| "StreamExampleService_echo en ops sf ((revs, wevs, eevs) # ios) stream frames bytes st =
     (case await_read en ops revs stream st of
        Undef \<Rightarrow> SUndefined
      | Waits \<Rightarrow> SWaiting
      | Done (Inl e, st) \<Rightarrow> SServing st
      | Done (Inr msg, st) \<Rightarrow>
          (if sm_msg_type msg = STREAM_DATA
           then (case StreamMessage_payload (sc_mem st) msg of
               None \<Rightarrow> SUndefined
             | Some (payload, msg) \<Rightarrow>
                 (let frames = frames + 1;
                      bytes = bytes + word_of_nat (length payload)
                  in case await_send sf wevs (sendData en (sc_mem st) (Buf payload 0) (length payload) stream) st of
                    Undef \<Rightarrow> SUndefined
                  | Waits \<Rightarrow> SWaiting
                  | Done (Inl e, st) \<Rightarrow> SServing st
                  | Done (Inr _, st) \<Rightarrow> StreamExampleService_echo en ops sf ios stream frames bytes st))
           else if sm_msg_type msg = STREAM_END
           then (let summary = stream_summary stream frames bytes
                 in case await_send sf wevs (sendData en (sc_mem st) (Buf summary 0) (length summary) stream) st of
                      Undef \<Rightarrow> SUndefined
                    | Waits \<Rightarrow> SWaiting
                    | Done (Inl e, st) \<Rightarrow> SServing st
                    | Done (Inr _, st) \<Rightarrow>
                        (case await_send sf eevs (sendEnd en stream) st of
                           Undef \<Rightarrow> SUndefined
                         | Waits \<Rightarrow> SWaiting
                         | Done (_, st) \<Rightarrow> SServing st))
           else if sm_msg_type msg = STREAM_CANCEL then SServing st
           else (case await_send sf wevs (sendCancel en stream) st of
                   Undef \<Rightarrow> SUndefined
                 | Waits \<Rightarrow> SWaiting
                 | Done (_, st) \<Rightarrow> SServing st)))"

definition StreamExampleService :: "(unit, unit) RpcService" where
  "StreamExampleService =
     registerStreamMethod_member (ascii ''echo'') () (\<lambda>_. ()) (mkRpcService (ascii ''StreamExampleService''))"

definition e3_server :: "nat \<Rightarrow> RuntimeAffinityConfig \<Rightarrow> u16 \<Rightarrow> nat \<Rightarrow> nat \<Rightarrow> (unit, unit) RpcServer" where
  "e3_server hardware_concurrency affinity port io_count ring_buffer_size = (
     let resolved_io_count = resolveIoSchedulerCount hardware_concurrency io_count;
         server = mkRpcStreamServer hardware_concurrency
           (stream_ringBufferSize ring_buffer_size (stream_ioSchedulerCount resolved_io_count
             (stream_port port (stream_host ''0.0.0.0'' (RpcStreamServerConfig_init affinity)))))
     in stream_registerService StreamExampleService server)"

text \<open>The arguments of the program: port, number of schedulers, size of the ring; and the program, less what
  it prints.\<close>

definition e3_args :: "string list \<Rightarrow> u16 \<times> nat \<times> nat" where
  "e3_args argv =
     (if length argv > 1 then word_of_int (atoi (argv ! 1)) else 9100,
      if length argv > 2 then strtoull (argv ! 2) else 0,
      if length argv > 3 then strtoull (argv ! 3) else 128 * 1024)"

definition e3_main :: "nat \<Rightarrow> RuntimeAffinityConfig \<Rightarrow> string list \<Rightarrow> bool \<Rightarrow> (unit, unit) RpcServer" where
  "e3_main hardware_concurrency affinity argv scheduled =
     (case e3_args argv of (port, io_count, ring_buffer_size) \<Rightarrow>
        let server = e3_server hardware_concurrency affinity port io_count ring_buffer_size;
            server = stream_server_start scheduled server
        in stream_server_stop server)"

lemma e3_args_read: "e3_args [program] = (9100, 0, 131072)"
    "io_count < 2 ^ 64 \<Longrightarrow> ring < 2 ^ 64 \<Longrightarrow>
      e3_args [program, to_string port, to_string io_count, to_string ring] = (word_of_nat port, io_count, ring)"
  by (simp_all add: e3_args_def)

section \<open>What the session does\<close>

lemma frame_view_bytes: "view_ok (frame_payloadView b)" "view_bytes mem (frame_payloadView b) = b"
  by (simp_all add: frame_payloadView_def view_simps)

lemma await_send_data:
  assumes "delivers evs" "16 + length b \<le> length evs"
  shows "await_send sf evs (sendData en (sc_mem st) (Buf b 0) (length b) s) st =
    Done (Inr True, st\<lparr>sc_wire := sc_wire st @ stream_frame STREAM_DATA (rst_writer_stream_id s) b\<rparr>)"
proof -
  have "sendData en (sc_mem st) (Buf b 0) (length b) s = StreamFrameWriteState_view en (rst_writer_stream_id s) (frame_payloadView b)"
    by (simp add: sendData_def StreamFrameWriteState_copy_def StreamFrameWriteState_view_def rdp_Some)
  moreover obtain m' where "send_run sf evs (sc_mem st) (StreamFrameWriteState_view en (rst_writer_stream_id s) (frame_payloadView b)) (sc_wire st) =
      Finished (Inr True) (sc_mem st) m' (sc_wire st @ stream_frame STREAM_DATA (rst_writer_stream_id s) b)"
    using data_writer.send_completes [where x = "(rst_writer_stream_id s, frame_payloadView b)" and evs = evs and mem = "sc_mem st"
        and sf = sf and out = "sc_wire st" and en = en] assms frame_view_bytes
    by (auto simp: stream_frame_def)
  ultimately show ?thesis by (simp add: await_send_def)
qed

lemma await_send_control:
  assumes "delivers evs" "16 \<le> length evs"
  shows "await_send sf evs (StreamFrameWriteState_control en i t) st =
    Done (Inr True, st\<lparr>sc_wire := sc_wire st @ stream_frame t i []\<rparr>)"
proof -
  obtain m' where "send_run sf evs (sc_mem st) (StreamFrameWriteState_control en i t) (sc_wire st) =
      Finished (Inr True) (sc_mem st) m' (sc_wire st @ stream_frame t i [])"
    using control_writer.send_completes [where x = "(i, t)" and evs = evs and mem = "sc_mem st" and sf = sf
        and out = "sc_wire st" and en = en] assms
    by (auto simp: stream_frame_def)
  then show ?thesis by (simp add: await_send_def)
qed

context ring_buffer
begin

lemma await_read_frame:
  assumes "ring_inv (sc_ring st)" "frame_ok (ring_capacity ops (sc_ring st)) t body"
    and "delivers evs" "ring_capacity ops (sc_ring st) \<le> length evs" "sunread ops st = stream_frame t i body @ later"
  shows "\<exists>msg msg' st'. await_read en ops evs s st = Done (Inr msg, st') \<and> sm_msg_type msg = t \<and>
    StreamMessage_payload (sc_mem st') msg = Some (body, msg') \<and> ring_inv (sc_ring st') \<and>
    ring_capacity ops (sc_ring st') = ring_capacity ops (sc_ring st) \<and> sunread ops st' = later \<and> sc_wire st' = sc_wire st"
proof -
  obtain mem' m' rest where r: "read_run ops (stream_parseFromRingBuffer en ops) evs (sc_mem st)
        (getMessage (sc_ring st) StreamMessage_init) (sc_stream st) = Finished (Inr True) mem' m' rest"
      "stream_value mem' (sr_message (machine_self m')) =
        Some \<lparr>sf_id = i, sf_type = t, sf_end = t \<in> {STREAM_END, STREAM_CANCEL}, sf_payload = body\<rparr>"
      "ring_inv (machine_ring m')" "ring_capacity ops (machine_ring m') = ring_capacity ops (sc_ring st)"
      "ring_content ops mem' (machine_ring m') @ rest = later"
    using stream_frame_read [OF assms(1-4), of "sc_mem st" "sc_stream st" i later en] assms(5) by (auto simp: sunread_def)
  have msg: "sm_msg_type (sr_message (machine_self m')) = t" "view_ok (StreamMessage_payloadView (sr_message (machine_self m')))"
      "view_bytes mem' (StreamMessage_payloadView (sr_message (machine_self m'))) = body"
    using r(2) by (auto simp: stream_value_def split: if_splits)
  obtain msg' where "StreamMessage_payload mem' (sr_message (machine_self m')) = Some (body, msg')"
    using stream_payload_bytes [OF msg(2), of mem'] msg(3) by auto
  then show ?thesis
    using r msg by (simp add: await_read_def stream_read_def sunread_def)
qed

text \<open>
  The session of a peer that sends data frames and ends the stream: every data frame is sent back, then
  the report, then the end of the stream.
\<close>

lemma echo_session:
  assumes "length ios = Suc (length ds)" "ring_inv (sc_ring st)" "cap = ring_capacity ops (sc_ring st)"
    and "list_all (frame_ok cap STREAM_DATA) ds" "16 \<le> cap"
    and "list_all (\<lambda>(revs, wevs, eevs). delivers revs \<and> cap \<le> length revs \<and> delivers wevs \<and> k \<le> length wevs \<and>
        delivers eevs \<and> 16 \<le> length eevs) ios"
    and "list_all (\<lambda>d. 16 + length d \<le> k) ds"
    and "16 + length (stream_summary s (frames + word_of_nat (length ds)) (bytes + word_of_nat (length (concat ds)))) \<le> k"
    and "sunread ops st = concat (map (stream_frame STREAM_DATA i) ds) @ stream_frame STREAM_END i [] @ later"
  shows "\<exists>st'. StreamExampleService_echo en ops sf ios s frames bytes st = SServing st' \<and>
    ring_inv (sc_ring st') \<and> ring_capacity ops (sc_ring st') = cap \<and> sunread ops st' = later \<and>
    sc_wire st' = sc_wire st @ concat (map (stream_frame STREAM_DATA (rst_writer_stream_id s)) ds) @
      stream_frame STREAM_DATA (rst_writer_stream_id s)
        (stream_summary s (frames + word_of_nat (length ds)) (bytes + word_of_nat (length (concat ds)))) @
      stream_frame STREAM_END (rst_writer_stream_id s) []"
  using assms
proof (induction ds arbitrary: ios frames bytes st)
  case Nil
  then obtain revs wevs eevs where ios: "ios = [(revs, wevs, eevs)]" by (auto simp: length_Suc_conv)
  have io: "delivers revs" "cap \<le> length revs" "delivers wevs" "k \<le> length wevs" "delivers eevs" "16 \<le> length eevs"
    using Nil.prems(6) ios by simp_all
  have "frame_ok cap STREAM_END []" using Nil.prems(5) by (simp add: frame_ok_def named_msgtypes_def)
  then obtain msg st1 where r: "await_read en ops revs s st = Done (Inr msg, st1)" "sm_msg_type msg = STREAM_END"
      "ring_inv (sc_ring st1)" "ring_capacity ops (sc_ring st1) = cap" "sunread ops st1 = later" "sc_wire st1 = sc_wire st"
    using await_read_frame [of st STREAM_END "[]" revs i later en s] Nil.prems io by auto
  let ?sum = "stream_summary s frames bytes"
  have "16 + length ?sum \<le> length wevs" using Nil.prems(8) io(4) by simp
  from r await_send_data [OF io(3) this, of sf en st1 s]
  show ?case by (simp add: ios sunread_def sendEnd_def await_send_control [OF io(5,6)] Let_def)
next
  case (Cons d ds)
  then obtain revs wevs eevs ios' where ios: "ios = (revs, wevs, eevs) # ios'" "length ios' = Suc (length ds)"
    by (cases ios) auto
  have io: "delivers revs" "cap \<le> length revs" "delivers wevs" "k \<le> length wevs" using Cons.prems(6) ios by simp_all
  let ?later = "concat (map (stream_frame STREAM_DATA i) ds) @ stream_frame STREAM_END i [] @ later"
  obtain msg msg' st1 where r: "await_read en ops revs s st = Done (Inr msg, st1)" "sm_msg_type msg = STREAM_DATA"
      "StreamMessage_payload (sc_mem st1) msg = Some (d, msg')"
      "ring_inv (sc_ring st1)" "ring_capacity ops (sc_ring st1) = cap" "sunread ops st1 = ?later" "sc_wire st1 = sc_wire st"
    using await_read_frame [of st STREAM_DATA d revs i ?later en s] Cons.prems io by auto
  define st2 where "st2 = st1\<lparr>sc_wire := sc_wire st @ stream_frame STREAM_DATA (rst_writer_stream_id s) d\<rparr>"
  have "16 + length d \<le> length wevs" using Cons.prems(7) io(4) by simp
  from await_send_data [OF io(3) this, of sf en st1 s] r have run:
    "StreamExampleService_echo en ops sf ios s frames bytes st =
      StreamExampleService_echo en ops sf ios' s (frames + 1) (bytes + word_of_nat (length d)) st2"
    by (simp add: ios st2_def Let_def)
  have sums: "frames + 1 + word_of_nat (length ds) = frames + word_of_nat (length (d # ds))"
    "bytes + word_of_nat (length d) + word_of_nat (length (concat ds)) = bytes + word_of_nat (length (concat (d # ds)))"
    by simp_all
  have st2: "ring_inv (sc_ring st2)" "cap = ring_capacity ops (sc_ring st2)" "sunread ops st2 = ?later"
    using r by (simp_all add: st2_def sunread_def)
  show ?case
    using Cons.IH [OF ios(2) st2(1,2), of "frames + 1" "bytes + word_of_nat (length d)"] Cons.prems(4-8) ios(1) st2(3) run
    unfolding sums by (simp add: st2_def)
qed

end

section \<open>The client program\<close>

definition host_store64 :: "endian \<Rightarrow> u64 \<Rightarrow> bytes" where
  "host_store64 en v = (
     let le = map (\<lambda>i. ucast (drop_bit (8 * i) v)) [0..<8]
     in case en of Little \<Rightarrow> le | Big \<Rightarrow> rev le)"

text \<open>
  How the client program ends: one constructor for each message it prints before it returns. The
  report at the end carries what is printed, except for the elapsed time and the rate.
\<close>

datatype stream_outcome =
    Connect_failed string
  | Create_failed string
  | Init_failed string
  | Ack_failed string
  | Unexpected_ack RpcMessageType
  | Send_failed string
  | Echo_failed string
  | Unexpected_frame RpcMessageType
  | End_failed string
  | Tail_failed string
  | Report u32 nat nat u64 bytes
  | Stream_waiting
  | Stream_undefined

definition e4_ring_buffer_size :: "nat \<Rightarrow> nat" where
  "e4_ring_buffer_size payload_size =
     max kDefaultRpcRingBufferSize (size_add (payload_size * 4 mod 2 ^ 64) (RPC_HEADER_SIZE * 8))"

text \<open>
  The loop over the frames: \<open>Inr\<close> continues behind the loop, \<open>Inl\<close> is an early return. One element of
  the schedule is the send and the read of one turn.
\<close>

primrec stream_frames ::
  "endian \<Rightarrow> 'rb ring_ops \<Rightarrow> IOError \<Rightarrow> 'rb RpcStream \<Rightarrow> nat \<Rightarrow> nat \<Rightarrow>
   nat \<Rightarrow> (io_event list \<times> io_event list) list \<Rightarrow> bytes \<Rightarrow> u64 \<Rightarrow> 'rb stream_conn \<Rightarrow>
   stream_outcome \<times> bytes + u64 \<times> 'rb stream_conn" where
  "stream_frames en ops sf stream frame_count payload_size 0 ios payload total_echo_bytes st = Inr (total_echo_bytes, st)"
| "stream_frames en ops sf stream frame_count payload_size (Suc left) ios payload total_echo_bytes st =
     (case ios of
        [] \<Rightarrow> Inl (Stream_waiting, [])
      | (wevs, revs) # ios \<Rightarrow>
         (let i = frame_count - Suc left in
          case (if payload_size \<ge> 8 then wr payload 0 (host_store64 en (word_of_nat i)) else Some payload) of
            None \<Rightarrow> Inl (Stream_undefined, [])
          | Some payload \<Rightarrow>
           (case await_send sf wevs (sendData en (sc_mem st) (Buf payload 0) (length payload) stream) st of
              Undef \<Rightarrow> Inl (Stream_undefined, [])
            | Waits \<Rightarrow> Inl (Stream_waiting, [])
            | Done (Inl e, st) \<Rightarrow> Inl (Send_failed (err_message e), sc_wire st)
            | Done (Inr _, st) \<Rightarrow>
             (case await_read en ops revs stream st of
                Undef \<Rightarrow> Inl (Stream_undefined, [])
              | Waits \<Rightarrow> Inl (Stream_waiting, [])
              | Done (Inl e, st) \<Rightarrow> Inl (Echo_failed (err_message e), sc_wire st)
              | Done (Inr echo_frame, st) \<Rightarrow>
                  (if sm_msg_type echo_frame \<noteq> STREAM_DATA then Inl (Unexpected_frame (sm_msg_type echo_frame), sc_wire st)
                   else case StreamMessage_payload (sc_mem st) echo_frame of
                       None \<Rightarrow> Inl (Stream_undefined, [])
                     | Some (echo_payload, echo_frame) \<Rightarrow>
                         stream_frames en ops sf stream frame_count payload_size left ios payload
                           (total_echo_bytes + word_of_nat (length echo_payload)) st)))))"

text \<open>The loop that reads until the end frame, over the schedules of its reads.\<close>

fun stream_tail ::
  "endian \<Rightarrow> 'rb ring_ops \<Rightarrow> 'rb RpcStream \<Rightarrow> io_event list list \<Rightarrow> bytes \<Rightarrow> 'rb stream_conn \<Rightarrow>
   stream_outcome \<times> bytes + bytes \<times> 'rb stream_conn" where
  "stream_tail en ops stream [] summary st = Inl (Stream_waiting, [])"
| "stream_tail en ops stream (revs # ios) summary st =
     (case await_read en ops revs stream st of
        Undef \<Rightarrow> Inl (Stream_undefined, [])
      | Waits \<Rightarrow> Inl (Stream_waiting, [])
      | Done (Inl e, st) \<Rightarrow> Inl (Tail_failed (err_message e), sc_wire st)
      | Done (Inr msg, st) \<Rightarrow>
          (if sm_msg_type msg = STREAM_DATA
           then (case StreamMessage_payloadStr (sc_mem st) msg of
                   None \<Rightarrow> Inl (Stream_undefined, [])
                 | Some (text, msg) \<Rightarrow> stream_tail en ops stream ios text st)
           else if sm_msg_type msg = STREAM_END then Inr (summary, st)
           else stream_tail en ops stream ios summary st))"

text \<open>
  The schedules of one run: the sends and reads of the opening, of the frames, of the end and of the
  tail. \<open>connect_result\<close> is what the kernel's connect answers. The outcome comes with the bytes the
  program has sent when it returns.
\<close>

record client_schedule =
  cs_init :: "io_event list"
  cs_ack :: "io_event list"
  cs_frames :: "(io_event list \<times> io_event list) list"
  cs_end :: "io_event list"
  cs_tail :: "io_event list list"

definition run_session ::
  "endian \<Rightarrow> 'rb ring_ops \<Rightarrow> IOError \<Rightarrow> client_schedule \<Rightarrow> nat \<Rightarrow> nat \<Rightarrow> 'rb RpcStream \<Rightarrow> 'rb stream_conn \<Rightarrow>
   stream_outcome \<times> bytes" where
  "run_session en ops sf io frame_count payload_size stream st =
     (case await_send sf (cs_init io) (sendInit en stream) st of
        Undef \<Rightarrow> (Stream_undefined, [])
      | Waits \<Rightarrow> (Stream_waiting, [])
      | Done (Inl e, st) \<Rightarrow> (Init_failed (err_message e), sc_wire st)
      | Done (Inr _, st) \<Rightarrow>
       (case await_read en ops (cs_ack io) stream st of
          Undef \<Rightarrow> (Stream_undefined, [])
        | Waits \<Rightarrow> (Stream_waiting, [])
        | Done (Inl e, st) \<Rightarrow> (Ack_failed (err_message e), sc_wire st)
        | Done (Inr init_ack, st) \<Rightarrow>
            (if sm_msg_type init_ack \<noteq> STREAM_INIT_ACK then (Unexpected_ack (sm_msg_type init_ack), sc_wire st)
             else let payload = replicate payload_size (of_char (CHR ''x''))
               in case stream_frames en ops sf stream frame_count payload_size frame_count (cs_frames io) payload 0 st of
                 Inl returned \<Rightarrow> returned
               | Inr (total_echo_bytes, st) \<Rightarrow>
                (case await_send sf (cs_end io) (sendEnd en stream) st of
                   Undef \<Rightarrow> (Stream_undefined, [])
                 | Waits \<Rightarrow> (Stream_waiting, [])
                 | Done (Inl e, st) \<Rightarrow> (End_failed (err_message e), sc_wire st)
                 | Done (Inr _, st) \<Rightarrow>
                    (case stream_tail en ops stream (cs_tail io) [] st of
                       Inl returned \<Rightarrow> returned
                     | Inr (summary, st) \<Rightarrow>
                         (Report (rst_stream_id stream) frame_count payload_size total_echo_bytes summary, sc_wire st))))))"

definition runStreamClient ::
  "endian \<Rightarrow> 'rb ring_ops \<Rightarrow> (nat \<Rightarrow> 'rb) \<Rightarrow> IOError \<Rightarrow> IOError option \<Rightarrow> client_schedule \<Rightarrow> nat \<Rightarrow> nat \<Rightarrow> memory \<Rightarrow> bytes \<Rightarrow>
   stream_outcome \<times> bytes" where
  "runStreamClient en ops mk_ring sf connect_result io frame_count payload_size mem incoming = (
     let ring_buffer_size = e4_ring_buffer_size payload_size;
         client = client_connect mk_ring (mkRpcClient (client_ringBufferSize ring_buffer_size RpcClientConfig_init))
     in case connect_result of
          Some e \<Rightarrow> (Connect_failed (ioe_message e), [])
        | None \<Rightarrow>
           (let stream_id = 1
            in case createStream_id stream_id (ascii ''StreamExampleService'') (ascii ''echo'') client of
                 Inl e \<Rightarrow> (Create_failed (err_message e), [])
               | Inr stream \<Rightarrow> run_session en ops sf io frame_count payload_size stream
                   \<lparr>sc_mem = mem, sc_ring = rst_ring_buffer stream, sc_stream = incoming, sc_wire = [], sc_last_error = None\<rparr>))"

text \<open>The arguments of the program: host, port, number of frames, size of a frame.\<close>

definition e4_args :: "string list \<Rightarrow> string \<times> u16 \<times> nat \<times> nat" where
  "e4_args argv =
     (if length argv > 1 then argv ! 1 else ''127.0.0.1'',
      if length argv > 2 then word_of_int (atoi (argv ! 2)) else 9100,
      if length argv > 3 then strtoull (argv ! 3) else 1000,
      if length argv > 4 then strtoull (argv ! 4) else 128)"

lemma e4_args_read: "e4_args [program] = (''127.0.0.1'', 9100, 1000, 128)"
    "n < 2 ^ 64 \<Longrightarrow> p < 2 ^ 64 \<Longrightarrow>
      e4_args [program, host, to_string port, to_string n, to_string p] = (host, word_of_nat port, n, p)"
  by (simp_all add: e4_args_def)

section \<open>The client against the server\<close>

text \<open>The payload of the frame with a given number.\<close>

definition e4_payload :: "endian \<Rightarrow> nat \<Rightarrow> nat \<Rightarrow> bytes" where
  "e4_payload en payload_size i =
     (if payload_size \<ge> 8 then host_store64 en (word_of_nat i) @ replicate (payload_size - 8) (of_char (CHR ''x''))
      else replicate payload_size (of_char (CHR ''x'')))"

lemma length_host_store64 [simp]: "length (host_store64 en v) = 8"
  by (simp add: host_store64_def Let_def split: endian.split)

lemma length_e4_payload [simp]: "length (e4_payload en p i) = p"
  by (simp add: e4_payload_def)

lemma e4_payload_update:
  assumes "length old = p" "drop 8 old = replicate (p - 8) (of_char (CHR ''x''))" "p < 8 \<Longrightarrow> old = replicate p (of_char (CHR ''x''))"
  shows "(if p \<ge> 8 then wr old 0 (host_store64 en (word_of_nat i)) else Some old) = Some (e4_payload en p i)"
  using assms by (simp add: e4_payload_def wr_def)

lemma e4_payload_rest: "drop 8 (e4_payload en p i) = replicate (p - 8) (of_char (CHR ''x''))"
    "p < 8 \<Longrightarrow> e4_payload en p i = replicate p (of_char (CHR ''x''))"
  by (simp_all add: e4_payload_def)

definition e4_frames :: "endian \<Rightarrow> nat \<Rightarrow> nat \<Rightarrow> nat \<Rightarrow> bytes list" where
  "e4_frames en payload_size from to = map (e4_payload en payload_size) [from..<to]"

lemma e4_frames_Cons: "i < n \<Longrightarrow> e4_frames en p i n = e4_payload en p i # e4_frames en p (Suc i) n"
  by (simp add: e4_frames_def upt_conv_Cons)

lemma e4_frames_sizes: "length (e4_frames en p i n) = n - i" "length (concat (e4_frames en p i n)) = (n - i) * p"
    "d \<in> set (e4_frames en p i n) \<Longrightarrow> length d = p"
  by (auto simp: e4_frames_def length_concat comp_def sum_list_triv)

context ring_buffer
begin

lemma frames_echoed:
  assumes "left \<le> n" "length ios = left" "length payload = p" "drop 8 payload = replicate (p - 8) (of_char (CHR ''x''))"
    and "p < 8 \<Longrightarrow> payload = replicate p (of_char (CHR ''x''))"
    and "ring_inv (sc_ring st)" "cap = ring_capacity ops (sc_ring st)" "16 + p \<le> cap" "p \<le> RPC_MAX_BODY_SIZE"
    and "list_all (\<lambda>(wevs, revs). delivers wevs \<and> 16 + p \<le> length wevs \<and> delivers revs \<and> cap \<le> length revs) ios"
    and "sunread ops st = concat (map (stream_frame STREAM_DATA i) (e4_frames en p (n - left) n)) @ later"
  shows "\<exists>st'. stream_frames en ops sf s n p left ios payload echoed st = Inr (echoed + word_of_nat (left * p), st') \<and>
    ring_inv (sc_ring st') \<and> ring_capacity ops (sc_ring st') = cap \<and> sunread ops st' = later \<and>
    sc_wire st' = sc_wire st @ concat (map (stream_frame STREAM_DATA (rst_writer_stream_id s)) (e4_frames en p (n - left) n))"
  using assms
proof (induction left arbitrary: ios payload echoed st)
  case 0
  then show ?case by (simp add: e4_frames_def)
next
  case (Suc left)
  obtain wevs revs ios' where ios: "ios = (wevs, revs) # ios'" "length ios' = left"
    using Suc.prems(2) by (cases ios) auto
  have io: "delivers wevs" "16 + p \<le> length wevs" "delivers revs" "cap \<le> length revs"
    using Suc.prems(10) ios by simp_all
  let ?j = "n - Suc left"
  let ?d = "e4_payload en p ?j"
  let ?later = "concat (map (stream_frame STREAM_DATA i) (e4_frames en p (n - left) n)) @ later"
  have fs: "e4_frames en p ?j n = ?d # e4_frames en p (n - left) n"
    using e4_frames_Cons [of ?j n en p] Suc.prems(1) by (simp add: Suc_diff_Suc)
  define st1 where "st1 = st\<lparr>sc_wire := sc_wire st @ stream_frame STREAM_DATA (rst_writer_stream_id s) ?d\<rparr>"
  have len: "16 + length ?d \<le> length wevs" using io(2) by simp
  have "frame_ok cap STREAM_DATA ?d" using Suc.prems(8,9) by (simp add: frame_ok_def named_msgtypes_def)
  then obtain msg msg' st2 where r: "await_read en ops revs s st1 = Done (Inr msg, st2)" "sm_msg_type msg = STREAM_DATA"
      "StreamMessage_payload (sc_mem st2) msg = Some (?d, msg')" "ring_inv (sc_ring st2)"
      "ring_capacity ops (sc_ring st2) = cap" "sunread ops st2 = ?later" "sc_wire st2 = sc_wire st1"
    using await_read_frame [of st1 STREAM_DATA ?d revs i ?later en s] Suc.prems io fs by (auto simp: st1_def sunread_def)
  have step: "stream_frames en ops sf s n p (Suc left) ios payload echoed st =
      stream_frames en ops sf s n p left ios' ?d (echoed + word_of_nat p) st2"
    using r await_send_data [OF io(1) len, of sf en st s] e4_payload_update [OF Suc.prems(3-5)]
    by (simp add: ios st1_def Let_def)
  have "echoed + word_of_nat p + word_of_nat (left * p) = echoed + word_of_nat (Suc left * p)" by simp
  then obtain st' where "stream_frames en ops sf s n p left ios' ?d (echoed + word_of_nat p) st2 =
        Inr (echoed + word_of_nat (Suc left * p), st')"
      "ring_inv (sc_ring st')" "ring_capacity ops (sc_ring st') = cap" "sunread ops st' = later"
      "sc_wire st' = sc_wire st2 @ concat (map (stream_frame STREAM_DATA (rst_writer_stream_id s)) (e4_frames en p (n - left) n))"
    using Suc.IH [OF _ ios(2) length_e4_payload e4_payload_rest r(4) _ Suc.prems(8,9), of en ?j "echoed + word_of_nat p"]
      Suc.prems(1,10) r(5,6) ios(1) by auto
  then show ?case unfolding step fs using r(7) by (simp add: st1_def)
qed

lemma tail_read:
  assumes "ring_inv (sc_ring st)" "cap = ring_capacity ops (sc_ring st)" "16 + length report \<le> cap" "length report \<le> RPC_MAX_BODY_SIZE"
    and "delivers revs1" "cap \<le> length revs1" "delivers revs2" "cap \<le> length revs2"
    and "sunread ops st = stream_frame STREAM_DATA i report @ stream_frame STREAM_END i [] @ later"
  shows "\<exists>st'. stream_tail en ops s (revs1 # revs2 # ios) summary st = Inr (report, st') \<and> sc_wire st' = sc_wire st"
proof -
  have ok: "frame_ok cap STREAM_DATA report" "frame_ok cap STREAM_END []"
    using assms(3,4) by (simp_all add: frame_ok_def named_msgtypes_def)
  obtain msg msg' st1 where r: "await_read en ops revs1 s st = Done (Inr msg, st1)" "sm_msg_type msg = STREAM_DATA"
      "StreamMessage_payload (sc_mem st1) msg = Some (report, msg')" "ring_inv (sc_ring st1)" "ring_capacity ops (sc_ring st1) = cap"
      "sunread ops st1 = stream_frame STREAM_END i [] @ later" "sc_wire st1 = sc_wire st"
    using await_read_frame [of st STREAM_DATA report revs1 i "stream_frame STREAM_END i [] @ later" en s] assms ok by auto
  obtain msg2 st2 where "await_read en ops revs2 s st1 = Done (Inr msg2, st2)" "sm_msg_type msg2 = STREAM_END" "sc_wire st2 = sc_wire st1"
    using await_read_frame [of st1 STREAM_END "[]" revs2 i later en s] assms ok r by auto
  with r show ?thesis by (simp add: StreamMessage_payload_def StreamMessage_payloadStr_def)
qed

end

text \<open>What the server reports for a number of frames of one size.\<close>

definition stream_report :: "nat \<Rightarrow> nat \<Rightarrow> bytes" where
  "stream_report frame_count payload_size =
     ascii (''service=StreamExampleService, method=echo, frames='' @ to_string frame_count @
       '', bytes='' @ to_string (frame_count * payload_size mod 2 ^ 64))"

abbreviation example_stream :: "'rb \<Rightarrow> 'rb RpcStream" where
  "example_stream rb \<equiv> mkRpcStream rb 1 (ascii ''StreamExampleService'') (ascii ''echo'')"

abbreviation example_route :: bytes where
  "example_route \<equiv> route_bytes (ascii ''StreamExampleService'') (ascii ''echo'')"

lemma ascii_append [simp]: "ascii (s @ t) = ascii s @ ascii t"
  by (simp add: ascii_def)

lemma summary_report:
  assumes "n < 2 ^ 64"
  shows "stream_summary (example_stream rb) (word_of_nat n) (word_of_nat (n * p)) = stream_report n p"
proof -
  have "unat (word_of_nat n :: u64) = n" "unat (word_of_nat (n * p) :: u64) = n * p mod 2 ^ 64"
    using assms by (simp_all only: unat_of_nat) simp_all
  moreover have "stream_report n p = ascii ''service='' @ ascii ''StreamExampleService'' @ ascii '', method='' @ ascii ''echo'' @
      ascii '', frames='' @ ascii (to_string n) @ ascii '', bytes='' @ ascii (to_string (n * p mod 2 ^ 64))"
    unfolding stream_report_def ascii_append [symmetric] by simp
  ultimately show ?thesis by (simp only: stream_summary_def mkRpcStream_def RpcStream.select_convs)
qed

lemma to_string_length: "n < 10 ^ Suc k \<Longrightarrow> length (to_string n) \<le> Suc k"
proof (induction k arbitrary: n)
  case 0
  then show ?case by (subst to_string.simps) simp
next
  case (Suc k)
  have "n div 10 < 10 ^ Suc k" using Suc.prems by (simp add: div_less_iff_less_mult)
  then show ?case using Suc.IH [of "n div 10"] by (subst to_string.simps) simp
qed

lemma stream_report_length:
  assumes "n < 2 ^ 64"
  shows "length (stream_report n p) \<le> 98"
proof -
  have "n < 10 ^ Suc 19" "n * p mod 2 ^ 64 < 10 ^ Suc 19"
    using assms by (simp_all add: less_trans [OF mod_less_divisor])
  then show ?thesis using to_string_length [of n 19] to_string_length [of "n * p mod 2 ^ 64" 19] by (simp add: stream_report_def)
qed

lemma example_handler:
  "session_handler (srv_services (e3_server hc aff port io_count rs)) (ascii ''StreamExampleService'') (ascii ''echo'') = Some ()"
  by (simp add: session_handler_def e3_server_def stream_builder_agrees server_registerService_def registerService_def mkRpcServer_def
      StreamExampleService_def registerStreamMethod_member_def mkRpcService_def Let_def)

lemma example_opened:
  "opened (srv_services (e3_server hc aff port io_count rs)) STREAM_INIT example_route =
    Some ((), ascii ''StreamExampleService'', ascii ''echo'')"
proof -
  have "parse_route (example_route @ []) = Some (ascii ''StreamExampleService'', ascii ''echo'', [])"
    by (rule parse_route_bytes) simp_all
  then show ?thesis by (simp add: opened_def example_handler)
qed

text \<open>The frames the client sends, and the frames it reads.\<close>

definition client_frames :: "endian \<Rightarrow> nat \<Rightarrow> nat \<Rightarrow> bytes" where
  "client_frames en n p = concat (map (stream_frame STREAM_DATA 1) (e4_frames en p 0 n)) @ stream_frame STREAM_END 1 []"

definition server_frames :: "endian \<Rightarrow> nat \<Rightarrow> nat \<Rightarrow> bytes" where
  "server_frames en n p = concat (map (stream_frame STREAM_DATA 1) (e4_frames en p 0 n)) @
     stream_frame STREAM_DATA 1 (stream_report n p) @ stream_frame STREAM_END 1 []"

definition schedule_ok :: "nat \<Rightarrow> nat \<Rightarrow> nat \<Rightarrow> client_schedule \<Rightarrow> bool" where
  "schedule_ok cap n p io \<longleftrightarrow>
     delivers (cs_init io) \<and> 44 \<le> length (cs_init io) \<and> delivers (cs_ack io) \<and> cap \<le> length (cs_ack io) \<and>
     length (cs_frames io) = n \<and>
     list_all (\<lambda>(wevs, revs). delivers wevs \<and> 16 + p \<le> length wevs \<and> delivers revs \<and> cap \<le> length revs) (cs_frames io) \<and>
     delivers (cs_end io) \<and> 16 \<le> length (cs_end io) \<and>
     length (cs_tail io) = 2 \<and> list_all (\<lambda>revs. delivers revs \<and> cap \<le> length revs) (cs_tail io)"

lemma await_send_init:
  assumes "delivers evs" "44 \<le> length evs"
  shows "await_send sf evs (sendInit en (example_stream rb)) st =
    Done (Inr True, st\<lparr>sc_wire := sc_wire st @ stream_frame STREAM_INIT 1 example_route\<rparr>)"
proof -
  obtain m' where "send_run sf evs (sc_mem st) (sendInit en (example_stream rb)) (sc_wire st) =
      Finished (Inr True) (sc_mem st) m' (sc_wire st @ stream_frame STREAM_INIT 1 example_route)"
    using init_writer.send_completes [where x = "(1, ascii ''StreamExampleService'', ascii ''echo'')" and evs = evs and mem = "sc_mem st"
        and sf = sf and out = "sc_wire st" and en = en] assms
    by (auto simp: sendInit_def mkRpcStream_def stream_frame_def)
  then show ?thesis by (simp add: await_send_def)
qed

context ring_buffer
begin

lemma session_runs:
  assumes rb: "ring_inv rb" "ring_content ops mem rb = []" "16 + p \<le> ring_capacity ops rb" "114 \<le> ring_capacity ops rb"
    and "p \<le> RPC_MAX_BODY_SIZE" "n < 2 ^ 64" "schedule_ok (ring_capacity ops rb) n p io"
  shows "run_session en ops sf io n p (example_stream rb)
      \<lparr>sc_mem = mem, sc_ring = rb, sc_stream = stream_frame STREAM_INIT_ACK 1 [] @ server_frames en n p, sc_wire = [], sc_last_error = None\<rparr> =
    (Report 1 n p (word_of_nat (n * p)) (stream_report n p), stream_frame STREAM_INIT 1 example_route @ client_frames en n p)"
proof -
  let ?cap = "ring_capacity ops rb" and ?s = "example_stream rb"
  note io = assms(7) [unfolded schedule_ok_def]
  define st0 where "st0 = \<lparr>sc_mem = mem, sc_ring = rb, sc_stream = stream_frame STREAM_INIT_ACK 1 [] @ server_frames en n p,
      sc_wire = stream_frame STREAM_INIT 1 example_route, sc_last_error = None\<rparr>"
  have st0: "ring_inv (sc_ring st0)" "ring_capacity ops (sc_ring st0) = ?cap"
      "sunread ops st0 = stream_frame STREAM_INIT_ACK 1 [] @ server_frames en n p"
    using rb by (simp_all add: st0_def sunread_def)
  have "frame_ok ?cap STREAM_INIT_ACK []" using rb(3) by (simp add: frame_ok_def named_msgtypes_def)
  then obtain msg st1 where r1: "await_read en ops (cs_ack io) ?s st0 = Done (Inr msg, st1)" "sm_msg_type msg = STREAM_INIT_ACK"
      "ring_inv (sc_ring st1)" "ring_capacity ops (sc_ring st1) = ?cap" "sunread ops st1 = server_frames en n p" "sc_wire st1 = sc_wire st0"
    using await_read_frame [of st0 STREAM_INIT_ACK "[]" "cs_ack io" 1 "server_frames en n p" en ?s] st0 io by auto
  let ?later = "stream_frame STREAM_DATA 1 (stream_report n p) @ stream_frame STREAM_END 1 []"
  obtain st2 where r2: "stream_frames en ops sf ?s n p n (cs_frames io) (replicate p (of_char (CHR ''x''))) 0 st1 =
        Inr (word_of_nat (n * p), st2)"
      "ring_inv (sc_ring st2)" "ring_capacity ops (sc_ring st2) = ?cap" "sunread ops st2 = ?later"
      "sc_wire st2 = sc_wire st1 @ concat (map (stream_frame STREAM_DATA 1) (e4_frames en p 0 n))"
    using frames_echoed [of n n "cs_frames io" "replicate p (of_char (CHR ''x''))" p st1 ?cap 1 en ?later sf ?s 0] r1 rb assms(5) io
    by (auto simp: server_frames_def mkRpcStream_def)
  define st3 where "st3 = st2\<lparr>sc_wire := sc_wire st2 @ stream_frame STREAM_END 1 []\<rparr>"
  have st3: "ring_inv (sc_ring st3)" "?cap = ring_capacity ops (sc_ring st3)" "sunread ops st3 = ?later"
    using r2 by (simp_all add: st3_def sunread_def)
  obtain revs1 revs2 where tail: "cs_tail io = [revs1, revs2]" using io by (auto simp: length_Suc_conv numeral_2_eq_2)
  have report: "16 + length (stream_report n p) \<le> ?cap" "length (stream_report n p) \<le> RPC_MAX_BODY_SIZE"
    using stream_report_length [OF assms(6), of p] rb(4) by (simp_all add: max_body_eq)
  obtain st4 where r4: "stream_tail en ops ?s (cs_tail io) [] st3 = Inr (stream_report n p, st4)" "sc_wire st4 = sc_wire st3"
    using tail_read [OF st3(1,2) report, of revs1 revs2 1 "[]" en ?s "[]" "[]"] st3(3) tail io by auto
  have s: "sendEnd en ?s = StreamFrameWriteState_control en 1 STREAM_END" "rst_stream_id ?s = 1"
    by (simp_all add: sendEnd_def mkRpcStream_def)
  define st where "st = st0\<lparr>sc_wire := []\<rparr>"
  have r0: "await_send sf (cs_init io) (sendInit en ?s) st = Done (Inr True, st0)"
    using await_send_init [of "cs_init io" sf en rb st] io by (simp add: st_def st0_def)
  have r3: "await_send sf (cs_end io) (sendEnd en ?s) st2 = Done (Inr True, st3)"
    using await_send_control [of "cs_end io" sf en 1 STREAM_END st2] io by (simp add: s st3_def)
  have "run_session en ops sf io n p ?s st =
      (Report 1 n p (word_of_nat (n * p)) (stream_report n p), stream_frame STREAM_INIT 1 example_route @ client_frames en n p)"
    unfolding run_session_def r0 using r1 r2 r3 r4 s(2) by (simp add: client_frames_def st3_def st0_def)
  then show ?thesis by (simp add: st_def st0_def)
qed

end

text \<open>The session of the client program as the server sees it.\<close>

definition example_session :: "endian \<Rightarrow> nat \<Rightarrow> nat \<Rightarrow> session" where
  "example_session en n p = \<lparr>se_id = 1, se_type = STREAM_INIT, se_body = example_route,
     se_input = client_frames en n p, se_output = server_frames en n p\<rparr>"

definition handler_schedule_ok :: "nat \<Rightarrow> nat \<Rightarrow> nat \<Rightarrow> (io_event list \<times> io_event list \<times> io_event list) list \<Rightarrow> bool" where
  "handler_schedule_ok cap n k ios \<longleftrightarrow> length ios = Suc n \<and>
     list_all (\<lambda>(revs, wevs, eevs). delivers revs \<and> cap \<le> length revs \<and> delivers wevs \<and> k \<le> length wevs \<and>
        delivers eevs \<and> 16 \<le> length eevs) ios"

context ring_buffer
begin

lemma example_session_ok:
  assumes "44 \<le> cap" "16 + p \<le> cap" "p \<le> RPC_MAX_BODY_SIZE" "n < 2 ^ 64"
    and "handler_schedule_ok cap n (114 + p) ios"
  shows "session_ok ops ring_inv cap (\<lambda>_ s. StreamExampleService_echo sen ops sf ios s 0 0)
    (srv_services (e3_server hc aff port io_count rs)) (example_session cen n p)"
proof -
  let ?ds = "e4_frames cen p 0 n"
  have route: "frame_ok cap STREAM_INIT example_route"
    using assms(1) by (simp add: frame_ok_def named_msgtypes_def max_body_eq)
  have ds: "list_all (frame_ok cap STREAM_DATA) ?ds" "list_all (\<lambda>d. 16 + length d \<le> 114 + p) ?ds"
    using assms(2,3) by (auto simp: list_all_iff frame_ok_def named_msgtypes_def e4_frames_sizes(3))
  note io = assms(5) [unfolded handler_schedule_ok_def]
  have "\<exists>st'. StreamExampleService_echo sen ops sf ios (example_stream (sc_ring st)) 0 0 st = SServing st' \<and>
      ring_inv (sc_ring st') \<and> ring_capacity ops (sc_ring st') = cap \<and> sunread ops st' = later \<and>
      sc_wire st' = sc_wire st @ server_frames cen n p"
    if st: "ring_inv (sc_ring st)" "ring_capacity ops (sc_ring st) = cap" "sunread ops st = client_frames cen n p @ later" for st later
  proof -
    have report: "stream_summary (example_stream (sc_ring st)) (0 + word_of_nat (length ?ds)) (0 + word_of_nat (length (concat ?ds))) =
        stream_report n p"
      using summary_report [OF assms(4), of "sc_ring st" p] by (simp add: e4_frames_sizes)
    have "16 + length (stream_report n p) \<le> 114 + p" using stream_report_length [OF assms(4), of p] by simp
    moreover have "length ios = Suc (length ?ds)" using io by (simp add: e4_frames_sizes)
    moreover have "rst_writer_stream_id (example_stream (sc_ring st)) = 1" by (simp add: mkRpcStream_def)
    ultimately show ?thesis
      using echo_session [of ios ?ds st cap "114 + p" "example_stream (sc_ring st)" 0 0 1 later sen sf, unfolded report] st ds assms(1) io
      by (simp add: client_frames_def server_frames_def)
  qed
  then show ?thesis
    using route by (auto simp: session_ok_def example_session_def example_opened)
qed

end

section \<open>Properties\<close>

text \<open>C9. The two streaming programs of the examples work together. The client program opens its session, sends
  any number of frames of any size that both rings can hold, each followed by a read of its echo, and
  ends the stream; the server program echoes each frame and closes with its report. Whatever the byte
  orders are and however the bytes are cut in both directions, the client ends with its report: the
  number of bytes it was sent back is the number it sent, modulo 2^64, and the summary it read names
  the route, the number of frames and the number of bytes.\<close>

theorem stream_programs_agree:
  assumes "ring_buffer cops cinv" "crb = cmk (e4_ring_buffer_size p)" "cinv crb" "ring_content cops cmem crb = []"
    and "16 + p \<le> ring_capacity cops crb" "114 \<le> ring_capacity cops crb"
    and "ring_buffer sops sinv" "0 < rs" "srb = smk rs" "sinv srb" "ring_content sops smem srb = []"
    and "16 + p \<le> ring_capacity sops srb" "44 \<le> ring_capacity sops srb"
    and "p \<le> RPC_MAX_BODY_SIZE" "n < 2 ^ 64"
    and "schedule_ok (ring_capacity cops crb) n p io" "handler_schedule_ok (ring_capacity sops srb) n (114 + p) ios"
    and "delivers srevs" "ring_capacity sops srb \<le> length srevs" "delivers swevs" "16 \<le> length swevs"
  shows "\<exists>st wire.
    stream_handleConnection sen sops smk ssf (\<lambda>_ s. StreamExampleService_echo sen sops ssf ios s 0 0)
      (e3_server hc aff port io_count rs) None None [(srevs, swevs)] smem wire = SClosed st \<and>
    runStreamClient cen cops cmk csf None io n p cmem (sc_wire st) =
      (Report 1 n p (word_of_nat (n * p)) (stream_report n p), wire)"
proof -
  let ?run = "\<lambda>_ s. StreamExampleService_echo sen sops ssf ios s 0 0" and ?srv = "e3_server hc aff port io_count rs"
  let ?se = "example_session cen n p"
  have cfg: "srb = smk (if cfg_ring_buffer_size (srv_config ?srv) = 0 then 128 * 1024 else cfg_ring_buffer_size (srv_config ?srv))"
    using assms(8,9) by (simp add: e3_server_def stream_builder_agrees server_registerService_def mkRpcServer_def builder_ringBufferSize_def Let_def)
  have "session_ok sops sinv (ring_capacity sops srb) ?run (srv_services ?srv) ?se"
    using ring_buffer.example_session_ok [OF assms(7,13,12,14,15,17)] .
  then obtain st where st:
    "stream_handleConnection sen sops smk ssf ?run ?srv None None [(srevs, swevs)] smem (session_request ?se) = SClosed st"
    "sc_wire st = session_reply (srv_services ?srv) ?se"
    using ring_buffer.sessions_on_connection [where mk_ring = smk, OF assms(7) cfg assms(10,11), of ?run "[?se]" "[(srevs, swevs)]" sen ssf None "[]"]
      assms(18-21) by auto
  have wires: "session_request ?se = stream_frame STREAM_INIT 1 example_route @ client_frames cen n p"
      "session_reply (srv_services ?srv) ?se = stream_frame STREAM_INIT_ACK 1 [] @ server_frames cen n p"
    by (simp_all add: session_request_def session_reply_def example_session_def example_opened)
  have client: "createStream_id 1 (ascii ''StreamExampleService'') (ascii ''echo'')
      (client_connect cmk (mkRpcClient (client_ringBufferSize (e4_ring_buffer_size p) RpcClientConfig_init))) = Inr (example_stream crb)"
    using assms(2) by (simp add: createStream_id_def client_connect_def mkRpcClient_def client_ringBufferSize_def
        e4_ring_buffer_size_def kDefaultRpcRingBufferSize_def Let_def)
  have ring: "rst_ring_buffer (example_stream crb) = crb" by (simp add: mkRpcStream_def)
  have "runStreamClient cen cops cmk csf None io n p cmem (sc_wire st) =
      (Report 1 n p (word_of_nat (n * p)) (stream_report n p), session_request ?se)"
    using ring_buffer.session_runs [OF assms(1,3-6,14-16), of cen csf]
    by (simp add: runStreamClient_def client ring st(2) wires Let_def)
  with st(1) show ?thesis by blast
qed

theorem stream_programs_agree_witness:
  "\<exists>st wire.
    stream_handleConnection Big circ_ops mk_circ no_error
      (\<lambda>_ s. StreamExampleService_echo Big circ_ops no_error
        (replicate 3 (replicate 200 (Deliver 3), replicate 130 (Deliver 5), replicate 16 (Deliver 1))) s 0 0)
      (e3_server 4 \<lparr>af_mode = Affinity_default, af_seq_io_count = 0, af_seq_compute_count = 0,
        af_custom_io_cpus = [], af_custom_compute_cpus = []\<rparr> 9100 1 200) None None
      [(replicate 200 (Deliver 7), replicate 16 (Deliver 2))] (\<lambda>_. 0) wire = SClosed st \<and>
    runStreamClient Little circ_ops mk_circ no_error None
      \<lparr>cs_init = replicate 44 (Deliver 9), cs_ack = replicate 8192 (Deliver 1),
        cs_frames = replicate 2 (replicate 25 (Deliver 4), replicate 8192 (Deliver 6)),
        cs_end = replicate 16 (Deliver 3), cs_tail = replicate 2 (replicate 8192 (Deliver 8))\<rparr> 2 9 (\<lambda>_. 0) (sc_wire st) =
      (Report 1 2 9 18 (stream_report 2 9), wire)"
proof -
  let ?aff = "\<lparr>af_mode = Affinity_default, af_seq_io_count = 0, af_seq_compute_count = 0,
    af_custom_io_cpus = [], af_custom_compute_cpus = []\<rparr>"
  let ?io = "\<lparr>cs_init = replicate 44 (Deliver 9), cs_ack = replicate 8192 (Deliver 1),
    cs_frames = replicate 2 (replicate 25 (Deliver 4), replicate 8192 (Deliver 6)),
    cs_end = replicate 16 (Deliver 3), cs_tail = replicate 2 (replicate 8192 (Deliver 8))\<rparr>"
  let ?ios = "replicate 3 (replicate 200 (Deliver 3), replicate 130 (Deliver 5), replicate 16 (Deliver 1))"
  have ring: "circ_inv (mk_circ (e4_ring_buffer_size 9))" "ring_capacity circ_ops (mk_circ (e4_ring_buffer_size 9)) = 8192"
      "circ_inv (mk_circ 200)" "ring_capacity circ_ops (mk_circ 200) = 200"
    by (simp_all add: e4_ring_buffer_size_def kDefaultRpcRingBufferSize_def size_add_def)
  have "schedule_ok 8192 2 9 ?io" "handler_schedule_ok 200 2 (114 + 9) ?ios"
    by (simp_all add: schedule_ok_def handler_schedule_ok_def delivers_def list_all_iff)
  then show ?thesis
    using stream_programs_agree [OF circ.ring_buffer_axioms refl _ _ _ _ circ.ring_buffer_axioms _ refl, where cmk = mk_circ
        and smk = mk_circ and cmem = "\<lambda>_. 0" and smem = "\<lambda>_. 0" and p = 9 and n = 2 and rs = 200 and io = ?io and ios = ?ios
        and srevs = "replicate 200 (Deliver 7)" and swevs = "replicate 16 (Deliver 2)" and sen = Big and ssf = no_error
        and hc = 4 and aff = ?aff and port = 9100 and io_count = 1 and cen = Little and csf = no_error] ring
    by (simp add: delivers_def max_body_eq list_all_iff)
qed

end
