(* ===== verification/Rpc_Discovery.thy ===== *)
theory Rpc_Discovery
  imports Rpc_Text "HOL-Library.AList"
begin

text \<open>
  Model of \<^verbatim>\<open>src/galay-rpc/kernel/rpc_discovery.h\<close>: endpoints, the two in-memory registries, the registry
  interface they share, and the discovery client on top of that interface.

  An unordered map is an association list. A watch callback is a value of a type parameter; calling
  it is recorded in order, with the event it is given, and it does not call the registry back. The
  load balancers are the kernel's: the client takes their constructor and their selection as arguments.
\<close>

section \<open>Endpoints, errors, events\<close>

record ServiceEndpoint =
  ep_host :: string
  ep_port :: u16
  ep_service_name :: string
  ep_instance_id :: string
  ep_weight :: u32

definition address :: "ServiceEndpoint \<Rightarrow> string" where
  "address e = ep_host e @ '':'' @ to_string (unat (ep_port e))"

datatype DiscoveryCode = D_OK | NOT_FOUND | CONNECTION_ERROR | LOCK_TIMEOUT | D_INTERNAL_ERROR

record DiscoveryError =
  de_code :: DiscoveryCode
  de_message :: string

definition mkDiscoveryError :: "DiscoveryCode \<Rightarrow> string \<Rightarrow> DiscoveryError" where
  "mkDiscoveryError c msg = \<lparr>de_code = c, de_message = msg\<rparr>"

definition DiscoveryError_init :: DiscoveryError where
  "DiscoveryError_init = \<lparr>de_code = D_OK, de_message = []\<rparr>"

definition DiscoveryError_isOk :: "DiscoveryError \<Rightarrow> bool" where
  "DiscoveryError_isOk e \<longleftrightarrow> de_code e = D_OK"

datatype ServiceEventType = ADDED | REMOVED | UPDATED

record ServiceEvent =
  ev_type :: ServiceEventType
  ev_endpoint :: ServiceEndpoint

section \<open>The local registry\<close>

record 'cb LocalServiceRegistry =
  lr_services :: "(string \<times> ServiceEndpoint list) list"
  lr_watchers :: "(string \<times> 'cb list) list"
  lr_calls :: "('cb \<times> ServiceEvent) list"

definition LocalServiceRegistry_init :: "'cb LocalServiceRegistry" where
  "LocalServiceRegistry_init = \<lparr>lr_services = [], lr_watchers = [], lr_calls = []\<rparr>"

text \<open>\<^verbatim>\<open>m[key].push_back(value)\<close>: a missing key is first entered with an empty vector.\<close>

definition push_at :: "string \<Rightarrow> 'a \<Rightarrow> (string \<times> 'a list) list \<Rightarrow> (string \<times> 'a list) list" where
  "push_at key x m = AList.update key ((case map_of m key of Some xs \<Rightarrow> xs | None \<Rightarrow> []) @ [x]) m"

definition notify :: "string \<Rightarrow> ServiceEvent \<Rightarrow> (string \<times> 'cb list) list \<Rightarrow> ('cb \<times> ServiceEvent) list" where
  "notify name event watchers =
     (case map_of watchers name of None \<Rightarrow> [] | Some callbacks \<Rightarrow> map (\<lambda>callback. (callback, event)) callbacks)"

text \<open>\<^verbatim>\<open>std::find_if\<close> and \<^verbatim>\<open>erase\<close>: the first endpoint with the instance id, and the others.\<close>

fun take_instance :: "string \<Rightarrow> ServiceEndpoint list \<Rightarrow> (ServiceEndpoint \<times> ServiceEndpoint list) option" where
  "take_instance i [] = None"
| "take_instance i (e # es) =
     (if ep_instance_id e = i then Some (e, es)
      else map_option (\<lambda>(x, es). (x, e # es)) (take_instance i es))"

definition local_registerService ::
  "ServiceEndpoint \<Rightarrow> 'cb LocalServiceRegistry \<Rightarrow> (DiscoveryError + unit) \<times> 'cb LocalServiceRegistry" where
  "local_registerService endpoint r = (
     let r = r\<lparr>lr_services := push_at (ep_service_name endpoint) endpoint (lr_services r)\<rparr>
     in (Inr (), r\<lparr>lr_calls := lr_calls r @
          notify (ep_service_name endpoint) \<lparr>ev_type = ADDED, ev_endpoint = endpoint\<rparr> (lr_watchers r)\<rparr>))"

definition local_deregisterService ::
  "ServiceEndpoint \<Rightarrow> 'cb LocalServiceRegistry \<Rightarrow> (DiscoveryError + unit) \<times> 'cb LocalServiceRegistry" where
  "local_deregisterService endpoint r =
     (case map_of (lr_services r) (ep_service_name endpoint) of
        None \<Rightarrow> (Inl (mkDiscoveryError NOT_FOUND ''Service not found''), r)
      | Some endpoints \<Rightarrow>
          (case take_instance (ep_instance_id endpoint) endpoints of
             None \<Rightarrow> (Inl (mkDiscoveryError NOT_FOUND ''Instance not found''), r)
           | Some (removed, endpoints) \<Rightarrow>
               (let r = r\<lparr>lr_services := AList.update (ep_service_name endpoint) endpoints (lr_services r)\<rparr>
                in (Inr (), r\<lparr>lr_calls := lr_calls r @
                     notify (ep_service_name endpoint) \<lparr>ev_type = REMOVED, ev_endpoint = removed\<rparr> (lr_watchers r)\<rparr>))))"

definition local_discoverService ::
  "string \<Rightarrow> 'cb LocalServiceRegistry \<Rightarrow> (DiscoveryError + ServiceEndpoint list) \<times> 'cb LocalServiceRegistry" where
  "local_discoverService service_name r =
     (case map_of (lr_services r) service_name of None \<Rightarrow> (Inr [], r) | Some endpoints \<Rightarrow> (Inr endpoints, r))"

definition local_watchService ::
  "string \<Rightarrow> 'cb \<Rightarrow> 'cb LocalServiceRegistry \<Rightarrow> (DiscoveryError + unit) \<times> 'cb LocalServiceRegistry" where
  "local_watchService service_name callback r =
     (Inr (), r\<lparr>lr_watchers := push_at service_name callback (lr_watchers r)\<rparr>)"

definition local_unwatchService :: "string \<Rightarrow> 'cb LocalServiceRegistry \<Rightarrow> 'cb LocalServiceRegistry" where
  "local_unwatchService service_name r = r\<lparr>lr_watchers := AList.delete service_name (lr_watchers r)\<rparr>"

section \<open>The asynchronous registry\<close>

text \<open>
  Each coroutine awaits the lock and then runs to its end without another suspension; \<open>lock_result\<close>
  is what the lock answers, and the flag says whether the mutex is held.
\<close>

record 'cb AsyncLocalServiceRegistry =
  ar_locked :: bool
  ar_services :: "(string \<times> ServiceEndpoint list) list"
  ar_watchers :: "(string \<times> 'cb list) list"
  ar_calls :: "('cb \<times> ServiceEvent) list"
  ar_last_error :: DiscoveryError
  ar_last_endpoints :: "ServiceEndpoint list"

definition AsyncLocalServiceRegistry_init :: "'cb AsyncLocalServiceRegistry" where
  "AsyncLocalServiceRegistry_init =
     \<lparr>ar_locked = False, ar_services = [], ar_watchers = [], ar_calls = [], ar_last_error = DiscoveryError_init,
      ar_last_endpoints = []\<rparr>"

definition mutex_lock :: "'cb AsyncLocalServiceRegistry \<Rightarrow> 'cb AsyncLocalServiceRegistry" where
  "mutex_lock r = r\<lparr>ar_locked := True\<rparr>"

definition mutex_unlock :: "'cb AsyncLocalServiceRegistry \<Rightarrow> 'cb AsyncLocalServiceRegistry" where
  "mutex_unlock r = r\<lparr>ar_locked := False\<rparr>"

definition lock_timeout :: DiscoveryError where
  "lock_timeout = mkDiscoveryError LOCK_TIMEOUT ''Lock timeout''"

definition registerServiceAsync ::
  "bool \<Rightarrow> ServiceEndpoint \<Rightarrow> 'cb AsyncLocalServiceRegistry \<Rightarrow> 'cb AsyncLocalServiceRegistry" where
  "registerServiceAsync lock_result endpoint r =
     (if \<not> lock_result then r\<lparr>ar_last_error := lock_timeout\<rparr>
      else let r = mutex_lock r;
               r = r\<lparr>ar_services := push_at (ep_service_name endpoint) endpoint (ar_services r)\<rparr>;
               r = r\<lparr>ar_calls := ar_calls r @
                  notify (ep_service_name endpoint) \<lparr>ev_type = ADDED, ev_endpoint = endpoint\<rparr> (ar_watchers r)\<rparr>
           in mutex_unlock (r\<lparr>ar_last_error := DiscoveryError_init\<rparr>))"

definition deregisterServiceAsync ::
  "bool \<Rightarrow> ServiceEndpoint \<Rightarrow> 'cb AsyncLocalServiceRegistry \<Rightarrow> 'cb AsyncLocalServiceRegistry" where
  "deregisterServiceAsync lock_result endpoint r =
     (if \<not> lock_result then r\<lparr>ar_last_error := lock_timeout\<rparr>
      else let r = mutex_lock r
           in case map_of (ar_services r) (ep_service_name endpoint) of
             None \<Rightarrow> mutex_unlock (r\<lparr>ar_last_error := mkDiscoveryError NOT_FOUND ''Service not found''\<rparr>)
           | Some endpoints \<Rightarrow>
               (case take_instance (ep_instance_id endpoint) endpoints of
                  None \<Rightarrow> mutex_unlock (r\<lparr>ar_last_error := mkDiscoveryError NOT_FOUND ''Instance not found''\<rparr>)
                | Some (removed, endpoints) \<Rightarrow>
                    (let r = r\<lparr>ar_services := AList.update (ep_service_name endpoint) endpoints (ar_services r)\<rparr>;
                         r = r\<lparr>ar_calls := ar_calls r @
                           notify (ep_service_name endpoint) \<lparr>ev_type = REMOVED, ev_endpoint = removed\<rparr> (ar_watchers r)\<rparr>
                     in mutex_unlock (r\<lparr>ar_last_error := DiscoveryError_init\<rparr>))))"

definition discoverServiceAsync :: "bool \<Rightarrow> string \<Rightarrow> 'cb AsyncLocalServiceRegistry \<Rightarrow> 'cb AsyncLocalServiceRegistry" where
  "discoverServiceAsync lock_result service_name r =
     (if \<not> lock_result then r\<lparr>ar_last_error := lock_timeout, ar_last_endpoints := []\<rparr>
      else let r = mutex_lock r;
               r = (case map_of (ar_services r) service_name of
                      None \<Rightarrow> r\<lparr>ar_last_endpoints := []\<rparr>
                    | Some endpoints \<Rightarrow> r\<lparr>ar_last_endpoints := endpoints\<rparr>)
           in mutex_unlock (r\<lparr>ar_last_error := DiscoveryError_init\<rparr>))"

definition watchServiceAsync ::
  "bool \<Rightarrow> string \<Rightarrow> 'cb \<Rightarrow> 'cb AsyncLocalServiceRegistry \<Rightarrow> 'cb AsyncLocalServiceRegistry" where
  "watchServiceAsync lock_result service_name callback r =
     (if \<not> lock_result then r\<lparr>ar_last_error := lock_timeout\<rparr>
      else let r = mutex_lock r;
               r = r\<lparr>ar_watchers := push_at service_name callback (ar_watchers r)\<rparr>
           in mutex_unlock (r\<lparr>ar_last_error := DiscoveryError_init\<rparr>))"

definition unwatchServiceAsync :: "bool \<Rightarrow> string \<Rightarrow> 'cb AsyncLocalServiceRegistry \<Rightarrow> 'cb AsyncLocalServiceRegistry" where
  "unwatchServiceAsync lock_result service_name r =
     (if \<not> lock_result then r\<lparr>ar_last_error := lock_timeout\<rparr>
      else let r = mutex_lock r;
               r = r\<lparr>ar_watchers := AList.delete service_name (ar_watchers r)\<rparr>
           in mutex_unlock (r\<lparr>ar_last_error := DiscoveryError_init\<rparr>))"

section \<open>The discovery client\<close>

text \<open>
  A class template over the registry and the selector: \<open>discover\<close>, \<open>watch\<close> and \<open>unwatch\<close> are the
  registry's operations, \<open>mk_selector\<close> and \<open>select\<close> the selector's. Selectors may be random: \<open>seed\<close> and \<open>draw\<close>
  are what constructing and asking one takes from outside on this request, and nothing is assumed of them.
\<close>

record ('r, 'sel) ServiceDiscoveryClient =
  dc_registry :: 'r
  dc_selector :: 'sel

definition getServiceEndpoint ::
  "(string \<Rightarrow> 'r \<Rightarrow> (DiscoveryError + ServiceEndpoint list) \<times> 'r) \<Rightarrow> ('seed \<Rightarrow> ServiceEndpoint list \<Rightarrow> 'sel) \<Rightarrow>
   ('draw \<Rightarrow> 'sel \<Rightarrow> ServiceEndpoint option \<times> 'sel) \<Rightarrow> 'seed \<Rightarrow> 'draw \<Rightarrow> string \<Rightarrow> ('r, 'sel) ServiceDiscoveryClient \<Rightarrow>
   (DiscoveryError + ServiceEndpoint) \<times> ('r, 'sel) ServiceDiscoveryClient" where
  "getServiceEndpoint discover mk_selector select seed draw service_name c = (
     let (result, registry) = discover service_name (dc_registry c);
         c = c\<lparr>dc_registry := registry\<rparr>
     in case result of
          Inl e \<Rightarrow> (Inl e, c)
        | Inr endpoints \<Rightarrow>
            (if endpoints = [] then (Inl (mkDiscoveryError NOT_FOUND ''No available instance''), c)
             else let c = c\<lparr>dc_selector := mk_selector seed endpoints\<rparr>;
                      (selected, selector) = select draw (dc_selector c);
                      c = c\<lparr>dc_selector := selector\<rparr>
                  in case selected of
                       None \<Rightarrow> (Inl (mkDiscoveryError NOT_FOUND ''No available instance''), c)
                     | Some e \<Rightarrow> (Inr e, c)))"

text \<open>A client asked for a service again and again, with what each request takes from outside.\<close>

fun endpoint_requests ::
  "(string \<Rightarrow> 'r \<Rightarrow> (DiscoveryError + ServiceEndpoint list) \<times> 'r) \<Rightarrow> ('seed \<Rightarrow> ServiceEndpoint list \<Rightarrow> 'sel) \<Rightarrow>
   ('draw \<Rightarrow> 'sel \<Rightarrow> ServiceEndpoint option \<times> 'sel) \<Rightarrow> string \<Rightarrow> ('seed \<times> 'draw) list \<Rightarrow> ('r, 'sel) ServiceDiscoveryClient \<Rightarrow>
   (DiscoveryError + ServiceEndpoint) list" where
  "endpoint_requests discover mk_selector select name [] c = []"
| "endpoint_requests discover mk_selector select name ((seed, draw) # rnds) c =
     (let (result, c) = getServiceEndpoint discover mk_selector select seed draw name c
      in result # endpoint_requests discover mk_selector select name rnds c)"

definition client_watch ::
  "(string \<Rightarrow> 'cb \<Rightarrow> 'r \<Rightarrow> (DiscoveryError + unit) \<times> 'r) \<Rightarrow> string \<Rightarrow> 'cb \<Rightarrow> ('r, 'sel) ServiceDiscoveryClient \<Rightarrow>
   (DiscoveryError + unit) \<times> ('r, 'sel) ServiceDiscoveryClient" where
  "client_watch watch service_name callback c = (
     let (result, registry) = watch service_name callback (dc_registry c)
     in (result, c\<lparr>dc_registry := registry\<rparr>))"

definition client_unwatch ::
  "(string \<Rightarrow> 'r \<Rightarrow> 'r) \<Rightarrow> string \<Rightarrow> ('r, 'sel) ServiceDiscoveryClient \<Rightarrow> ('r, 'sel) ServiceDiscoveryClient" where
  "client_unwatch unwatch service_name c = c\<lparr>dc_registry := unwatch service_name (dc_registry c)\<rparr>"

section \<open>The registry interface\<close>

text \<open>
  What the \<^verbatim>\<open>ServiceRegistry\<close> concept stands for: the instances of every service, in the order of
  their registration, the watchers of every service, and the calls that were made to watchers.
\<close>

locale service_registry =
  fixes instances :: "'r \<Rightarrow> string \<Rightarrow> ServiceEndpoint list"
    and watching :: "'r \<Rightarrow> string \<Rightarrow> 'cb list"
    and calls :: "'r \<Rightarrow> ('cb \<times> ServiceEvent) list"
    and register :: "ServiceEndpoint \<Rightarrow> 'r \<Rightarrow> (DiscoveryError + unit) \<times> 'r"
    and deregister :: "ServiceEndpoint \<Rightarrow> 'r \<Rightarrow> (DiscoveryError + unit) \<times> 'r"
    and discover :: "string \<Rightarrow> 'r \<Rightarrow> (DiscoveryError + ServiceEndpoint list) \<times> 'r"
    and watch :: "string \<Rightarrow> 'cb \<Rightarrow> 'r \<Rightarrow> (DiscoveryError + unit) \<times> 'r"
    and unwatch :: "string \<Rightarrow> 'r \<Rightarrow> 'r"
  assumes register_result: "fst (register e r) = Inr ()"
    and register_instances: "instances (snd (register e r)) =
      (instances r)(ep_service_name e := instances r (ep_service_name e) @ [e])"
    and register_watching: "watching (snd (register e r)) = watching r"
    and register_calls: "calls (snd (register e r)) =
      calls r @ map (\<lambda>cb. (cb, \<lparr>ev_type = ADDED, ev_endpoint = e\<rparr>)) (watching r (ep_service_name e))"
    and deregister_missing: "take_instance (ep_instance_id e) (instances r (ep_service_name e)) = None \<Longrightarrow>
      (\<exists>err. fst (deregister e r) = Inl err \<and> de_code err = NOT_FOUND) \<and>
      instances (snd (deregister e r)) = instances r \<and> watching (snd (deregister e r)) = watching r \<and>
      calls (snd (deregister e r)) = calls r"
    and deregister_found: "take_instance (ep_instance_id e) (instances r (ep_service_name e)) = Some (removed, es) \<Longrightarrow>
      fst (deregister e r) = Inr () \<and> instances (snd (deregister e r)) = (instances r)(ep_service_name e := es) \<and>
      watching (snd (deregister e r)) = watching r \<and>
      calls (snd (deregister e r)) =
        calls r @ map (\<lambda>cb. (cb, \<lparr>ev_type = REMOVED, ev_endpoint = removed\<rparr>)) (watching r (ep_service_name e))"
    and discover_result: "fst (discover name r) = Inr (instances r name)"
    and discover_state: "instances (snd (discover name r)) = instances r \<and> watching (snd (discover name r)) = watching r \<and>
      calls (snd (discover name r)) = calls r"
    and watch_law: "fst (watch name cb r) = Inr () \<and> instances (snd (watch name cb r)) = instances r \<and>
      watching (snd (watch name cb r)) = (watching r)(name := watching r name @ [cb]) \<and> calls (snd (watch name cb r)) = calls r"
    and unwatch_law: "instances (unwatch name r) = instances r \<and> watching (unwatch name r) = (watching r)(name := []) \<and>
      calls (unwatch name r) = calls r"
begin

lemma register_all:
  "instances (foldl (\<lambda>r e. snd (register e r)) r es) name = instances r name @ filter (\<lambda>e. ep_service_name e = name) es"
  by (induction es arbitrary: r) (auto simp: register_instances)

text \<open>A fresh instance can be taken back, and its watchers hear of both.\<close>

lemma register_deregister:
  assumes "\<forall>x \<in> set (instances r (ep_service_name e)). ep_instance_id x \<noteq> ep_instance_id e"
  shows "fst (deregister e (snd (register e r))) = Inr ()"
    and "instances (snd (deregister e (snd (register e r)))) = instances r"
    and "calls (snd (deregister e (snd (register e r)))) =
      calls r @ map (\<lambda>cb. (cb, \<lparr>ev_type = ADDED, ev_endpoint = e\<rparr>)) (watching r (ep_service_name e)) @
        map (\<lambda>cb. (cb, \<lparr>ev_type = REMOVED, ev_endpoint = e\<rparr>)) (watching r (ep_service_name e))"
proof -
  have "take_instance (ep_instance_id e) (es @ [e]) = Some (e, es)" if "\<forall>x \<in> set es. ep_instance_id x \<noteq> ep_instance_id e" for es
    using that by (induction es) auto
  then have "take_instance (ep_instance_id e) (instances (snd (register e r)) (ep_service_name e)) =
      Some (e, instances r (ep_service_name e))"
    using assms by (simp add: register_instances)
  note d = deregister_found [OF this]
  show "fst (deregister e (snd (register e r))) = Inr ()" using d by blast
  show "instances (snd (deregister e (snd (register e r)))) = instances r" using d by (simp add: register_instances)
  show "calls (snd (deregister e (snd (register e r)))) =
      calls r @ map (\<lambda>cb. (cb, \<lparr>ev_type = ADDED, ev_endpoint = e\<rparr>)) (watching r (ep_service_name e)) @
        map (\<lambda>cb. (cb, \<lparr>ev_type = REMOVED, ev_endpoint = e\<rparr>)) (watching r (ep_service_name e))"
    using d by (simp add: register_calls register_watching)
qed

lemma unwatch_silent:
  "calls (snd (register e (unwatch (ep_service_name e) r))) = calls r"
  by (simp add: register_calls unwatch_law)

text \<open>The discovery client on any registry.\<close>

lemma endpoint_found:
  assumes "\<And>seed draw es. es \<noteq> [] \<Longrightarrow> \<exists>e \<in> set es. fst (select draw (mk_selector seed es)) = Some e"
    and "instances (dc_registry c) name \<noteq> []"
  shows "\<exists>e \<in> set (instances (dc_registry c) name). fst (getServiceEndpoint discover mk_selector select seed draw name c) = Inr e"
  using assms(1) [OF assms(2), of draw seed] assms(2) discover_result [of name "dc_registry c"]
  by (auto simp: getServiceEndpoint_def split: prod.splits)

lemma endpoint_missing:
  "instances (dc_registry c) name = [] \<Longrightarrow>
    \<exists>err. fst (getServiceEndpoint discover mk_selector select seed draw name c) = Inl err \<and> de_code err = NOT_FOUND"
  using discover_result [of name "dc_registry c"]
  by (auto simp: getServiceEndpoint_def mkDiscoveryError_def split: prod.splits)

lemma endpoint_keeps_registry:
  "instances (dc_registry (snd (getServiceEndpoint discover mk_selector select seed draw name c))) = instances (dc_registry c)"
  using discover_state [of name "dc_registry c"] discover_result [of name "dc_registry c"]
  by (auto simp: getServiceEndpoint_def Let_def split: prod.splits option.splits)

text \<open>The choice depends on the instances and on what this request draws, not on the requests made before.\<close>

lemma endpoint_stateless:
  assumes "instances (dc_registry c') name = instances (dc_registry c) name"
  shows "fst (getServiceEndpoint discover mk_selector select seed draw name c') = fst (getServiceEndpoint discover mk_selector select seed draw name c)"
  using assms discover_result [of name "dc_registry c"] discover_result [of name "dc_registry c'"]
  by (auto simp: getServiceEndpoint_def Let_def split: prod.splits option.splits)

lemma endpoint_first:
  assumes "\<And>seed draw es. es \<noteq> [] \<Longrightarrow> fst (select draw (mk_selector seed es)) = Some (hd es)"
    and "instances (dc_registry c) name \<noteq> []"
  shows "fst (getServiceEndpoint discover mk_selector select seed draw name c) = Inr (hd (instances (dc_registry c) name))"
  using assms(1) [OF assms(2), of draw seed] assms(2) discover_result [of name "dc_registry c"]
  by (auto simp: getServiceEndpoint_def split: prod.splits)

lemma requests_independent:
  assumes "instances (dc_registry c') name = instances (dc_registry c) name"
  shows "endpoint_requests discover mk_selector select name rnds c' =
    map (\<lambda>(seed, draw). fst (getServiceEndpoint discover mk_selector select seed draw name c)) rnds"
  using assms
proof (induction rnds arbitrary: c')
  case (Cons rnd rnds)
  obtain seed draw where rnd: "rnd = (seed, draw)" by fastforce
  obtain r c1 where g: "getServiceEndpoint discover mk_selector select seed draw name c' = (r, c1)" by fastforce
  then have "r = fst (getServiceEndpoint discover mk_selector select seed draw name c)"
    using endpoint_stateless [OF Cons.prems, of mk_selector select seed draw] by simp
  moreover have "instances (dc_registry c1) name = instances (dc_registry c) name"
    using endpoint_keeps_registry [of mk_selector select seed draw name c'] g Cons.prems by simp
  ultimately show ?case using Cons.IH [of c1] g rnd by simp
qed simp

end

section \<open>Both registries keep the interface\<close>

definition local_instances :: "'cb LocalServiceRegistry \<Rightarrow> string \<Rightarrow> ServiceEndpoint list" where
  "local_instances r name = (case map_of (lr_services r) name of None \<Rightarrow> [] | Some es \<Rightarrow> es)"

definition local_watching :: "'cb LocalServiceRegistry \<Rightarrow> string \<Rightarrow> 'cb list" where
  "local_watching r name = (case map_of (lr_watchers r) name of None \<Rightarrow> [] | Some cbs \<Rightarrow> cbs)"

lemma map_of_push: "map_of (push_at key x m) = (map_of m)(key \<mapsto> (case map_of m key of Some xs \<Rightarrow> xs | None \<Rightarrow> []) @ [x])"
  by (simp add: push_at_def update_conv')

lemma map_of_delete: "map_of (AList.delete key m) = (map_of m)(key := None)"
  by (rule delete_conv')

lemma notify_eq: "notify name event watchers =
    map (\<lambda>cb. (cb, event)) (case map_of watchers name of None \<Rightarrow> [] | Some cbs \<Rightarrow> cbs)"
  by (simp add: notify_def split: option.split)

lemmas registry_simps = map_of_push map_of_delete notify_eq update_conv'

lemmas local_defs = local_instances_def local_watching_def local_registerService_def local_deregisterService_def
  local_discoverService_def local_watchService_def local_unwatchService_def

interpretation local_registry: service_registry local_instances local_watching lr_calls
    local_registerService local_deregisterService local_discoverService local_watchService local_unwatchService
  by unfold_locales
     (auto simp: fun_eq_iff local_defs registry_simps mkDiscoveryError_def Let_def split: option.splits)

text \<open>
  The asynchronous registry, with the lock granted: the result of an operation is what
  \<^verbatim>\<open>lastError\<close> and \<^verbatim>\<open>lastEndpoints\<close> say after it.
\<close>

definition async_result :: "'a \<Rightarrow> 'cb AsyncLocalServiceRegistry \<Rightarrow> DiscoveryError + 'a" where
  "async_result x r = (if DiscoveryError_isOk (ar_last_error r) then Inr x else Inl (ar_last_error r))"

definition async_op ::
  "('cb AsyncLocalServiceRegistry \<Rightarrow> 'cb AsyncLocalServiceRegistry) \<Rightarrow> 'cb AsyncLocalServiceRegistry \<Rightarrow>
   (DiscoveryError + unit) \<times> 'cb AsyncLocalServiceRegistry" where
  "async_op f r = (async_result () (f r), f r)"

definition async_discover ::
  "string \<Rightarrow> 'cb AsyncLocalServiceRegistry \<Rightarrow> (DiscoveryError + ServiceEndpoint list) \<times> 'cb AsyncLocalServiceRegistry" where
  "async_discover name r = (let r = discoverServiceAsync True name r in (async_result (ar_last_endpoints r) r, r))"

text \<open>What the asynchronous registry holds, as a local registry.\<close>

definition as_local :: "'cb AsyncLocalServiceRegistry \<Rightarrow> 'cb LocalServiceRegistry" where
  "as_local r = \<lparr>lr_services = ar_services r, lr_watchers = ar_watchers r, lr_calls = ar_calls r\<rparr>"

lemmas async_defs = registerServiceAsync_def deregisterServiceAsync_def discoverServiceAsync_def watchServiceAsync_def
  unwatchServiceAsync_def mutex_lock_def mutex_unlock_def

lemma async_refines:
  "as_local (registerServiceAsync True e r) = snd (local_registerService e (as_local r))"
  "as_local (deregisterServiceAsync True e r) = snd (local_deregisterService e (as_local r))"
  "as_local (discoverServiceAsync True name r) = as_local r"
  "as_local (watchServiceAsync True name cb r) = snd (local_watchService name cb (as_local r))"
  "as_local (unwatchServiceAsync True name r) = local_unwatchService name (as_local r)"
  by (auto simp: async_defs local_defs as_local_def Let_def split: option.splits)

lemma async_results:
  "async_result () (registerServiceAsync True e r) = fst (local_registerService e (as_local r))"
  "async_result () (deregisterServiceAsync True e r) = fst (local_deregisterService e (as_local r))"
  "async_result (ar_last_endpoints (discoverServiceAsync True name r)) (discoverServiceAsync True name r) =
    fst (local_discoverService name (as_local r))"
  "async_result () (watchServiceAsync True name cb r) = fst (local_watchService name cb (as_local r))"
  by (auto simp: async_defs local_defs as_local_def async_result_def DiscoveryError_isOk_def DiscoveryError_init_def
      mkDiscoveryError_def Let_def split: option.splits)

interpretation async_registry: service_registry "\<lambda>r. local_instances (as_local r)" "\<lambda>r. local_watching (as_local r)" ar_calls
    "\<lambda>e. async_op (registerServiceAsync True e)" "\<lambda>e. async_op (deregisterServiceAsync True e)" async_discover
    "\<lambda>name cb. async_op (watchServiceAsync True name cb)" "unwatchServiceAsync True"
proof -
  have calls: "ar_calls r = lr_calls (as_local r)" for r :: "'cb AsyncLocalServiceRegistry" by (simp add: as_local_def)
  have disc: "snd (local_discoverService name r) = r" for name and r :: "'cb LocalServiceRegistry"
    by (simp add: local_discoverService_def split: option.split)
  show "service_registry (\<lambda>r. local_instances (as_local r)) (\<lambda>r. local_watching (as_local r)) ar_calls
    (\<lambda>e. async_op (registerServiceAsync True e)) (\<lambda>e. async_op (deregisterServiceAsync True e)) async_discover
    (\<lambda>name cb. async_op (watchServiceAsync True name cb)) (unwatchServiceAsync True)"
    by unfold_locales
       (simp_all add: async_op_def async_discover_def Let_def calls async_refines async_results
         local_registry.register_result local_registry.register_instances local_registry.register_watching
         local_registry.register_calls local_registry.deregister_missing local_registry.deregister_found
         local_registry.discover_result local_registry.watch_law local_registry.unwatch_law disc)
qed

section \<open>Histories of registry operations\<close>

datatype 'cb registry_op = Register ServiceEndpoint | Deregister ServiceEndpoint | Discover string | Watch string 'cb | Unwatch string

fun local_step :: "'cb registry_op \<Rightarrow> 'cb LocalServiceRegistry \<Rightarrow> 'cb LocalServiceRegistry" where
  "local_step (Register e) r = snd (local_registerService e r)"
| "local_step (Deregister e) r = snd (local_deregisterService e r)"
| "local_step (Discover name) r = snd (local_discoverService name r)"
| "local_step (Watch name cb) r = snd (local_watchService name cb r)"
| "local_step (Unwatch name) r = local_unwatchService name r"

fun async_step :: "bool \<Rightarrow> 'cb registry_op \<Rightarrow> 'cb AsyncLocalServiceRegistry \<Rightarrow> 'cb AsyncLocalServiceRegistry" where
  "async_step lock (Register e) r = registerServiceAsync lock e r"
| "async_step lock (Deregister e) r = deregisterServiceAsync lock e r"
| "async_step lock (Discover name) r = discoverServiceAsync lock name r"
| "async_step lock (Watch name cb) r = watchServiceAsync lock name cb r"
| "async_step lock (Unwatch name) r = unwatchServiceAsync lock name r"

lemma async_step_refines:
  "as_local (async_step lock op r) = (if lock then local_step op (as_local r) else as_local r)"
proof (cases lock)
  case True
  then show ?thesis
    by (cases op) (simp_all add: async_refines local_discoverService_def split: option.split)
next
  case False
  then show ?thesis by (cases op) (simp_all add: async_defs as_local_def)
qed

lemma async_step_unlocked: "\<not> ar_locked r \<Longrightarrow> \<not> ar_locked (async_step lock op r)"
  by (cases op; cases lock) (auto simp: async_defs Let_def split: option.splits)

lemma async_step_timeout: "de_code (ar_last_error (async_step lock op r)) = LOCK_TIMEOUT \<longleftrightarrow> \<not> lock"
  by (cases op; cases lock) (auto simp: async_defs lock_timeout_def mkDiscoveryError_def DiscoveryError_init_def Let_def split: option.splits)

lemma async_history:
  "as_local (foldl (\<lambda>r (lock, op). async_step lock op r) r ops) =
    foldl (\<lambda>r op. local_step op r) (as_local r) (map snd (filter fst ops))"
proof (induction ops arbitrary: r)
  case (Cons x ops)
  then show ?case by (cases x) (simp add: async_step_refines)
qed simp

lemma async_history_unlocked:
  "\<not> ar_locked r \<Longrightarrow> \<not> ar_locked (foldl (\<lambda>r (lock, op). async_step lock op r) r ops)"
proof (induction ops arbitrary: r)
  case (Cons x ops)
  obtain lock op where "x = (lock, op)" by fastforce
  then show ?case using Cons.IH [OF async_step_unlocked [OF Cons.prems]] by simp
qed simp

section \<open>Addresses\<close>

lemma last_colon:
  assumes "h1 @ '':'' @ p1 = h2 @ '':'' @ p2" "CHR '':'' \<notin> set p1" "CHR '':'' \<notin> set p2"
  shows "h1 = h2 \<and> p1 = p2"
proof -
  have tail: "takeWhile (\<lambda>c. c \<noteq> CHR '':'') (rev (h @ '':'' @ p)) = rev p" if "CHR '':'' \<notin> set p" for h p
    using that by (simp, subst takeWhile_append2) auto
  have "rev p1 = rev p2" using tail [OF assms(2), of h1] tail [OF assms(3), of h2] unfolding assms(1) by (rule trans [OF sym])
  then show ?thesis using assms(1) by simp
qed

section \<open>Properties\<close>

text \<open>The local registry finds what was registered: after any registrations, discovering a service gives
  exactly the endpoints registered under its name, in the order of their registration, and an empty
  list, not an error, for a service nobody registered.\<close>

lemma discovery_complete:
  "fst (local_discoverService name (foldl (\<lambda>r e. snd (local_registerService e r)) LocalServiceRegistry_init es)) =
    Inr (filter (\<lambda>e. ep_service_name e = name) es)"
  unfolding local_registry.discover_result local_registry.register_all
  by (simp add: local_instances_def LocalServiceRegistry_init_def)

text \<open>C39. Registering an instance and taking it back restores the registry: if the instance id is new under
  the service, the registry finds the same endpoints as before for every service, and every watcher
  of the service has been told of the addition and then of the removal, in the order of watching.\<close>

theorem register_deregister_roundtrip:
  assumes "\<forall>x \<in> set (local_instances r (ep_service_name e)). ep_instance_id x \<noteq> ep_instance_id e"
  shows "fst (local_deregisterService e (snd (local_registerService e r))) = Inr () \<and>
    local_instances (snd (local_deregisterService e (snd (local_registerService e r)))) = local_instances r \<and>
    lr_calls (snd (local_deregisterService e (snd (local_registerService e r)))) =
      lr_calls r @ map (\<lambda>cb. (cb, \<lparr>ev_type = ADDED, ev_endpoint = e\<rparr>)) (local_watching r (ep_service_name e)) @
        map (\<lambda>cb. (cb, \<lparr>ev_type = REMOVED, ev_endpoint = e\<rparr>)) (local_watching r (ep_service_name e))"
  using local_registry.register_deregister [OF assms] by blast

definition test_endpoint :: ServiceEndpoint where
  "test_endpoint = \<lparr>ep_host = ''h'', ep_port = 80, ep_service_name = ''s'', ep_instance_id = ''i'', ep_weight = 100\<rparr>"

theorem register_deregister_roundtrip_witness:
  "lr_calls (snd (local_deregisterService test_endpoint (snd (local_registerService test_endpoint
      (snd (local_watchService ''s'' (7 :: nat) LocalServiceRegistry_init)))))) =
    [(7, \<lparr>ev_type = ADDED, ev_endpoint = test_endpoint\<rparr>), (7, \<lparr>ev_type = REMOVED, ev_endpoint = test_endpoint\<rparr>)]"
proof -
  let ?r = "snd (local_watchService ''s'' (7 :: nat) LocalServiceRegistry_init)"
  have r: "local_instances ?r ''s'' = []" "local_watching ?r ''s'' = [7]" "lr_calls ?r = []"
    by (simp_all add: local_defs LocalServiceRegistry_init_def push_at_def)
  then have "\<forall>x \<in> set (local_instances ?r (ep_service_name test_endpoint)). ep_instance_id x \<noteq> ep_instance_id test_endpoint"
    by (simp add: test_endpoint_def)
  from register_deregister_roundtrip [OF this] r show ?thesis by (simp add: test_endpoint_def)
qed

text \<open>The discovery client returns a registered instance: whenever the registry has an instance of the
  service, and the selector picks one of the nodes it was given, the client returns one of the
  registered instances, and otherwise NOT_FOUND; asking does not change what the registry finds.\<close>

lemma discovery_client_selects:
  assumes "\<And>seed draw es. es \<noteq> [] \<Longrightarrow> \<exists>e \<in> set es. fst (select draw (mk_selector seed es)) = Some e"
  shows "(case fst (getServiceEndpoint local_discoverService mk_selector select seed draw name c) of
      Inr e \<Rightarrow> e \<in> set (local_instances (dc_registry c) name)
    | Inl err \<Rightarrow> local_instances (dc_registry c) name = [] \<and> de_code err = NOT_FOUND) \<and>
    local_instances (dc_registry (snd (getServiceEndpoint local_discoverService mk_selector select seed draw name c))) =
      local_instances (dc_registry c)"
proof (cases "local_instances (dc_registry c) name = []")
  case True
  then show ?thesis
    using local_registry.endpoint_missing [of c name mk_selector select seed draw]
      local_registry.endpoint_keeps_registry [of mk_selector select seed draw name c]
    by auto
next
  case False
  then show ?thesis
    using local_registry.endpoint_found [of select mk_selector c name seed draw] assms
      local_registry.endpoint_keeps_registry [of mk_selector select seed draw name c]
    by fastforce
qed

text \<open>
  Two balancers as the documents describe them: round robin keeps the nodes and the position of the
  next one and draws nothing; the random one keeps the nodes and draws a number on every choice.
\<close>

definition rr_make :: "unit \<Rightarrow> ServiceEndpoint list \<Rightarrow> ServiceEndpoint list \<times> nat" where
  "rr_make seed es = (es, 0)"

definition rr_select :: "unit \<Rightarrow> ServiceEndpoint list \<times> nat \<Rightarrow> ServiceEndpoint option \<times> (ServiceEndpoint list \<times> nat)" where
  "rr_select draw s = (case s of (es, k) \<Rightarrow> if es = [] then (None, s) else (Some (es ! (k mod length es)), (es, Suc k)))"

definition random_make :: "unit \<Rightarrow> ServiceEndpoint list \<Rightarrow> ServiceEndpoint list" where
  "random_make seed es = es"

definition random_select :: "nat \<Rightarrow> ServiceEndpoint list \<Rightarrow> ServiceEndpoint option \<times> ServiceEndpoint list" where
  "random_select draw es = (if es = [] then None else Some (es ! (draw mod length es)), es)"

lemma rr_first: "es \<noteq> [] \<Longrightarrow> fst (rr_select draw (rr_make seed es)) = Some (hd es)"
  by (simp add: rr_select_def rr_make_def hd_conv_nth)

text \<open>Used on its own, the round-robin balancer visits its nodes in turn.\<close>

lemma rr_rotates: "es \<noteq> [] \<Longrightarrow> fst (rr_select () (((snd \<circ> rr_select ()) ^^ n) (rr_make () es))) = Some (es ! (n mod length es))"
proof -
  assume es: "es \<noteq> []"
  have "((snd \<circ> rr_select ()) ^^ n) (rr_make () es) = (es, n)"
    using es by (induction n) (simp_all add: rr_make_def rr_select_def)
  then show ?thesis using es by (simp add: rr_select_def)
qed

text \<open>Three instances of one service, and a client that is asked for it three times with each balancer.\<close>

definition inst :: "string \<Rightarrow> ServiceEndpoint" where
  "inst i = \<lparr>ep_host = ''h'', ep_port = 80, ep_service_name = ''s'', ep_instance_id = i, ep_weight = 100\<rparr>"

definition three_instances :: "nat LocalServiceRegistry" where
  "three_instances = foldl (\<lambda>r i. snd (local_registerService (inst i) r)) LocalServiceRegistry_init [''1'', ''2'', ''3'']"

lemma three_instances_found: "local_instances three_instances ''s'' = [inst ''1'', inst ''2'', inst ''3'']"
  by code_simp

lemma random_client_varies:
  "endpoint_requests local_discoverService random_make random_select ''s'' [((), 4), ((), 0), ((), 2)]
      \<lparr>dc_registry = three_instances, dc_selector = []\<rparr> = [Inr (inst ''2''), Inr (inst ''1''), Inr (inst ''3'')]"
  by code_simp

text \<open>C40. The discovery client builds a new selector for every request. So whatever selector is used, also a
  random one, each request of any sequence of requests is answered as if it were the first: the answer
  depends on the registered instances and on what this request itself draws, and the state of the
  selector is never carried over. In particular, with a selector whose first choice is the first of the
  nodes it is given, as the documents say of the round-robin selector, every request returns the first
  registered instance, where the documents promise the instances in turn.\<close>

theorem discovery_client_repeats:
  "endpoint_requests local_discoverService mk_selector select name rnds c =
     map (\<lambda>(seed, draw). fst (getServiceEndpoint local_discoverService mk_selector select seed draw name c)) rnds \<and>
   ((\<forall>seed draw es. es \<noteq> [] \<longrightarrow> fst (select draw (mk_selector seed es)) = Some (hd es)) \<and>
      local_instances (dc_registry c) name \<noteq> [] \<longrightarrow>
    endpoint_requests local_discoverService mk_selector select name rnds c =
      replicate (length rnds) (Inr (hd (local_instances (dc_registry c) name))))"
proof -
  note all = local_registry.requests_independent [OF refl, of mk_selector select name rnds c]
  have "endpoint_requests local_discoverService mk_selector select name rnds c =
      replicate (length rnds) (Inr (hd (local_instances (dc_registry c) name)))"
    if "\<forall>seed draw es. es \<noteq> [] \<longrightarrow> fst (select draw (mk_selector seed es)) = Some (hd es)"
      "local_instances (dc_registry c) name \<noteq> []"
    unfolding all using that local_registry.endpoint_first [of select mk_selector c name]
    by (auto simp: map_replicate_const [symmetric] intro!: map_cong)
  then show ?thesis using all by blast
qed

theorem discovery_client_repeats_witness:
  "endpoint_requests local_discoverService rr_make rr_select ''s'' [((), ()), ((), ()), ((), ())]
      \<lparr>dc_registry = three_instances, dc_selector = ([], 0)\<rparr> = [Inr (inst ''1''), Inr (inst ''1''), Inr (inst ''1'')]"
  using conjunct2 [OF discovery_client_repeats [of rr_make rr_select "''s''" "[((), ()), ((), ()), ((), ())]"
      "\<lparr>dc_registry = three_instances, dc_selector = ([], 0)\<rparr>"]] rr_first
  by (simp add: three_instances_found del: endpoint_requests.simps)

text \<open>C26. The asynchronous registry refines the local one. After any sequence of operations, some of which do
  not get the lock, its services, watchers and watcher calls are those of a local registry on which
  exactly the operations that got the lock were performed, in that order; the mutex is free again
  after every operation, on its error branches too; and the last error is a lock timeout exactly
  when the last operation did not get the lock.\<close>

theorem async_registry_refines:
  "let r = foldl (\<lambda>r (lock, op). async_step lock op r) AsyncLocalServiceRegistry_init (ops @ [(lock, op)])
   in as_local r = foldl (\<lambda>r op. local_step op r) LocalServiceRegistry_init (map snd (filter fst (ops @ [(lock, op)]))) \<and>
     \<not> ar_locked r \<and> (de_code (ar_last_error r) = LOCK_TIMEOUT \<longleftrightarrow> \<not> lock)"
  using async_history [of AsyncLocalServiceRegistry_init "ops @ [(lock, op)]"]
    async_history_unlocked [of AsyncLocalServiceRegistry_init "ops @ [(lock, op)]"]
  by (simp add: Let_def async_step_timeout AsyncLocalServiceRegistry_init_def LocalServiceRegistry_init_def as_local_def)

text \<open>The results agree as well: with the lock granted, what the asynchronous registry reports through its
  last error and its last endpoints is what the local operation returns.\<close>

lemma async_registry_results:
  "async_result () (registerServiceAsync True e r) = fst (local_registerService e (as_local r)) \<and>
   async_result () (deregisterServiceAsync True e r) = fst (local_deregisterService e (as_local r)) \<and>
   async_result (ar_last_endpoints (discoverServiceAsync True name r)) (discoverServiceAsync True name r) =
     fst (local_discoverService name (as_local r)) \<and>
   async_result () (watchServiceAsync True name cb r) = fst (local_watchService name cb (as_local r))"
  by (intro conjI async_results)

text \<open>An address names one endpoint: two endpoints with the same address string have the same host and
  the same port, also when hosts contain colons.\<close>

lemma address_injective:
  assumes "address e1 = address e2"
  shows "ep_host e1 = ep_host e2 \<and> ep_port e1 = ep_port e2"
proof -
  have "ep_host e1 = ep_host e2 \<and> to_string (unat (ep_port e1)) = to_string (unat (ep_port e2))"
    using assms by (intro last_colon) (simp_all add: address_def to_string_no_colon)
  then show ?thesis using to_string_value by (metis word_unat_eq_iff)
qed

end
