(* ===== verification/Rpc_Raw.thy ===== *)
theory Rpc_Raw
  imports Rpc_Transport
begin

text \<open>
  Reading and writing below the level of messages: \<^verbatim>\<open>sendRaw\<close>, \<^verbatim>\<open>getHeader\<close> and \<^verbatim>\<open>getBody\<close> of
  \<^verbatim>\<open>src/galay-rpc/kernel/rpc_conn.h\<close>. A caller that frames its messages itself reads the header, takes the
  length of the body from it and reads that many bytes.
\<close>

lemma header_spec_frame:
  assumes "length body \<le> RPC_MAX_BODY_SIZE"
  shows "header_spec () (frame t flags i body @ later) = ((), 16, Got (frame_header t flags i (length body)))"
  using assms by (simp add: header_spec_def frame_header_valid)

lemma body_spec_exact: "body_spec (length body) (body @ later) = (length body, length body, Got body)"
  by (simp add: body_spec_def)

context ring_buffer
begin

lemma header_read:
  assumes "ring_inv (cn_ring_buffer conn)" "length body \<le> RPC_MAX_BODY_SIZE" "delivers evs"
    and "ring_content ops mem (cn_ring_buffer conn) @ stream = frame t flags i body @ later"
    and "16 \<le> ring_capacity ops (cn_ring_buffer conn)" "16 \<le> length evs"
  shows "\<exists>mem' m' rest. read_run ops (header_parseFromRingBuffer en ops) evs mem (getHeader conn h0) stream =
      Finished (Inr True) mem' m' rest \<and>
    machine_self m' = frame_header t flags i (length body) \<and> ring_inv (machine_ring m') \<and>
    ring_capacity ops (machine_ring m') = ring_capacity ops (cn_ring_buffer conn) \<and>
    ring_content ops mem' (machine_ring m') @ rest = body @ later"
proof -
  let ?m = "getHeader conn h0" and ?c = "ring_content ops mem (cn_ring_buffer conn)"
  have s: "header_spec () (?c @ stream) = ((), 16, Got (frame_header t flags i (length body)))"
    using header_spec_frame [OF assms(2)] assms(4) by simp
  have "header.fits () ?c stream (ring_capacity ops (cn_ring_buffer conn))"
    using s assms(5) by (rule header.fits_got)
  moreover have "reading ?m" "machine_ring ?m = cn_ring_buffer conn" by (simp_all add: getHeader_machine)
  moreover have "drop 16 (frame t flags i body @ later) = body @ later" by (simp add: frame_def)
  ultimately show ?thesis
    using header.read_complete [of ?m evs mem stream _ 16 "frame_header t flags i (length body)" en] assms s by simp
qed

lemma body_read:
  assumes "ring_inv (cn_ring_buffer conn)" "delivers evs" "ring_content ops mem (cn_ring_buffer conn) @ stream = body @ later"
    and "length body \<le> ring_capacity ops (cn_ring_buffer conn)" "length body \<le> length evs" "length body \<le> length buf"
  shows "\<exists>mem' m' rest. read_run ops (body_parseFromRingBuffer ops) evs mem (getBody conn buf (length body)) stream =
      Finished (Inr True) mem' m' rest \<and>
    take (bd_body_len (machine_self m')) (bd_body (machine_self m')) = body \<and> ring_inv (machine_ring m') \<and>
    ring_capacity ops (machine_ring m') = ring_capacity ops (cn_ring_buffer conn) \<and>
    ring_content ops mem' (machine_ring m') @ rest = later"
proof -
  let ?m = "getBody conn buf (length body)" and ?c = "ring_content ops mem (cn_ring_buffer conn)"
  have s: "body_spec (length body) (?c @ stream) = (length body, length body, Got body)"
    using body_spec_exact assms(3) by simp
  have "body.fits (length body) ?c stream (ring_capacity ops (cn_ring_buffer conn))"
    using s assms(4) by (rule body.fits_got)
  moreover have "active (\<lambda>s. bd_body_len s \<le> length (bd_body s)) ?m" "machine_ring ?m = cn_ring_buffer conn"
      "bd_body_len (machine_self ?m) = length body"
    using assms(6) by (simp_all add: getBody_machine active_def)
  ultimately show ?thesis
    using body.read_complete [of ?m evs mem stream _ "length body" body] assms s by simp
qed

end

section \<open>Properties\<close>

text \<open>C20. A message that is framed by its caller passes the raw interface. The bytes of a header and its body,
  sent with sendRaw, are put on the wire unchanged; the receiver that reads the header, takes the
  length from it and reads a body of that length into a buffer of its own gets the header and the body
  that were sent, whatever the type of the message and however the bytes are cut, and leaves what was
  sent later untouched.\<close>

theorem raw_frame_delivered:
  assumes "ring_buffer ops ring_inv" "ring_inv (cn_ring_buffer conn)" "wire = frame t flags i body"
    and "ring_content ops mem (cn_ring_buffer conn) @ stream = wire @ later"
    and "length body \<le> RPC_MAX_BODY_SIZE" "max 16 (length body) \<le> ring_capacity ops (cn_ring_buffer conn)"
    and "length body \<le> length buf"
    and "delivers wevs" "length wire \<le> length wevs" "delivers hevs" "16 \<le> length hevs" "delivers bevs" "length body \<le> length bevs"
  shows "\<exists>w mem1 m1 rest1 mem2 m2 rest2.
    send_run sf wevs smem (sendRaw smem (Buf wire 0) (length wire)) [] = Finished (Inr True) smem w wire \<and>
    read_run ops (header_parseFromRingBuffer en ops) hevs mem (getHeader conn h0) stream = Finished (Inr True) mem1 m1 rest1 \<and>
    machine_self m1 = frame_header t flags i (length body) \<and>
    read_run ops (body_parseFromRingBuffer ops) bevs mem1
      (getBody (conn\<lparr>cn_ring_buffer := machine_ring m1\<rparr>) buf (unat (h_body_length (machine_self m1)))) rest1 =
        Finished (Inr True) mem2 m2 rest2 \<and>
    take (length body) (bd_body (machine_self m2)) = body \<and>
    ring_inv (machine_ring m2) \<and> ring_content ops mem2 (machine_ring m2) @ rest2 = later"
proof -
  have sent: "sendRaw smem (Buf wire 0) (length wire) = Some (RpcVectorWriteState wire)"
    by (simp add: sendRaw_def SendRawDataAwaitable_def rdp_Some)
  obtain w where w: "send_run sf wevs smem (Some (RpcVectorWriteState wire)) [] = Finished (Inr True) smem w wire"
    using raw_writer.send_completes [where x = wire and evs = wevs and mem = smem and sf = sf and out = "[]"] assms(8,9) by auto
  have cap: "16 \<le> ring_capacity ops (cn_ring_buffer conn)" "length body \<le> ring_capacity ops (cn_ring_buffer conn)"
    using assms(6) by simp_all
  obtain mem1 m1 rest1 where h:
    "read_run ops (header_parseFromRingBuffer en ops) hevs mem (getHeader conn h0) stream = Finished (Inr True) mem1 m1 rest1"
    "machine_self m1 = frame_header t flags i (length body)" "ring_inv (machine_ring m1)"
    "ring_capacity ops (machine_ring m1) = ring_capacity ops (cn_ring_buffer conn)"
    "ring_content ops mem1 (machine_ring m1) @ rest1 = body @ later"
    using ring_buffer.header_read [OF assms(1,2,5,10), of mem stream t flags i later en h0] assms(3,4,11) cap(1) by auto
  let ?conn = "conn\<lparr>cn_ring_buffer := machine_ring m1\<rparr>"
  obtain mem2 m2 rest2 where b:
    "read_run ops (body_parseFromRingBuffer ops) bevs mem1 (getBody ?conn buf (length body)) rest1 = Finished (Inr True) mem2 m2 rest2"
    "take (bd_body_len (machine_self m2)) (bd_body (machine_self m2)) = body"
    "ring_inv (machine_ring m2)" "ring_content ops mem2 (machine_ring m2) @ rest2 = later"
    using ring_buffer.body_read [OF assms(1), of ?conn bevs mem1 rest1 body later buf] assms(7,12,13) h cap(2) by auto
  have "unat (h_body_length (machine_self m1)) = length body"
    using h(2) assms(5) by (simp add: max_body_eq unat_of_nat_small32)
  moreover have "take (length body) (bd_body (machine_self m2)) = body"
    using b(2) by (metis append_eq_conv_conj append_take_drop_id)
  ultimately show ?thesis using sent w h(1,2) b by auto
qed

theorem raw_frame_delivered_witness:
  "\<exists>w mem1 m1 rest1 mem2 m2 rest2.
    send_run no_error (replicate 30 (Deliver 5)) (\<lambda>_. 0) (sendRaw (\<lambda>_. 0) (Buf (frame HEARTBEAT 0 9 [1, 2, 3]) 0) 19) [] =
      Finished (Inr True) (\<lambda>_. 0) w (frame HEARTBEAT 0 9 [1, 2, 3]) \<and>
    read_run circ_ops (header_parseFromRingBuffer Big circ_ops) (replicate 20 (Deliver 3)) (\<lambda>_. 0)
      (getHeader (mkRpcConn mk_circ RpcReaderSetting_init 40) RpcHeader_init) (frame HEARTBEAT 0 9 [1, 2, 3] @ [7, 7]) = Finished (Inr True) mem1 m1 rest1 \<and>
    read_run circ_ops (body_parseFromRingBuffer circ_ops) (replicate 10 (Deliver 2)) mem1
      (getBody ((mkRpcConn mk_circ RpcReaderSetting_init 40)\<lparr>cn_ring_buffer := machine_ring m1\<rparr>) (replicate 8 0)
        (unat (h_body_length (machine_self m1)))) rest1 = Finished (Inr True) mem2 m2 rest2 \<and>
    take 3 (bd_body (machine_self m2)) = [1, 2, 3]"
proof -
  let ?conn = "mkRpcConn mk_circ RpcReaderSetting_init 40"
  have conn: "cn_ring_buffer ?conn = mk_circ 40" by (simp add: mkRpcConn_def normalizeRingBufferSize_def)
  have "delivers (replicate 30 (Deliver 5))" "delivers (replicate 20 (Deliver 3))" "delivers (replicate 10 (Deliver 2))"
    by (simp_all add: delivers_def)
  then show ?thesis
    using raw_frame_delivered [OF circ.ring_buffer_axioms _ refl, of ?conn "\<lambda>_. 0" "frame HEARTBEAT 0 9 [1, 2, 3] @ [7, 7]" HEARTBEAT 0 9 "[1, 2, 3]"
        "[7, 7]" "replicate 8 0" "replicate 30 (Deliver 5)" "replicate 20 (Deliver 3)" "replicate 10 (Deliver 2)" no_error "\<lambda>_. 0" Big RpcHeader_init]
    unfolding conn by (simp add: max_body_eq numeral_3_eq_3) metis
qed

end
