(* ===== verification/Rpc_Objects.thy ===== *)
theory Rpc_Objects
  imports Rpc_Stream
begin

text \<open>
  The message classes as types with an invariant: a request, a response or a stream message that has
  been built and changed through its own operations only, in any order, always has a payload that can
  be read. The objects are given as inductive sets, one rule per operation of
  \<^verbatim>\<open>src/galay-rpc/protoc/rpc_message.h\<close> and \<^verbatim>\<open>src/galay-rpc/kernel/rpc_stream.h\<close> that yields or changes an
  object; a borrowed view is one that its caller keeps alive.
\<close>

section \<open>Objects\<close>

inductive request_object :: "RpcRequest \<Rightarrow> bool" where
  default: "request_object RpcRequest_init"
| construct: "request_object (mkRpcRequest i service_name method_name)"
| fields: "request_object r \<Longrightarrow> request_object (r\<lparr>rq_request_id := i, rq_call_mode := mode, rq_end_of_stream := e,
      rq_service_name := s, rq_method_name := m\<rparr>)"
| copy: "request_object r \<Longrightarrow> RpcRequest_set_payload mem data len r = Some r' \<Longrightarrow> request_object r'"
| move: "request_object r \<Longrightarrow> request_object (RpcRequest_set_payload_move b r)"
| borrow: "request_object r \<Longrightarrow> view_ok v \<Longrightarrow> request_object (RpcRequest_set_payloadView v r)"
| payload: "request_object r \<Longrightarrow> RpcRequest_payload mem r = Some (b, r') \<Longrightarrow> request_object r'"
| decode: "request_object r \<Longrightarrow> RpcRequest_deserializeBody en r body len = Some (ok, r') \<Longrightarrow> request_object r'"
| parse: "request_object r \<Longrightarrow> iovs_ok iovs \<Longrightarrow> length iovs \<le> 2 \<Longrightarrow>
    tryParseRequestMessage en mem iovs (iovecsReadableBytes iovs) mx r = Some (result, r') \<Longrightarrow> request_object r'"

inductive response_object :: "RpcResponse \<Rightarrow> bool" where
  default: "response_object RpcResponse_init"
| construct: "response_object (mkRpcResponse i code)"
| fields: "response_object r \<Longrightarrow> response_object (r\<lparr>rs_request_id := i, rs_call_mode := mode, rs_end_of_stream := e,
      rs_error_code := code\<rparr>)"
| copy: "response_object r \<Longrightarrow> RpcResponse_set_payload mem data len r = Some r' \<Longrightarrow> response_object r'"
| move: "response_object r \<Longrightarrow> response_object (RpcResponse_set_payload_move b r)"
| borrow: "response_object r \<Longrightarrow> view_ok v \<Longrightarrow> response_object (RpcResponse_set_payloadView v r)"
| payload: "response_object r \<Longrightarrow> RpcResponse_payload mem r = Some (b, r') \<Longrightarrow> response_object r'"
| decode: "response_object r \<Longrightarrow> RpcResponse_deserializeBody en r body len = Some (ok, r') \<Longrightarrow> response_object r'"
| parse: "response_object r \<Longrightarrow> iovs_ok iovs \<Longrightarrow> length iovs \<le> 2 \<Longrightarrow>
    tryParseResponseMessage en mem iovs (iovecsReadableBytes iovs) mx r = Some (result, r') \<Longrightarrow> response_object r'"

inductive stream_object :: "StreamMessage \<Rightarrow> bool" where
  default: "stream_object StreamMessage_init"
| construct: "mkStreamMessage mem i data len = Some m \<Longrightarrow> stream_object m"
| fields: "stream_object m \<Longrightarrow> stream_object (m\<lparr>sm_stream_id := i, sm_is_end := e, sm_msg_type := t\<rparr>)"
| copy: "stream_object m \<Longrightarrow> StreamMessage_set_payload mem data len m = Some m' \<Longrightarrow> stream_object m'"
| string: "stream_object m \<Longrightarrow> stream_object (StreamMessage_set_payload_string b m)"
| borrow: "stream_object m \<Longrightarrow> view_ok v \<Longrightarrow> stream_object (StreamMessage_set_payloadView v m)"
| payload: "stream_object m \<Longrightarrow> StreamMessage_payload mem m = Some (b, m') \<Longrightarrow> stream_object m'"
| decode: "stream_object m \<Longrightarrow> StreamMessage_deserializeBody mem body len m = Some (ok, m') \<Longrightarrow> stream_object m'"

section \<open>The invariant\<close>

text \<open>A payload that a call leaves owned, or leaves as it was, keeps the invariant.\<close>

lemma request_view_ok: "rq_payload_owned r \<or> view_ok (rq_payload_view r) \<Longrightarrow> view_ok (RpcRequest_payloadView r)"
  by (auto simp: RpcRequest_payloadView_def view_simps)

lemma response_view_ok: "rs_payload_owned r \<or> view_ok (rs_payload_view r) \<Longrightarrow> view_ok (RpcResponse_payloadView r)"
  by (auto simp: RpcResponse_payloadView_def view_simps)

lemma stream_view_ok: "sm_payload_owned m \<or> view_ok (sm_payload_view m) \<Longrightarrow> view_ok (StreamMessage_payloadView m)"
  by (auto simp: StreamMessage_payloadView_def view_simps)

lemma request_materialized_owned: "RpcRequest_payload mem r = Some (b, r') \<Longrightarrow> rq_payload_owned r'"
  by (auto simp: RpcRequest_payload_def RpcRequest_materialize_def bind_Some_iff Let_def split: if_splits)

lemma response_materialized_owned: "RpcResponse_payload mem r = Some (b, r') \<Longrightarrow> rs_payload_owned r'"
  by (auto simp: RpcResponse_payload_def RpcResponse_materialize_def bind_Some_iff Let_def split: if_splits)

lemma stream_materialized_owned: "StreamMessage_payload mem m = Some (b, m') \<Longrightarrow> sm_payload_owned m'"
  by (auto simp: StreamMessage_payload_def StreamMessage_materialize_def bind_Some_iff Let_def split: if_splits)

text \<open>What a checked computation returns, branch by branch.\<close>

lemma pred_option_bind: "(\<And>a. pred_option P (f a)) \<Longrightarrow> pred_option P (Option.bind x f)"
  by (cases x) simp_all

lemma pred_option_if: "pred_option P x \<Longrightarrow> pred_option P y \<Longrightarrow> pred_option P (if c then x else y)"
  by simp

lemma request_decoded_payload:
  assumes "RpcRequest_deserializeBody en r body len = Some (ok, r')"
  shows "rq_payload_owned r' \<or> RpcRequest_payloadView r' = RpcRequest_payloadView r"
proof -
  let ?P = "\<lambda>(ok :: bool, r'). rq_payload_owned r' \<or> RpcRequest_payloadView r' = RpcRequest_payloadView r"
  have "pred_option ?P (RpcRequest_deserializeBody en r body len)"
    unfolding RpcRequest_deserializeBody_def Let_def
    by (intro pred_option_bind pred_option_if) (simp_all add: RpcRequest_payloadView_def)
  then show ?thesis using assms by simp
qed

lemma request_parsed_payload:
  assumes "iovs_ok iovs" "length iovs \<le> 2"
    "tryParseRequestMessage en mem iovs (iovecsReadableBytes iovs) mx r = Some (result, r')"
  shows "r' = r \<or> view_ok (RpcRequest_payloadView r')"
proof -
  have "request_spec mx c = (p, n, Got v) \<Longrightarrow> v \<noteq> None" for c p n v
    by (auto simp: request_spec_def Let_def split: if_splits option.splits)
  then show ?thesis
    using tryParseRequestMessage_eq [OF assms(1,2), of en mem mx r] assms(3)
    by (cases "request_spec mx (iovs_bytes mem iovs)") (auto simp: request_value_def split: parse_outcome.splits if_splits)
qed

lemma response_parsed_payload:
  assumes "iovs_ok iovs" "length iovs \<le> 2"
    "tryParseResponseMessage en mem iovs (iovecsReadableBytes iovs) mx r = Some (result, r')"
  shows "r' = r \<or> view_ok (RpcResponse_payloadView r')"
proof -
  have "response_spec mx c = (p, n, Got v) \<Longrightarrow> v \<noteq> None" for c p n v
    by (auto simp: response_spec_def Let_def split: if_splits option.splits)
  then show ?thesis
    using tryParseResponseMessage_eq [OF assms(1,2), of en mem mx r] assms(3)
    by (cases "response_spec mx (iovs_bytes mem iovs)") (auto simp: response_value_def split: parse_outcome.splits if_splits)
qed

lemma request_object_ok: "request_object r \<Longrightarrow> view_ok (RpcRequest_payloadView r)"
proof (induction rule: request_object.induct)
  case (payload r mem b r')
  then show ?case using request_materialized_owned request_view_ok by blast
next
  case (decode r en body len ok r')
  then show ?case using request_decoded_payload [OF decode.hyps(2)] request_view_ok by metis
next
  case (parse r iovs en mem mx result r')
  then show ?case using request_parsed_payload [OF parse.hyps(2-4)] by blast
qed (auto simp: RpcRequest_init_def mkRpcRequest_def RpcRequest_set_payload_def RpcRequest_set_payload_move_def
    RpcRequest_set_payloadView_def RpcRequest_payloadView_def view_simps bind_Some_iff split: if_splits)

lemma response_object_ok: "response_object r \<Longrightarrow> view_ok (RpcResponse_payloadView r)"
proof (induction rule: response_object.induct)
  case (payload r mem b r')
  then show ?case using response_materialized_owned response_view_ok by blast
next
  case (decode r en body len ok r')
  then show ?case
    by (auto simp: RpcResponse_deserializeBody_def RpcResponse_payloadView_def view_simps bind_Some_iff Let_def split: if_splits)
next
  case (parse r iovs en mem mx result r')
  then show ?case using response_parsed_payload [OF parse.hyps(2-4)] by blast
qed (auto simp: RpcResponse_init_def mkRpcResponse_def RpcResponse_set_payload_def RpcResponse_set_payload_move_def
    RpcResponse_set_payloadView_def RpcResponse_payloadView_def view_simps bind_Some_iff split: if_splits)

lemma stream_object_ok: "stream_object m \<Longrightarrow> view_ok (StreamMessage_payloadView m)"
proof (induction rule: stream_object.induct)
  case (payload m mem b m')
  then show ?case using stream_materialized_owned stream_view_ok by blast
qed (auto simp: StreamMessage_init_def mkStreamMessage_def StreamMessage_set_payload_def StreamMessage_set_payload_string_def
    StreamMessage_set_payloadView_def StreamMessage_deserializeBody_def StreamMessage_payloadView_def view_simps bind_Some_iff Let_def
    split: if_splits)

text \<open>Reading the payload copies a borrowed payload into the object and changes nothing that can be observed.\<close>

lemma request_payload_const:
  assumes "view_ok (RpcRequest_payloadView r)"
  shows "\<exists>r'. RpcRequest_payload mem r = Some (view_bytes mem (RpcRequest_payloadView r), r') \<and>
    request_value mem' r' = request_value mem r \<and> rq_payload_owned r'"
proof -
  obtain r' where r': "RpcRequest_materialize mem r = Some r'" "rq_payload_owned r'"
      "rq_payload r' = view_bytes mem (RpcRequest_payloadView r)"
    using request_payload.materialize_bytes [OF assms] by blast
  moreover have "rq_request_id r' = rq_request_id r \<and> rq_call_mode r' = rq_call_mode r \<and> rq_end_of_stream r' = rq_end_of_stream r \<and>
      rq_service_name r' = rq_service_name r \<and> rq_method_name r' = rq_method_name r"
    using r'(1) by (auto simp: RpcRequest_materialize_def bind_Some_iff Let_def split: if_splits)
  ultimately show ?thesis
    using assms by (simp add: RpcRequest_payload_def request_value_def RpcRequest_payloadView_def view_simps)
qed

lemma response_payload_const:
  assumes "view_ok (RpcResponse_payloadView r)"
  shows "\<exists>r'. RpcResponse_payload mem r = Some (view_bytes mem (RpcResponse_payloadView r), r') \<and>
    response_value mem' r' = response_value mem r \<and> rs_payload_owned r'"
proof -
  obtain r' where r': "RpcResponse_materialize mem r = Some r'" "rs_payload_owned r'"
      "rs_payload r' = view_bytes mem (RpcResponse_payloadView r)"
    using response_payload.materialize_bytes [OF assms] by blast
  moreover have "rs_request_id r' = rs_request_id r \<and> rs_call_mode r' = rs_call_mode r \<and> rs_end_of_stream r' = rs_end_of_stream r \<and>
      rs_error_code r' = rs_error_code r"
    using r'(1) by (auto simp: RpcResponse_materialize_def bind_Some_iff Let_def split: if_splits)
  ultimately show ?thesis
    using assms by (simp add: RpcResponse_payload_def response_value_def RpcResponse_payloadView_def view_simps)
qed

lemma stream_payload_const:
  assumes "view_ok (StreamMessage_payloadView m)"
  shows "\<exists>m'. StreamMessage_payload mem m = Some (view_bytes mem (StreamMessage_payloadView m), m') \<and>
    stream_value mem' m' = stream_value mem m \<and> sm_payload_owned m'"
proof -
  obtain m' where m': "StreamMessage_materialize mem m = Some m'" "sm_payload_owned m'"
      "sm_payload m' = view_bytes mem (StreamMessage_payloadView m)"
    using stream_payload.materialize_bytes [OF assms] by blast
  moreover have "sm_stream_id m' = sm_stream_id m \<and> sm_is_end m' = sm_is_end m \<and> sm_msg_type m' = sm_msg_type m"
    using m'(1) by (auto simp: StreamMessage_materialize_def bind_Some_iff Let_def split: if_splits)
  ultimately show ?thesis
    using assms by (simp add: StreamMessage_payload_def stream_value_def StreamMessage_payloadView_def view_simps)
qed

lemma request_object_sound:
  assumes "request_object q"
  shows "RpcRequest_payloadSize q = length (view_bytes mem (RpcRequest_payloadView q)) \<and>
      (\<exists>q'. RpcRequest_payload mem q = Some (view_bytes mem (RpcRequest_payloadView q), q') \<and> request_object q' \<and>
        request_value mem' q' = request_value mem q) \<and> request_value mem q \<noteq> None \<and>
      RpcRequest_serialize en mem q = Some (request_wire mem q)"
proof -
  note ok = request_object_ok [OF assms]
  obtain q' where p: "RpcRequest_payload mem q = Some (view_bytes mem (RpcRequest_payloadView q), q')" "request_value mem' q' = request_value mem q"
    using request_payload_const [OF ok, of mem mem'] by blast
  have "request_value mem q \<noteq> None" using ok by (simp add: request_value_def)
  with p request_object.payload [OF assms p(1)] ok request_payload.size_is_length [OF ok, of mem] request_serialize_eq [OF ok] show ?thesis by auto
qed

lemma response_object_sound:
  assumes "response_object s"
  shows "RpcResponse_payloadSize s = length (view_bytes mem (RpcResponse_payloadView s)) \<and>
      (\<exists>s'. RpcResponse_payload mem s = Some (view_bytes mem (RpcResponse_payloadView s), s') \<and> response_object s' \<and>
        response_value mem' s' = response_value mem s) \<and> response_value mem s \<noteq> None \<and>
      RpcResponse_serialize en mem s = Some (response_wire mem s)"
proof -
  note ok = response_object_ok [OF assms]
  obtain s' where p: "RpcResponse_payload mem s = Some (view_bytes mem (RpcResponse_payloadView s), s')" "response_value mem' s' = response_value mem s"
    using response_payload_const [OF ok, of mem mem'] by blast
  have "response_value mem s \<noteq> None" using ok by (simp add: response_value_def)
  with p response_object.payload [OF assms p(1)] ok response_payload.size_is_length [OF ok, of mem] response_serialize_eq [OF ok] show ?thesis by auto
qed

lemma stream_object_sound:
  assumes "stream_object m"
  shows "StreamMessage_payloadSize m = length (view_bytes mem (StreamMessage_payloadView m)) \<and>
      (\<exists>m'. StreamMessage_payload mem m = Some (view_bytes mem (StreamMessage_payloadView m), m') \<and> stream_object m' \<and>
        stream_value mem' m' = stream_value mem m) \<and> stream_value mem m \<noteq> None \<and>
      StreamMessage_serialize en mem t m = Some (stream_frame t (sm_stream_id m) (view_bytes mem (StreamMessage_payloadView m)))"
proof -
  note ok = stream_object_ok [OF assms]
  obtain m' where p: "StreamMessage_payload mem m = Some (view_bytes mem (StreamMessage_payloadView m), m')" "stream_value mem' m' = stream_value mem m"
    using stream_payload_const [OF ok, of mem mem'] by blast
  have "stream_value mem m \<noteq> None" using ok by (simp add: stream_value_def)
  with p stream_object.payload [OF assms p(1)] ok stream_payload.size_is_length [OF ok, of mem] stream_serialize_eq [OF ok] show ?thesis by auto
qed

section \<open>Properties\<close>

text \<open>C19. The message classes keep their payload invariant. Take a request, a response and a stream message that
  have gone through any constructors, setters, payload changes by copy, by move and by borrowed view,
  reads of the payload, body decoders (successful or not) and zero-copy parses, in any order. Then the
  payload of each can be read: the size it reports is the number of bytes it has, reading it gives
  these bytes and leaves an object of the same kind that shows the same fields and no longer depends on
  the borrowed memory, and serialising it never leaves a buffer.\<close>

theorem message_objects_typed:
  assumes "request_object q" "response_object s" "stream_object m"
  shows "(RpcRequest_payloadSize q = length (view_bytes mem (RpcRequest_payloadView q)) \<and>
      (\<exists>q'. RpcRequest_payload mem q = Some (view_bytes mem (RpcRequest_payloadView q), q') \<and> request_object q' \<and>
        request_value mem' q' = request_value mem q) \<and> request_value mem q \<noteq> None \<and>
      RpcRequest_serialize en mem q = Some (request_wire mem q)) \<and>
    (RpcResponse_payloadSize s = length (view_bytes mem (RpcResponse_payloadView s)) \<and>
      (\<exists>s'. RpcResponse_payload mem s = Some (view_bytes mem (RpcResponse_payloadView s), s') \<and> response_object s' \<and>
        response_value mem' s' = response_value mem s) \<and> response_value mem s \<noteq> None \<and>
      RpcResponse_serialize en mem s = Some (response_wire mem s)) \<and>
    (StreamMessage_payloadSize m = length (view_bytes mem (StreamMessage_payloadView m)) \<and>
      (\<exists>m'. StreamMessage_payload mem m = Some (view_bytes mem (StreamMessage_payloadView m), m') \<and> stream_object m' \<and>
        stream_value mem' m' = stream_value mem m) \<and> stream_value mem m \<noteq> None \<and>
      StreamMessage_serialize en mem t m = Some (stream_frame t (sm_stream_id m) (view_bytes mem (StreamMessage_payloadView m))))"
  using request_object_sound [OF assms(1)] response_object_sound [OF assms(2)] stream_object_sound [OF assms(3)] by blast

theorem message_objects_typed_witness:
  "(let v = \<lparr>segment1 = Mem 5 2, segment1_len = 2, segment2 = Buf [9, 8] 1, segment2_len = 1\<rparr>;
        q = RpcRequest_set_payloadView v (mkRpcRequest 1 [69] [70]);
        s = RpcResponse_set_payload_move [1] (mkRpcResponse 1 OK);
        m = StreamMessage_set_payloadView v StreamMessage_init
    in RpcRequest_payloadSize q = 3 \<and>
      (\<exists>q'. RpcRequest_payload of_nat q = Some ([5, 6, 8], q') \<and> request_value (\<lambda>_. 0) q' = request_value of_nat q) \<and>
      (\<exists>s'. RpcResponse_payload of_nat s = Some ([1], s')) \<and>
      StreamMessage_serialize Little of_nat STREAM_DATA m = Some (stream_frame STREAM_DATA 0 [5, 6, 8]))"
proof -
  let ?v = "\<lparr>segment1 = Mem 5 2, segment1_len = 2, segment2 = Buf [9, 8] 1, segment2_len = 1\<rparr>"
  let ?q = "RpcRequest_set_payloadView ?v (mkRpcRequest 1 [69] [70])"
  let ?s = "RpcResponse_set_payload_move [1] (mkRpcResponse 1 OK)"
  let ?m = "StreamMessage_set_payloadView ?v StreamMessage_init"
  have v: "view_ok ?v" "view_bytes of_nat ?v = [5, 6, 8]"
    by (simp_all add: view_ok_def view_bytes_def upt_rec)
  have obj: "request_object ?q" "response_object ?s" "stream_object ?m"
    using v(1) by (blast intro: request_object.intros response_object.intros stream_object.intros)+
  have views: "view_bytes of_nat (RpcRequest_payloadView ?q) = [5, 6, 8]" "view_bytes of_nat (RpcResponse_payloadView ?s) = [1]"
      "view_bytes of_nat (StreamMessage_payloadView ?m) = [5, 6, 8]" "sm_stream_id ?m = 0"
    using v(2) by (simp_all add: RpcRequest_payloadView_def RpcRequest_set_payloadView_def RpcResponse_payloadView_def
        RpcResponse_set_payload_move_def StreamMessage_payloadView_def StreamMessage_set_payloadView_def StreamMessage_init_def view_simps)
  show ?thesis
    using message_objects_typed [OF obj, where mem = of_nat and mem' = "\<lambda>_. 0" and en = Little and t = STREAM_DATA] unfolding views Let_def by auto
qed

end
