(* ===== verification/Rpc_Interleave.thy ===== *)
theory Rpc_Interleave
  imports Rpc_Await
begin

text \<open>
  A server with all its connections at work. The accept loop and the connection handlers of a server
  are coroutines on several schedulers; they share the service registry, the running flag and the last
  error of the server object, and nothing else. A run interleaves them: a step is one accepted
  connection, one failed accept, one turn of the loop of one connection, the end of the loop of a
  connection after the server was stopped, or the stop itself. Each connection has its own ring, and the
  memory of its state holds that ring.

  The locale \<open>interleaving\<close> is the contract between a server's step relation and the loop of a single
  connection; from it follows, once for all servers, that a connection in any interleaving is where its
  own turns bring it. \<open>connection_service\<close> adds what a client sees of a connection.
\<close>

section \<open>Runs\<close>

text \<open>The running flag, the last error, and the connections, each a result of the loop of its server.\<close>

record 'r running_server =
  run_flag :: bool
  run_last_error :: "RpcError option"
  run_conns :: "'r list"

datatype server_event =
    Accept memory bytes
  | Accept_fail IOError
  | Turn nat "io_event list \<times> io_event list" "IOError option"
  | Finish nat "IOError option"
  | Stop

inductive runs ::
  "('r running_server \<Rightarrow> server_event \<Rightarrow> 'r running_server \<Rightarrow> bool) \<Rightarrow> server_event list \<Rightarrow> 'r running_server \<Rightarrow> bool"
  for step where
  start: "runs step [] \<lparr>run_flag = True, run_last_error = None, run_conns = []\<rparr>"
| step: "runs step es sy \<Longrightarrow> step sy e sy' \<Longrightarrow> runs step (es @ [e]) sy'"

text \<open>The connections accepted in a run, the turns of one of them, and the ends of its loop.\<close>

fun accepted :: "server_event list \<Rightarrow> (memory \<times> bytes) list" where
  "accepted [] = []"
| "accepted (Accept mem stream # es) = (mem, stream) # accepted es"
| "accepted (_ # es) = accepted es"

fun turns :: "nat \<Rightarrow> server_event list \<Rightarrow> ((io_event list \<times> io_event list) \<times> IOError option) list" where
  "turns i [] = []"
| "turns i (Turn j io close_result # es) = (if i = j then [(io, close_result)] else []) @ turns i es"
| "turns i (_ # es) = turns i es"

fun finishes :: "nat \<Rightarrow> server_event list \<Rightarrow> IOError option list" where
  "finishes i [] = []"
| "finishes i (Finish j close_result # es) = (if i = j then [close_result] else []) @ finishes i es"
| "finishes i (_ # es) = finishes i es"

lemma accepted_append [simp]: "accepted (es @ fs) = accepted es @ accepted fs"
  by (induction es rule: accepted.induct) simp_all

lemma turns_append [simp]: "turns i (es @ fs) = turns i es @ turns i fs"
  by (induction i es rule: turns.induct) simp_all

lemma finishes_append [simp]: "finishes i (es @ fs) = finishes i es @ finishes i fs"
  by (induction i es rule: finishes.induct) simp_all

text \<open>A run with two connections, one of which sends bytes that are no frame.\<close>

definition two_connections :: "bytes \<Rightarrow> server_event list" where
  "two_connections content = [Accept (\<lambda>_. 0) content, Accept (\<lambda>_. 0) (replicate 30 71),
     Turn 1 (replicate 64 (Deliver 9), []) None, Turn 0 (replicate 64 (Deliver 3), replicate 30 (Deliver 2)) None, Stop]"

section \<open>One connection among the others\<close>

text \<open>
  \<open>serving\<close> is a connection whose loop goes on, \<open>continue\<close> applies a function to the state of such a
  connection and leaves any other alone, \<open>fresh\<close> is the state of an accepted connection, \<open>round\<close> a turn
  of its loop and \<open>close\<close> its end. \<open>forget\<close> drops the last error, the one part of a connection's state
  that others write to.
\<close>

locale interleaving =
  fixes step :: "'r running_server \<Rightarrow> server_event \<Rightarrow> 'r running_server \<Rightarrow> bool"
    and serving :: "'st \<Rightarrow> 'r"
    and continue :: "('st \<Rightarrow> 'r) \<Rightarrow> 'r \<Rightarrow> 'r"
    and forget :: "'r \<Rightarrow> 'r"
    and fresh :: "memory \<Rightarrow> bytes \<Rightarrow> 'st"
    and round :: "IOError option \<Rightarrow> io_event list \<times> io_event list \<Rightarrow> 'st \<Rightarrow> 'r"
    and close :: "IOError option \<Rightarrow> 'st \<Rightarrow> 'r"
  assumes accept_law: "step sy (Accept mem stream) sy' \<Longrightarrow>
      run_flag sy \<and> run_flag sy' \<and> run_conns sy' = run_conns sy @ [serving (fresh mem stream)]"
    and accept_fail_law: "step sy (Accept_fail e) sy' \<Longrightarrow> run_flag sy' = run_flag sy \<and> run_conns sy' = run_conns sy"
    and turn_law: "step sy (Turn i io c) sy' \<Longrightarrow> run_flag sy \<and> run_flag sy' \<and> i < length (run_conns sy) \<and>
      (\<exists>st. run_conns sy ! i = serving st \<and> run_conns sy' = (run_conns sy)[i := run_conns sy' ! i] \<and>
        forget (run_conns sy' ! i) = forget (round c io st))"
    and finish_law: "step sy (Finish i c) sy' \<Longrightarrow> \<not> run_flag sy \<and> \<not> run_flag sy' \<and> i < length (run_conns sy) \<and>
      (\<exists>st. run_conns sy ! i = serving st \<and> run_conns sy' = (run_conns sy)[i := run_conns sy' ! i] \<and>
        forget (run_conns sy' ! i) = forget (close c st))"
    and stop_law: "step sy Stop sy' \<Longrightarrow> \<not> run_flag sy' \<and> run_conns sy' = run_conns sy"
    and accept_enabled: "run_flag sy \<Longrightarrow> \<exists>sy'. step sy (Accept mem stream) sy'"
    and turn_enabled: "run_flag sy \<Longrightarrow> i < length (run_conns sy) \<Longrightarrow> run_conns sy ! i = serving st \<Longrightarrow> \<exists>sy'. step sy (Turn i io c) sy'"
    and stop_enabled: "\<exists>sy'. step sy Stop sy'"
    and continue_serving [simp]: "continue f (serving st) = f st"
    and forget_round: "forget r = forget (serving st) \<Longrightarrow> forget (continue (round c io) r) = forget (round c io st)"
    and forget_close: "forget r = forget (serving st) \<Longrightarrow> forget (continue (close c) r) = forget (close c st)"
begin

text \<open>The connection alone: its turns, then the end of its loop if it had one.\<close>

definition after_turns :: "((io_event list \<times> io_event list) \<times> IOError option) list \<Rightarrow> 'r \<Rightarrow> 'r" where
  "after_turns ts r = foldl (\<lambda>r (io, c). continue (round c io) r) r ts"

definition after_finish :: "IOError option list \<Rightarrow> 'r \<Rightarrow> 'r" where
  "after_finish fins r = foldl (\<lambda>r c. continue (close c) r) r fins"

definition alone :: "server_event list \<Rightarrow> nat \<Rightarrow> 'r" where
  "alone es i = after_finish (finishes i es) (after_turns (turns i es)
     (serving (fresh (fst (accepted es ! i)) (snd (accepted es ! i)))))"

text \<open>The invariant of a run: the loop of a connection has ended only if the server was stopped, and each
  connection is where its own turns have brought it.\<close>

definition own_progress :: "server_event list \<Rightarrow> 'r running_server \<Rightarrow> bool" where
  "own_progress es sy \<longleftrightarrow>
     length (run_conns sy) = length (accepted es) \<and>
     (run_flag sy \<longrightarrow> (\<forall>i. finishes i es = [])) \<and>
     (\<forall>i. length (accepted es) \<le> i \<longrightarrow> turns i es = [] \<and> finishes i es = []) \<and>
     (\<forall>i < length (accepted es). forget (run_conns sy ! i) = forget (alone es i))"

lemma step_progress:
  assumes "step sy e sy'" "own_progress es sy"
  shows "own_progress (es @ [e]) sy'"
proof (cases e)
  case (Accept mem stream)
  then show ?thesis
    using assms accept_law [of sy mem stream sy']
    by (auto simp: own_progress_def nth_append alone_def after_turns_def after_finish_def less_Suc_eq)
next
  case (Accept_fail err)
  then show ?thesis using assms accept_fail_law [of sy err sy'] by (auto simp: own_progress_def alone_def)
next
  case (Turn i io c)
  then obtain st r where t: "run_flag sy" "run_flag sy'" "i < length (run_conns sy)" "run_conns sy ! i = serving st"
      "run_conns sy' = (run_conns sy)[i := r]" "forget r = forget (round c io st)"
    using assms(1) turn_law by blast
  have fin: "finishes i es = []" and i: "i < length (accepted es)" using assms(2) t(1,3) by (auto simp: own_progress_def)
  have "forget (alone es i) = forget (serving st)" using assms(2) i t(4) by (auto simp: own_progress_def)
  from forget_round [OF this, of c io] have "forget r = forget (alone (es @ [e]) i)"
    by (simp add: t(6) Turn alone_def fin after_turns_def after_finish_def)
  then show ?thesis
    using assms(2) t fin Turn by (auto simp: own_progress_def nth_list_update alone_def)
next
  case (Finish i c)
  then obtain st r where t: "\<not> run_flag sy" "\<not> run_flag sy'" "i < length (run_conns sy)" "run_conns sy ! i = serving st"
      "run_conns sy' = (run_conns sy)[i := r]" "forget r = forget (close c st)"
    using assms(1) finish_law by blast
  have i: "i < length (accepted es)" using assms(2) t(3) by (auto simp: own_progress_def)
  then have "forget (alone es i) = forget (serving st)" using assms(2) t(4) by (auto simp: own_progress_def)
  from forget_close [OF this, of c] have "forget r = forget (alone (es @ [e]) i)"
    by (simp add: t(6) Finish alone_def after_finish_def)
  then show ?thesis
    using assms(2) t Finish by (auto simp: own_progress_def nth_list_update alone_def)
next
  case Stop
  then show ?thesis using assms stop_law [of sy sy'] by (auto simp: own_progress_def alone_def)
qed

lemma run_progress: "runs step es sy \<Longrightarrow> own_progress es sy"
  by (induction rule: runs.induct) (simp add: own_progress_def, blast intro: step_progress)

text \<open>The run \<open>two_connections\<close> exists.\<close>

lemma two_connections_run: "\<exists>sy. runs step (two_connections content) sy"
proof -
  let ?sy = "\<lparr>run_flag = True, run_last_error = None, run_conns = []\<rparr>"
  note more = runs.step [where step = step]
  obtain sy1 where 1: "step ?sy (Accept (\<lambda>_. 0) content) sy1" using accept_enabled [of ?sy] by auto
  note a1 = accept_law [OF 1]
  obtain sy2 where 2: "step sy1 (Accept (\<lambda>_. 0) (replicate 30 71)) sy2" using accept_enabled a1 by blast
  have a2: "run_flag sy2" "run_conns sy2 = [serving (fresh (\<lambda>_. 0) content), serving (fresh (\<lambda>_. 0) (replicate 30 71))]"
    using a1 accept_law [OF 2] by simp_all
  have "\<exists>sy3. step sy2 (Turn 1 (replicate 64 (Deliver 9), []) None) sy3" by (rule turn_enabled) (simp_all add: a2)
  then obtain sy3 where 3: "step sy2 (Turn 1 (replicate 64 (Deliver 9), []) None) sy3" by blast
  obtain r where a3: "run_flag sy3" "run_conns sy3 = [serving (fresh (\<lambda>_. 0) content), r]"
    using turn_law [OF 3] a2(2) by fastforce
  have "\<exists>sy4. step sy3 (Turn 0 (replicate 64 (Deliver 3), replicate 30 (Deliver 2)) None) sy4"
    by (rule turn_enabled) (simp_all add: a3)
  then obtain sy4 where 4: "step sy3 (Turn 0 (replicate 64 (Deliver 3), replicate 30 (Deliver 2)) None) sy4" by blast
  obtain sy5 where 5: "step sy4 Stop sy5" using stop_enabled by blast
  show ?thesis
    using more [OF more [OF more [OF more [OF more [OF runs.start 1] 2] 3] 4] 5] by (auto simp: two_connections_def)
qed

text \<open>What every turn and every end of a loop keeps of a single connection holds of all connections of a run.\<close>

lemma run_invariant:
  assumes "runs step es sy" "\<And>r r'. forget r = forget r' \<Longrightarrow> P r \<Longrightarrow> P r'"
    and "\<And>mem stream. P (serving (fresh mem stream))"
    and "\<And>c io st. P (serving st) \<Longrightarrow> P (round c io st)" "\<And>c st. P (serving st) \<Longrightarrow> P (close c st)"
  shows "list_all P (run_conns sy)"
  using assms(1)
proof (induction rule: runs.induct)
  case (step es sy e sy')
  have put: "list_all P ((run_conns sy)[i := r])" if "P r" for i r
    using step.IH that set_update_subset_insert [of "run_conns sy" i r] by (auto simp: list_all_iff)
  show ?case
  proof (cases e)
    case (Turn i io c)
    then obtain st r where t: "i < length (run_conns sy)" "run_conns sy ! i = serving st"
        "run_conns sy' = (run_conns sy)[i := r]" "forget r = forget (round c io st)"
      using step.hyps(2) turn_law by blast
    then have "P (serving st)" using step.IH by (auto simp: list_all_length)
    from assms(2) [OF t(4) [symmetric] assms(4) [OF this]] show ?thesis using put t(3) by simp
  next
    case (Finish i c)
    then obtain st r where t: "i < length (run_conns sy)" "run_conns sy ! i = serving st"
        "run_conns sy' = (run_conns sy)[i := r]" "forget r = forget (close c st)"
      using step.hyps(2) finish_law by blast
    then have "P (serving st)" using step.IH by (auto simp: list_all_length)
    from assms(2) [OF t(4) [symmetric] assms(5) [OF this]] show ?thesis using put t(3) by simp
  qed (use step accept_law accept_fail_law stop_law assms(3) in \<open>fastforce+\<close>)
qed simp

end

section \<open>What a client gets from its connection\<close>

text \<open>\<open>wire\<close> is what has been sent on a connection, \<open>unread\<close> what the peer sent and the loop has not read yet;
  neither depends on the last error or changes when the connection is closed.\<close>

locale connection_service = interleaving step serving continue forget fresh round close
  for step :: "'r running_server \<Rightarrow> server_event \<Rightarrow> 'r running_server \<Rightarrow> bool"
    and serving :: "'st \<Rightarrow> 'r" and continue forget fresh round close +
  fixes closed :: "'st \<Rightarrow> 'r"
    and wire :: "'st \<Rightarrow> bytes"
    and unread :: "'st \<Rightarrow> bytes"
  assumes close_law: "\<exists>st'. close c st = closed st' \<and> wire st' = wire st \<and> unread st' = unread st"
    and continue_closed [simp]: "continue f (closed st) = closed st"
    and forget_serving: "forget r = forget (serving st) \<Longrightarrow> \<exists>st'. r = serving st' \<and> wire st' = wire st \<and> unread st' = unread st"
    and forget_closed: "forget r = forget (closed st) \<Longrightarrow> \<exists>st'. r = closed st' \<and> wire st' = wire st \<and> unread st' = unread st"
begin

lemma after_finish_keeps:
  "\<exists>st'. (after_finish fins (serving st) = serving st' \<or> after_finish fins (serving st) = closed st') \<and>
    wire st' = wire st \<and> unread st' = unread st"
proof -
  have closed: "foldl (\<lambda>r c. continue (close c) r) (closed st) fins = closed st" for st fins
    by (induction fins) simp_all
  show ?thesis
  proof (cases fins)
    case (Cons c cs)
    obtain st' where "close c st = closed st'" "wire st' = wire st" "unread st' = unread st" using close_law by blast
    then show ?thesis by (auto simp: Cons after_finish_def closed)
  qed (auto simp: after_finish_def)
qed

text \<open>A loop whose turn answers one request answers a sequence of them in as many turns.\<close>

lemma turns_answer:
  assumes "length ts = length xs" "good st" "list_all ok xs" "list_all delivered ts"
    and "unread st = concat (map request xs) @ later"
    and "\<And>io c st x later. good st \<Longrightarrow> ok x \<Longrightarrow> delivered (io, c) \<Longrightarrow> unread st = request x @ later \<Longrightarrow>
      \<exists>st'. round c io st = serving st' \<and> good st' \<and> unread st' = later \<and> wire st' = wire st @ reply x"
  shows "\<exists>st'. after_turns ts (serving st) = serving st' \<and> unread st' = later \<and> wire st' = wire st @ concat (map reply xs)"
  using assms(1-5)
proof (induction ts xs arbitrary: st rule: list_induct2)
  case Nil
  then show ?case by (intro exI [of _ st]) (simp add: after_turns_def)
next
  case (Cons t ts x xs)
  obtain io c where t: "t = (io, c)" by (cases t)
  obtain st1 where st1: "round c io st = serving st1" "good st1" "unread st1 = concat (map request xs) @ later"
      "wire st1 = wire st @ reply x"
    using assms(6) [of st x io c "concat (map request xs) @ later"] Cons.prems t by auto
  from Cons.IH [OF st1(2) _ _ st1(3)] Cons.prems st1(4) show ?case by (auto simp: t after_turns_def st1(1))
qed

lemma isolated:
  assumes "runs step es sy" "i < length (accepted es)" "accepted es ! i = (mem, concat (map request xs) @ later)"
    and "st = fresh mem (concat (map request xs) @ later)" "wire st = []" "unread st = concat (map request xs) @ later"
    and "length (turns i es) = length xs" "good st" "list_all ok xs" "list_all delivered (turns i es)"
    and "\<And>io c st x later. good st \<Longrightarrow> ok x \<Longrightarrow> delivered (io, c) \<Longrightarrow> unread st = request x @ later \<Longrightarrow>
      \<exists>st'. round c io st = serving st' \<and> good st' \<and> unread st' = later \<and> wire st' = wire st @ reply x"
  shows "\<exists>st. (run_conns sy ! i = serving st \<or> run_conns sy ! i = closed st) \<and>
    wire st = concat (map reply xs) \<and> unread st = later"
proof -
  have "\<exists>st1. after_turns (turns i es) (serving st) = serving st1 \<and> unread st1 = later \<and> wire st1 = wire st @ concat (map reply xs)"
    by (rule turns_answer [where request = request and good = good and ok = ok and delivered = delivered, OF assms(7-10,6)])
       (rule assms(11))
  then obtain st1 where st1: "after_turns (turns i es) (serving st) = serving st1" "unread st1 = later" "wire st1 = wire st @ concat (map reply xs)"
    by (elim exE conjE)
  have "alone es i = after_finish (finishes i es) (serving st1)"
    unfolding alone_def assms(3) fst_conv snd_conv assms(4) [symmetric] st1(1) ..
  then obtain st2 where st2: "alone es i = serving st2 \<or> alone es i = closed st2" "wire st2 = wire st1" "unread st2 = unread st1"
    using after_finish_keeps [of "finishes i es" st1] by metis
  have "forget (run_conns sy ! i) = forget (alone es i)"
    using run_progress [OF assms(1)] assms(2) by (auto simp: own_progress_def)
  with st2(1) obtain st3 where "run_conns sy ! i = serving st3 \<or> run_conns sy ! i = closed st3" "wire st3 = wire st2" "unread st3 = unread st2"
    using forget_serving [of "run_conns sy ! i" st2] forget_closed [of "run_conns sy ! i" st2] by metis
  then show ?thesis using st2(2,3) st1(2,3) assms(5) by (metis append_Nil)
qed

end

end
