(* ===== verification/Rpc_Concurrent.thy ===== *)
theory Rpc_Concurrent
  imports Rpc_Calls Rpc_Interleave
begin

text \<open>
  The server of \<^verbatim>\<open>src/galay-rpc/kernel/rpc_server.h\<close> with all its connections at work: its accept loop and its
  connection handlers as a step relation, which keeps the contract of \<open>Rpc_Interleave\<close>. A connection whose
  turn is still waiting for its peer takes no further step.
\<close>

section \<open>The steps of the server\<close>

text \<open>The last error after a step of a connection that was given the shared one.\<close>

fun recorded :: "('rb, 'h) serve_result \<Rightarrow> RpcError option \<Rightarrow> RpcError option" where
  "recorded (Serving st) err = ss_last_error st"
| "recorded (Closed st) err = ss_last_error st"
| "recorded r err = err"

text \<open>One turn of the loop of a connection, and the end of the loop, on the shared last error.\<close>

definition turn ::
  "endian \<Rightarrow> 'rb ring_ops \<Rightarrow> IOError \<Rightarrow> ('h \<Rightarrow> memory \<Rightarrow> RpcContext \<Rightarrow> RpcContext option) \<Rightarrow> ('h, 's) services \<Rightarrow>
   IOError option \<Rightarrow> io_event list \<times> io_event list \<Rightarrow> RpcError option \<Rightarrow> ('rb, 'h) serve_state \<Rightarrow> ('rb, 'h) serve_result" where
  "turn en ops sf run services close_result io err st =
     serve_round en ops sf run services close_result io (st\<lparr>ss_last_error := err\<rparr>)"

inductive server_step ::
  "endian \<Rightarrow> 'rb ring_ops \<Rightarrow> (nat \<Rightarrow> 'rb) \<Rightarrow> IOError \<Rightarrow> ('h \<Rightarrow> memory \<Rightarrow> RpcContext \<Rightarrow> RpcContext option) \<Rightarrow> ('h, 's) RpcServer \<Rightarrow>
   ('rb, 'h) serve_result running_server \<Rightarrow> server_event \<Rightarrow> ('rb, 'h) serve_result running_server \<Rightarrow> bool"
  for en ops mk_ring sf run srv where
  accept: "run_flag sy \<Longrightarrow> server_step en ops mk_ring sf run srv sy (Accept mem stream)
      (sy\<lparr>run_conns := run_conns sy @ [Serving (serve_init mk_ring (srv_config srv) mem stream)]\<rparr>)"
| accept_fail: "run_flag sy \<Longrightarrow> server_step en ops mk_ring sf run srv sy (Accept_fail e)
      (sy\<lparr>run_last_error := Some (RpcError_from e INTERNAL_ERROR)\<rparr>)"
| turn: "run_flag sy \<Longrightarrow> i < length (run_conns sy) \<Longrightarrow> run_conns sy ! i = Serving st \<Longrightarrow>
    r = turn en ops sf run (srv_services srv) close_result io (run_last_error sy) st \<Longrightarrow>
    server_step en ops mk_ring sf run srv sy (Turn i io close_result)
      (sy\<lparr>run_conns := (run_conns sy)[i := r], run_last_error := recorded r (run_last_error sy)\<rparr>)"
| finish: "\<not> run_flag sy \<Longrightarrow> i < length (run_conns sy) \<Longrightarrow> run_conns sy ! i = Serving st \<Longrightarrow>
    r = close_conn close_result (st\<lparr>ss_last_error := run_last_error sy\<rparr>) \<Longrightarrow>
    server_step en ops mk_ring sf run srv sy (Finish i close_result)
      (sy\<lparr>run_conns := (run_conns sy)[i := r], run_last_error := recorded r (run_last_error sy)\<rparr>)"
| stop: "server_step en ops mk_ring sf run srv sy Stop (sy\<lparr>run_flag := False\<rparr>)"

inductive_cases server_step_cases:
  "server_step en ops mk_ring sf run srv sy (Accept mem stream) sy'"
  "server_step en ops mk_ring sf run srv sy (Accept_fail e) sy'"
  "server_step en ops mk_ring sf run srv sy (Turn i io c) sy'"
  "server_step en ops mk_ring sf run srv sy (Finish i c) sy'"
  "server_step en ops mk_ring sf run srv sy Stop sy'"

abbreviation server_run ::
  "endian \<Rightarrow> 'rb ring_ops \<Rightarrow> (nat \<Rightarrow> 'rb) \<Rightarrow> IOError \<Rightarrow> ('h \<Rightarrow> memory \<Rightarrow> RpcContext \<Rightarrow> RpcContext option) \<Rightarrow> ('h, 's) RpcServer \<Rightarrow>
   server_event list \<Rightarrow> ('rb, 'h) serve_result running_server \<Rightarrow> bool" where
  "server_run en ops mk_ring sf run srv \<equiv> runs (server_step en ops mk_ring sf run srv)"

section \<open>The contract of the interleaving\<close>

fun serving_then :: "(('rb, 'h) serve_state \<Rightarrow> ('rb, 'h) serve_result) \<Rightarrow> ('rb, 'h) serve_result \<Rightarrow> ('rb, 'h) serve_result" where
  "serving_then f (Serving st) = f st"
| "serving_then f r = r"

text \<open>Everything of a connection but the last error, which it shares.\<close>

fun forget :: "('rb, 'h) serve_result \<Rightarrow> ('rb, 'h) serve_result" where
  "forget (Serving st) = Serving (st\<lparr>ss_last_error := None\<rparr>)"
| "forget (Closed st) = Closed (st\<lparr>ss_last_error := None\<rparr>)"
| "forget r = r"

lemma round_forget:
  "forget (serve_round en ops sf run services close_result io (st\<lparr>ss_last_error := err\<rparr>)) =
   forget (serve_round en ops sf run services close_result io st)"
  by (auto simp: serve_round_def close_conn_def Let_def split: run_result.split sum.split option.split prod.split)

lemma close_forget: "forget (close_conn close_result (st\<lparr>ss_last_error := err\<rparr>)) = forget (close_conn close_result st)"
  by (simp add: close_conn_def)

lemma same_but_error:
  "(st :: ('rb, 'h) serve_state)\<lparr>ss_last_error := None\<rparr> = st'\<lparr>ss_last_error := None\<rparr> \<Longrightarrow> \<exists>err. st = st'\<lparr>ss_last_error := err\<rparr>"
  by (cases st; cases st') auto

lemma forget_eq_Serving: "forget r = forget (Serving st) \<Longrightarrow> \<exists>err. r = Serving (st\<lparr>ss_last_error := err\<rparr>)"
  by (cases r) (auto dest: same_but_error)

lemma forget_eq_Closed: "forget r = forget (Closed st) \<Longrightarrow> \<exists>err. r = Closed (st\<lparr>ss_last_error := err\<rparr>)"
  by (cases r) (auto dest: same_but_error)

lemma forget_then:
  assumes "forget r = forget (Serving st)" "\<And>err st. forget (f (st\<lparr>ss_last_error := err\<rparr>)) = forget (f st)"
  shows "forget (serving_then f r) = forget (f st)"
  using forget_eq_Serving [OF assms(1)] assms(2) by auto

interpretation unary: connection_service "server_step en ops mk_ring sf run srv" Serving serving_then forget
    "serve_init mk_ring (srv_config srv)" "serve_round en ops sf run (srv_services srv)" close_conn Closed ss_wire "unread ops"
  for en ops mk_ring sf run srv
proof
  fix r st c io
  show "forget (serving_then (serve_round en ops sf run (srv_services srv) c io) r) = forget (serve_round en ops sf run (srv_services srv) c io st)"
    if "forget r = forget (Serving st)" using that round_forget by (rule forget_then)
  show "forget (serving_then (close_conn c) r) = forget (close_conn c st)"
    if "forget r = forget (Serving st)" using that close_forget by (rule forget_then)
  show "forget r = forget (Serving st) \<Longrightarrow> \<exists>st'. r = Serving st' \<and> ss_wire st' = ss_wire st \<and> unread ops st' = unread ops st"
    by (drule forget_eq_Serving) (auto simp: unread_def)
  show "forget r = forget (Closed st) \<Longrightarrow> \<exists>st'. r = Closed st' \<and> ss_wire st' = ss_wire st \<and> unread ops st' = unread ops st"
    by (drule forget_eq_Closed) (auto simp: unread_def)
qed (auto elim!: server_step_cases intro: server_step.intros simp: turn_def round_forget close_forget unread_def close_conn_def)

context ring_buffer
begin

text \<open>The loop of one connection between two turns.\<close>

definition between_turns :: "nat \<Rightarrow> ('h, 's) services \<Rightarrow> ('rb, 'h) serve_state \<Rightarrow> bool" where
  "between_turns cap services st \<longleftrightarrow> serving_ok ring_inv services st \<and>
     cn_reader_setting (ss_conn st) = RpcReaderSetting_init \<and> state_capacity ops st = cap"

lemma turn_answers:
  assumes "between_turns cap services st" "handlers_compute run services act"
    and "fields_fit f \<and> length (request_frame f) \<le> cap \<and> length (response_frame (answer services act f)) \<le> k"
    and "delivers (fst io) \<and> cap \<le> length (fst io) \<and> delivers (snd io) \<and> k \<le> length (snd io)"
    and "unread ops st = request_frame f @ later"
  shows "\<exists>st'. serve_round en ops sf run services c io st = Serving st' \<and> between_turns cap services st' \<and>
    unread ops st' = later \<and> ss_wire st' = ss_wire st @ response_frame (answer services act f)"
proof -
  have "request_fits (max_message_size (cn_reader_setting (ss_conn st))) (request_of f)"
    using assms(1,3) request_of_fits by (simp add: RpcReaderSetting_init_def between_turns_def)
  then show ?thesis
    using serve_round_answers [of services st run act "request_of f" "\<lambda>_. 0" f later "fst io" "snd io" en sf c] assms
    by (auto simp: between_turns_def)
qed

end

section \<open>Properties\<close>

text \<open>C3. Connections do not disturb each other. Take any run of the server, with any number of connections
  accepted at any time, their turns interleaved in any way, failed accepts, malformed input, failing
  transports and closes on the other connections, and a stop at any point. A connection on which
  complete requests arrived, and which had one turn for each, has been sent exactly the specified
  answers to its own requests, in order, and what followed them is still unread, whether its loop has
  ended by then or not.\<close>

theorem connections_isolated:
  assumes "ring_buffer ops ring_inv" "handlers_compute run (srv_services srv) act"
    and "server_run en ops mk_ring sf run srv es sy" "i < length (accepted es)"
    and "accepted es ! i = (mem, concat (map request_frame fs) @ later)"
    and "rb = mk_ring (normalizeRingBufferSize (cfg_ring_buffer_size (srv_config srv)))" "ring_inv rb" "ring_content ops mem rb = []"
    and "length (turns i es) = length fs"
    and "list_all (\<lambda>f. fields_fit f \<and> length (request_frame f) \<le> ring_capacity ops rb \<and>
        length (response_frame (answer (srv_services srv) act f)) \<le> k) fs"
    and "list_all (\<lambda>((revs, wevs), c). delivers revs \<and> ring_capacity ops rb \<le> length revs \<and> delivers wevs \<and> k \<le> length wevs) (turns i es)"
  shows "\<exists>st. (run_conns sy ! i = Serving st \<or> run_conns sy ! i = Closed st) \<and>
    ss_wire st = concat (map (\<lambda>f. response_frame (answer (srv_services srv) act f)) fs) \<and> unread ops st = later"
proof -
  let ?st = "serve_init mk_ring (srv_config srv) mem (concat (map request_frame fs) @ later)"
  have st: "ring_buffer.between_turns ops ring_inv (ring_capacity ops rb) (srv_services srv) ?st"
      "ss_wire ?st = []" "unread ops ?st = concat (map request_frame fs) @ later"
    using assms(6-8)
    by (simp_all add: ring_buffer.between_turns_def [OF assms(1)] serving_ok_def serve_init_def unread_def mkRpcConn_def)
  show ?thesis
    by (rule unary.isolated [where request = request_frame and reply = "\<lambda>f. response_frame (answer (srv_services srv) act f)"
        and good = "ring_buffer.between_turns ops ring_inv (ring_capacity ops rb) (srv_services srv)",
        OF assms(3-5) refl st(2,3) assms(9) st(1) assms(10,11)])
       (rule ring_buffer.turn_answers [where k = k, OF assms(1) _ assms(2)], simp_all add: case_prod_beta)
qed

theorem connections_isolated_witness:
  "\<exists>sy st. server_run Little circ_ops mk_circ no_error echo_run echo_server
      (two_connections (request_frame (call_fields 7 [69] [70] UNARY True [1, 2, 3]))) sy \<and>
    (run_conns sy ! 0 = Serving st \<or> run_conns sy ! 0 = Closed st) \<and>
    ss_wire st = response_frame \<lparr>pf_id = 7, pf_mode = UNARY, pf_end = True, pf_error = OK, pf_payload = [1, 2, 3]\<rparr>"
proof -
  let ?f = "call_fields 7 [69] [70] UNARY True [1, 2, 3]"
  obtain sy where sy: "server_run Little circ_ops mk_circ no_error echo_run echo_server (two_connections (request_frame ?f)) sy"
    using unary.two_connections_run by blast
  have cfg: "cfg_ring_buffer_size (srv_config echo_server) = 64"
    by (simp add: echo_server_def server_registerService_def mkRpcServer_def test_config_def)
  have res: "resolveMethodHandler (srv_services echo_server) (route_of ?f) = Inr ()" by code_simp
  have ans: "answer (srv_services echo_server) echo_act ?f = \<lparr>pf_id = 7, pf_mode = UNARY, pf_end = True, pf_error = OK, pf_payload = [1, 2, 3]\<rparr>"
    by (simp only: answer_def res) (simp add: echo_act_def call_fields_def)
  have "fields_fit ?f" "length (request_frame ?f) \<le> 64" "length (response_frame (answer (srv_services echo_server) echo_act ?f)) \<le> 30"
    unfolding ans by (simp_all add: fields_fit_def call_fields_def request_frame_def response_frame_def max_body_eq)
  then show ?thesis
    using connections_isolated [OF circ.ring_buffer_axioms echo_computes sy, of 0 "\<lambda>_. 0" "[?f]" "[]" "mk_circ 64" 30] sy cfg ans
    by (auto simp: two_connections_def delivers_def normalizeRingBufferSize_def)
qed

end
