(* ===== verification/Rpc_Safety.thy ===== *)
theory Rpc_Safety
  imports Rpc_Concurrent Rpc_Echo
begin

text \<open>
  Memory safety of a server and of a client whose peer is not to be trusted. Undefined behaviour is a
  value of the model: a read past the end of a segment of the ring, a read or write outside an owned
  buffer and an I/O vector longer than its memory make a parser \<open>None\<close>, a machine \<open>Undefined\<close> and a
  connection \<open>Serve_undefined\<close>, and a view that reaches past the memory it borrows is not \<open>view_ok\<close>. The theorems say that this value is never reached, whatever bytes the peer
  sends, however the transport cuts them and wherever it fails.
\<close>

section \<open>What a parser hands on\<close>

lemma request_spec_names:
  "request_spec mx c = (p, n, Got v) \<Longrightarrow> \<exists>f. v = Some f \<and> length (qf_service f) < 65536 \<and> length (qf_method f) < 65536"
  by (auto simp: request_spec_def Let_def route_bytes_parse split: if_splits option.splits)

lemma response_spec_some: "response_spec mx c = (p, n, Got v) \<Longrightarrow> v \<noteq> None"
  by (auto simp: response_spec_def Let_def split: if_splits)


context frame_writer
begin

lemma send_safe: "sendable x \<Longrightarrow> send_run sf evs mem (build x) out \<noteq> Undefined"
  using send_prefix [of x sf evs mem out] by auto

end

context ring_buffer
begin

lemma request_read_safe:
  assumes "ring_inv (cn_ring_buffer conn)"
  shows "case read_run ops (request_parseFromRingBuffer en ops) evs mem (getRequest conn r0) stream of
      Undefined \<Rightarrow> False
    | Suspended _ _ _ \<Rightarrow> True
    | Finished r mem' m' rest \<Rightarrow> ring_inv (machine_ring m') \<and>
        (\<forall>b. r = Inr b \<longrightarrow> view_ok (RpcRequest_payloadView (rqs_request (machine_self m'))) \<and> route_names_ok (rqs_request (machine_self m')))"
proof -
  let ?m = "getRequest conn r0"
  have "request.read_ok (ring_capacity ops (cn_ring_buffer conn)) (read_run ops (request_parseFromRingBuffer en ops) evs mem ?m stream)"
    using assms by (intro request.read_safe) (simp_all add: getRequest_machine RpcRequestReadState_def)
  then show ?thesis
    unfolding request.read_ok_def
    by (fastforce simp: request_value_def route_names_ok_def dest!: request_spec_names split: run_result.splits if_splits)
qed

lemma response_read_safe:
  assumes "ring_inv (cn_ring_buffer conn)"
  shows "case read_run ops (response_parseFromRingBuffer en ops) evs mem (getResponse conn r0) stream of
      Undefined \<Rightarrow> False
    | Suspended _ _ _ \<Rightarrow> True
    | Finished r mem' m' rest \<Rightarrow> ring_inv (machine_ring m') \<and>
        (\<forall>b. r = Inr b \<longrightarrow> view_ok (RpcResponse_payloadView (rss_response (machine_self m'))))"
proof -
  let ?m = "getResponse conn r0"
  have "response.read_ok (ring_capacity ops (cn_ring_buffer conn)) (read_run ops (response_parseFromRingBuffer en ops) evs mem ?m stream)"
    using assms by (intro response.read_safe) (simp_all add: getResponse_machine RpcResponseReadState_def)
  then show ?thesis
    unfolding response.read_ok_def
    by (fastforce simp: response_value_def dest!: response_spec_some split: run_result.splits if_splits)
qed

end

section \<open>The server\<close>

text \<open>
  The handlers' part: given a request whose payload can be read and a fresh response, a handler comes
  back, and with a response whose payload can be read.
\<close>

definition handlers_safe :: "('h \<Rightarrow> memory \<Rightarrow> RpcContext \<Rightarrow> RpcContext option) \<Rightarrow> ('h, 's) services \<Rightarrow> bool" where
  "handlers_safe run services \<longleftrightarrow>
     (\<forall>h mem q. resolveMethodHandler services q = Inr h \<and> view_ok (RpcRequest_payloadView q) \<longrightarrow>
        (\<exists>ctx. run h mem \<lparr>cx_request = q, cx_response = new_response q\<rparr> = Some ctx \<and>
          view_ok (RpcResponse_payloadView (cx_response ctx))))"

lemma computing_handlers_safe: "handlers_compute run services act \<Longrightarrow> handlers_safe run services"
  unfolding handlers_compute_def handlers_safe_def request_value_def response_value_def
  by (metis (no_types, lifting) option.distinct(1))

lemma new_response_ok: "view_ok (RpcResponse_payloadView (new_response q))"
  by (simp add: new_response_def mkRpcResponse_def RpcResponse_init_def RpcResponse_payloadView_def view_simps)

lemma dispatch_safe:
  assumes "handlers_safe run services" "cache_ok services cache" "route_names_ok q" "view_ok (RpcRequest_payloadView q)"
  shows "\<exists>resp cache'. dispatch run services mem q cache = Some (resp, cache') \<and> cache_ok services cache' \<and>
    view_ok (RpcResponse_payloadView resp)"
proof -
  obtain cache' where "route_request services q cache = Some (resolveMethodHandler services q, cache')" "cache_ok services cache'"
    using route_request_ok [OF assms(2,3)] by blast
  moreover have "resolveMethodHandler services q = Inr h \<Longrightarrow>
      \<exists>ctx. run h mem \<lparr>cx_request = q, cx_response = new_response q\<rparr> = Some ctx \<and> view_ok (RpcResponse_payloadView (cx_response ctx))" for h
    using assms(1,4) by (auto simp: handlers_safe_def)
  moreover have "view_ok (RpcResponse_payloadView ((new_response q)\<lparr>rs_error_code := code\<rparr>))" for code
    using new_response_ok [of q] by (simp add: RpcResponse_payloadView_def split: if_splits)
  ultimately show ?thesis
    by (cases "resolveMethodHandler services q") (auto simp: dispatch_def Let_def)
qed

definition conn_safe :: "('rb \<Rightarrow> bool) \<Rightarrow> ('h, 's) services \<Rightarrow> ('rb, 'h) serve_result \<Rightarrow> bool" where
  "conn_safe ring_inv services r \<longleftrightarrow> r \<noteq> Serve_undefined \<and> (\<forall>st. r = Serving st \<longrightarrow> serving_ok ring_inv services st)"

lemma conn_safe_forget: "conn_safe ring_inv services (forget r) \<longleftrightarrow> conn_safe ring_inv services r"
  by (cases r) (auto simp: conn_safe_def serving_ok_def)

context ring_buffer
begin

lemma serve_round_safe:
  assumes "serving_ok ring_inv services st" "handlers_safe run services"
  shows "conn_safe ring_inv services (serve_round en ops sf run services close_result io st)"
proof (cases "read_run ops (request_parseFromRingBuffer en ops) (fst io) (ss_mem st) (getRequest (ss_conn st) RpcRequest_init) (ss_stream st)")
  case (Finished r mem m stream)
  have read: "ring_inv (machine_ring m)" "r = Inr b \<Longrightarrow> view_ok (RpcRequest_payloadView (rqs_request (machine_self m)))"
      "r = Inr b \<Longrightarrow> route_names_ok (rqs_request (machine_self m))" for b
    using request_read_safe [of "ss_conn st" en "fst io" "ss_mem st" RpcRequest_init "ss_stream st"] assms(1) Finished
    by (auto simp: serving_ok_def)
  show ?thesis
  proof (cases r)
    case (Inl e)
    then show ?thesis by (simp add: serve_round_def Finished conn_safe_def close_conn_def)
  next
    case (Inr b)
    obtain resp cache where d: "dispatch run services mem (rqs_request (machine_self m)) (ss_cache st) = Some (resp, cache)"
        "cache_ok services cache" "view_ok (RpcResponse_payloadView resp)"
      using dispatch_safe [OF assms(2) _ read(3,2) [OF Inr], of "ss_cache st" mem] assms(1) by (auto simp: serving_ok_def)
    have "send_run sf (snd io) mem (RpcResponseWriteState en resp) (ss_wire st) \<noteq> Undefined"
      using response_writer.send_safe [OF d(3)] .
    then show ?thesis
      using read(1) d(1,2)
      by (auto simp: serve_round_def Finished Inr conn_safe_def close_conn_def serving_ok_def Let_def split: run_result.split sum.split)
  qed
next
  case (Suspended mem m stream)
  then show ?thesis by (simp add: serve_round_def conn_safe_def)
next
  case Undefined
  then show ?thesis
    using request_read_safe [of "ss_conn st" en "fst io" "ss_mem st" RpcRequest_init "ss_stream st"] assms(1) by (simp add: serving_ok_def)
qed

lemma run_safe:
  assumes "server_run en ops mk_ring sf run srv es sy" "handlers_safe run (srv_services srv)"
    and "ring_inv (mk_ring (normalizeRingBufferSize (cfg_ring_buffer_size (srv_config srv))))"
  shows "list_all (conn_safe ring_inv (srv_services srv)) (run_conns sy)"
proof (rule unary.run_invariant [OF assms(1)])
  let ?P = "conn_safe ring_inv (srv_services srv)"
  show "forget r = forget r' \<Longrightarrow> ?P r \<Longrightarrow> ?P r'" for r r' by (metis conn_safe_forget)
  show "?P (Serving (serve_init mk_ring (srv_config srv) mem stream))" for mem stream
    using assms(3) by (simp add: conn_safe_def serving_ok_def serve_init_def mkRpcConn_def)
  show "?P (Serving st) \<Longrightarrow> ?P (serve_round en ops sf run (srv_services srv) c io st)" for c io st
    using serve_round_safe [OF _ assms(2)] by (simp add: conn_safe_def)
  show "?P (Serving st) \<Longrightarrow> ?P (close_conn c st)" for c st by (simp add: conn_safe_def close_conn_def)
qed

end

section \<open>The client\<close>

definition client_ok :: "('rb \<Rightarrow> bool) \<Rightarrow> 'rb RpcClient \<Rightarrow> bool" where
  "client_ok ring_inv cl \<longleftrightarrow> (\<forall>rb. cl_ring_buffer cl = Some rb \<longrightarrow> ring_inv rb)"

lemma call_request_ok:
  assumes "ptr_ok payload len"
  shows "\<exists>q. call_request mem i s m mode e payload len = Some q \<and> view_ok (RpcRequest_payloadView q)"
  using assms
  by (simp add: call_request_def RpcRequest_set_payload_def rdp_Some mkRpcRequest_def RpcRequest_init_def RpcRequest_payloadView_def
      view_simps Let_def)

lemma check_reply_ok: "check_reply q r = Inr (Some r') \<Longrightarrow> r' = r"
  by (auto simp: check_reply_def split: if_splits)

context ring_buffer
begin

lemma call_safe:
  assumes "client_ok ring_inv cl" "ptr_ok payload len"
  shows "case callWithMode en ops sf service meth mode e payload len io net cl of
      Call_undefined \<Rightarrow> False
    | Call_waiting \<Rightarrow> True
    | Returned result net' cl' \<Rightarrow> client_ok ring_inv cl' \<and>
        (\<forall>resp. result = Inr (Some resp) \<longrightarrow> view_ok (RpcResponse_payloadView resp))"
proof (cases "cl_socket cl \<and> cl_ring_buffer cl \<noteq> None")
  case True
  then obtain rb where rb: "cl_socket cl" "cl_ring_buffer cl = Some rb" "ring_inv rb"
    using assms(1) by (auto simp: client_ok_def)
  obtain q where q: "call_request (nw_mem net) (cl_request_id cl) service meth mode e payload len = Some q" "view_ok (RpcRequest_payloadView q)"
    using call_request_ok [OF assms(2)] by blast
  have send: "send_run sf (fst io) (nw_mem net) (RpcRequestWriteState en q) (nw_wire net) \<noteq> Undefined"
    using request_writer.send_safe [OF q(2)] .
  let ?conn = "\<lparr>cn_ring_buffer = rb, cn_reader_setting = cc_reader_setting (cl_config cl)\<rparr>"
  note read = response_read_safe [of ?conn en "snd io" _ RpcResponse_init]
  show ?thesis
    using rb q send assms(1) read
    by (fastforce simp: callWithMode_def client_ok_def Let_def dest: check_reply_ok split: run_result.splits sum.splits)
next
  case False
  then show ?thesis using assms(1) by (auto simp: callWithMode_def split: option.split bool.split)
qed

end

text \<open>The states of a client: it is made, connects, makes calls and opens sessions, in any order.\<close>

inductive client_reachable ::
  "endian \<Rightarrow> 'rb ring_ops \<Rightarrow> (nat \<Rightarrow> 'rb) \<Rightarrow> IOError \<Rightarrow> RpcClientConfig \<Rightarrow> 'rb RpcClient \<Rightarrow> bool"
  for en ops mk_ring sf config where
  made: "client_reachable en ops mk_ring sf config (mkRpcClient config)"
| connected: "client_reachable en ops mk_ring sf config cl \<Longrightarrow> client_reachable en ops mk_ring sf config (client_connect mk_ring cl)"
| called: "client_reachable en ops mk_ring sf config cl \<Longrightarrow> ptr_ok payload len \<Longrightarrow>
    callWithMode en ops sf service meth mode e payload len io net cl = Returned result net' cl' \<Longrightarrow>
    client_reachable en ops mk_ring sf config cl'"
| opened: "client_reachable en ops mk_ring sf config cl \<Longrightarrow> createStream service meth cl = (result, cl') \<Longrightarrow>
    client_reachable en ops mk_ring sf config cl'"

text \<open>The socket and the ring of a client are there together, so close and the reader are defined exactly for a client
  on which a session could be opened; on a client that has never connected both are undefined.\<close>

lemma client_parts:
  "client_reachable en ops mk_ring sf config cl \<Longrightarrow> cl_socket cl \<longleftrightarrow> cl_ring_buffer cl \<noteq> None"
proof (induction rule: client_reachable.induct)
  case (called cl payload len service meth mode e io net result net' cl')
  then show ?case
    by (auto simp: callWithMode_def Let_def split: option.splits run_result.splits sum.splits bool.splits)
qed (auto simp: mkRpcClient_def client_connect_def createStream_def Let_def)

lemma client_members_defined:
  assumes "client_reachable en ops mk_ring sf config cl"
  shows "client_close cl = None \<longleftrightarrow> (\<exists>e. createStream_id i service meth cl = Inl e)"
    "client_getReader cl = None \<longleftrightarrow> client_close cl = None"
  using client_parts [OF assms]
  by (auto simp: client_close_def client_getReader_def client_ringBuffer_def createStream_id_def split: option.split bool.split)

lemma unconnected_close_undefined: "client_close (mkRpcClient config) = None"
  by (simp add: client_close_def mkRpcClient_def)

context ring_buffer
begin

lemma client_reachable_ok:
  assumes "client_reachable en ops mk_ring sf config cl" "\<And>n. 0 < n \<Longrightarrow> ring_inv (mk_ring n)"
  shows "client_ok ring_inv cl"
  using assms(1)
proof (induction rule: client_reachable.induct)
  case (called cl payload len service meth mode e io net result net' cl')
  then show ?case using call_safe [OF called.IH called.hyps(2), of en sf service meth mode e io net] by simp
qed (auto simp: client_ok_def mkRpcClient_def client_connect_def createStream_def kDefaultRpcRingBufferSize_def Let_def
    intro!: assms(2) split: sum.splits if_splits option.splits)

end

section \<open>Properties\<close>

text \<open>C4. The server is memory safe against its peers. In every run of the server with any number of connections,
  whatever bytes arrive on them, however they are cut, wherever a read, a write, an accept or a close
  fails and whenever the server is stopped, no connection ever reaches undefined behaviour, and the
  ring and the route cache of each connection that is still served are in order; the handlers only have
  to come back with a response whose payload can be read.\<close>

theorem server_memory_safe:
  assumes "ring_buffer ops ring_inv" "handlers_safe run (srv_services srv)"
    and "ring_inv (mk_ring (normalizeRingBufferSize (cfg_ring_buffer_size (srv_config srv))))"
    and "server_run en ops mk_ring sf run srv es sy"
  shows "Serve_undefined \<notin> set (run_conns sy) \<and>
    (\<forall>st. Serving st \<in> set (run_conns sy) \<longrightarrow> ring_inv (cn_ring_buffer (ss_conn st)) \<and> cache_ok (srv_services srv) (ss_cache st))"
  using ring_buffer.run_safe [OF assms(1,4,2,3)] by (auto simp: list_all_iff conn_safe_def serving_ok_def)

theorem server_memory_safe_witness:
  "\<exists>sy. server_run Little circ_ops mk_circ no_error (EchoService_run Little) (e1_server 4 default_affinity 9000)
      (two_connections (replicate 100 0)) sy \<and> Serve_undefined \<notin> set (run_conns sy)"
proof -
  let ?srv = "e1_server 4 default_affinity 9000"
  obtain sy where sy: "server_run Little circ_ops mk_circ no_error (EchoService_run Little) ?srv (two_connections (replicate 100 0)) sy"
    using unary.two_connections_run by blast
  have "circ_inv (mk_circ (normalizeRingBufferSize (cfg_ring_buffer_size (srv_config ?srv))))"
    by (simp add: e1_ring kDefaultRpcRingBufferSize_def normalizeRingBufferSize_def)
  then show ?thesis
    using server_memory_safe [OF circ.ring_buffer_axioms computing_handlers_safe [OF EchoService_computes] _ sy] sy by blast
qed

text \<open>C5. The client is memory safe against its server. A client that has been through any sequence of connects,
  calls and session openings, with whatever its servers sent and the transport did, never reaches
  undefined behaviour in its next call: the call waits, or it returns, and then the payload of the
  response, if there is one, can be read. The caller only has to pass a payload that it may read itself,
  and the kernel has to provide rings of the size asked for.\<close>

theorem client_memory_safe:
  assumes "ring_buffer ops ring_inv" "\<And>n. 0 < n \<Longrightarrow> ring_inv (mk_ring n)"
    and "client_reachable en ops mk_ring sf config cl" "ptr_ok payload len"
  shows "callWithMode en ops sf service meth mode e payload len io net cl \<noteq> Call_undefined \<and>
    (\<forall>resp net' cl'. callWithMode en ops sf service meth mode e payload len io net cl = Returned (Inr (Some resp)) net' cl' \<longrightarrow>
      view_ok (RpcResponse_payloadView resp) \<and>
      (\<exists>r'. RpcResponse_payload (nw_mem net') resp = Some (view_bytes (nw_mem net') (RpcResponse_payloadView resp), r')))"
proof -
  note safe = ring_buffer.call_safe [OF assms(1) ring_buffer.client_reachable_ok [OF assms(1,3,2)] assms(4),
      of en sf service meth mode e io net]
  have "\<exists>r'. RpcResponse_payload mem resp = Some (view_bytes mem (RpcResponse_payloadView resp), r')"
    if "view_ok (RpcResponse_payloadView resp)" for mem resp
    using response_payload.materialize_bytes [OF that, of mem] by (fastforce simp: RpcResponse_payload_def)
  then show ?thesis using safe by (auto split: call_outcome.splits)
qed

theorem client_memory_safe_witness:
  "callWithMode Little circ_ops no_error [69] [70] UNARY True (Buf [1, 2] 0) 2 (replicate 30 (Deliver 3), replicate 30 (Deliver 7))
      \<lparr>nw_mem = \<lambda>_. 0, nw_stream = replicate 40 255, nw_wire = []\<rparr>
      (client_connect mk_circ (mkRpcClient RpcClientConfig_init)) \<noteq> Call_undefined"
proof -
  have "client_reachable Little circ_ops mk_circ no_error RpcClientConfig_init (client_connect mk_circ (mkRpcClient RpcClientConfig_init))"
    by (intro client_reachable.intros)
  then show ?thesis
    using client_memory_safe [OF circ.ring_buffer_axioms _ _, of mk_circ Little no_error RpcClientConfig_init _ "Buf [1, 2] 0" 2]
    by simp
qed

end
