(* ===== verification/Rpc_Streamconc.thy ===== *)
theory Rpc_Streamconc
  imports Rpc_Streaming Rpc_Interleave Rpc_Echo
begin

text \<open>
  The stream server of \<^verbatim>\<open>src/galay-rpc/kernel/streamsvc.h\<close> with all its connections at work. Its accept loop and
  its connection handlers make a step relation that keeps the contract of \<open>Rpc_Interleave\<close>: a turn of a
  connection reads one opening frame, answers it, and runs the session to its end. A connection whose
  socket cannot be made non-blocking is closed before its loop begins; all that remains of it is the
  recorded error, so its step is the one of a failed accept.
\<close>

section \<open>The steps of the server\<close>

definition stream_fresh :: "(nat \<Rightarrow> 'rb) \<Rightarrow> RpcServerConfig \<Rightarrow> memory \<Rightarrow> bytes \<Rightarrow> 'rb stream_conn" where
  "stream_fresh mk_ring config mem stream =
     \<lparr>sc_mem = mem, sc_ring = mk_ring (if cfg_ring_buffer_size config = 0 then 128 * 1024 else cfg_ring_buffer_size config),
      sc_stream = stream, sc_wire = [], sc_last_error = None\<rparr>"

text \<open>The last error after a step of a connection that was given the shared one.\<close>

fun stream_recorded :: "'rb stream_result \<Rightarrow> RpcError option \<Rightarrow> RpcError option" where
  "stream_recorded (SServing st) err = sc_last_error st"
| "stream_recorded (SClosed st) err = sc_last_error st"
| "stream_recorded r err = err"

definition stream_turn ::
  "endian \<Rightarrow> 'rb ring_ops \<Rightarrow> IOError \<Rightarrow> ('s \<Rightarrow> 'rb RpcStream \<Rightarrow> 'rb stream_conn \<Rightarrow> 'rb stream_result) \<Rightarrow> ('h, 's) services \<Rightarrow>
   IOError option \<Rightarrow> io_event list \<times> io_event list \<Rightarrow> RpcError option \<Rightarrow> 'rb stream_conn \<Rightarrow> 'rb stream_result" where
  "stream_turn en ops sf run services close_result io err st =
     stream_round en ops sf run services close_result io (st\<lparr>sc_last_error := err\<rparr>)"

inductive stream_step ::
  "endian \<Rightarrow> 'rb ring_ops \<Rightarrow> (nat \<Rightarrow> 'rb) \<Rightarrow> IOError \<Rightarrow> ('s \<Rightarrow> 'rb RpcStream \<Rightarrow> 'rb stream_conn \<Rightarrow> 'rb stream_result) \<Rightarrow>
   ('h, 's) RpcServer \<Rightarrow> 'rb stream_result running_server \<Rightarrow> server_event \<Rightarrow> 'rb stream_result running_server \<Rightarrow> bool"
  for en ops mk_ring sf run srv where
  accept: "run_flag sy \<Longrightarrow> stream_step en ops mk_ring sf run srv sy (Accept mem stream)
      (sy\<lparr>run_conns := run_conns sy @ [SServing (stream_fresh mk_ring (srv_config srv) mem stream)]\<rparr>)"
| accept_fail: "run_flag sy \<Longrightarrow> stream_step en ops mk_ring sf run srv sy (Accept_fail e)
      (sy\<lparr>run_last_error := Some (RpcError_from e INTERNAL_ERROR)\<rparr>)"
| turn: "run_flag sy \<Longrightarrow> i < length (run_conns sy) \<Longrightarrow> run_conns sy ! i = SServing st \<Longrightarrow>
    r = stream_turn en ops sf run (srv_services srv) close_result io (run_last_error sy) st \<Longrightarrow>
    stream_step en ops mk_ring sf run srv sy (Turn i io close_result)
      (sy\<lparr>run_conns := (run_conns sy)[i := r], run_last_error := stream_recorded r (run_last_error sy)\<rparr>)"
| finish: "\<not> run_flag sy \<Longrightarrow> i < length (run_conns sy) \<Longrightarrow> run_conns sy ! i = SServing st \<Longrightarrow>
    r = stream_close close_result (st\<lparr>sc_last_error := run_last_error sy\<rparr>) \<Longrightarrow>
    stream_step en ops mk_ring sf run srv sy (Finish i close_result)
      (sy\<lparr>run_conns := (run_conns sy)[i := r], run_last_error := stream_recorded r (run_last_error sy)\<rparr>)"
| stop: "stream_step en ops mk_ring sf run srv sy Stop (sy\<lparr>run_flag := False\<rparr>)"

inductive_cases stream_step_cases:
  "stream_step en ops mk_ring sf run srv sy (Accept mem stream) sy'"
  "stream_step en ops mk_ring sf run srv sy (Accept_fail e) sy'"
  "stream_step en ops mk_ring sf run srv sy (Turn i io c) sy'"
  "stream_step en ops mk_ring sf run srv sy (Finish i c) sy'"
  "stream_step en ops mk_ring sf run srv sy Stop sy'"

abbreviation stream_run ::
  "endian \<Rightarrow> 'rb ring_ops \<Rightarrow> (nat \<Rightarrow> 'rb) \<Rightarrow> IOError \<Rightarrow> ('s \<Rightarrow> 'rb RpcStream \<Rightarrow> 'rb stream_conn \<Rightarrow> 'rb stream_result) \<Rightarrow>
   ('h, 's) RpcServer \<Rightarrow> server_event list \<Rightarrow> 'rb stream_result running_server \<Rightarrow> bool" where
  "stream_run en ops mk_ring sf run srv \<equiv> runs (stream_step en ops mk_ring sf run srv)"

section \<open>The contract of the interleaving\<close>

fun stream_then :: "('rb stream_conn \<Rightarrow> 'rb stream_result) \<Rightarrow> 'rb stream_result \<Rightarrow> 'rb stream_result" where
  "stream_then f (SServing st) = f st"
| "stream_then f r = r"

text \<open>A result with another last error, and everything of a connection but the last error.\<close>

fun with_error :: "RpcError option \<Rightarrow> 'rb stream_result \<Rightarrow> 'rb stream_result" where
  "with_error err (SServing st) = SServing (st\<lparr>sc_last_error := err\<rparr>)"
| "with_error err (SClosed st) = SClosed (st\<lparr>sc_last_error := err\<rparr>)"
| "with_error err r = r"

lemma with_error_twice [simp]: "with_error a (with_error b r) = with_error a r"
  by (cases r) simp_all

lemma same_conn: "(st :: 'rb stream_conn)\<lparr>sc_last_error := None\<rparr> = st'\<lparr>sc_last_error := None\<rparr> \<Longrightarrow> \<exists>err. st = st'\<lparr>sc_last_error := err\<rparr>"
  by (cases st; cases st') auto

lemma with_error_Serving: "with_error None r = with_error None (SServing st) \<Longrightarrow> \<exists>err. r = SServing (st\<lparr>sc_last_error := err\<rparr>)"
  by (cases r) (auto dest: same_conn)

lemma with_error_Closed: "with_error None r = with_error None (SClosed st) \<Longrightarrow> \<exists>err. r = SClosed (st\<lparr>sc_last_error := err\<rparr>)"
  by (cases r) (auto dest: same_conn)

lemma stream_then_forget:
  assumes "with_error None r = with_error None (SServing st)"
    and "\<And>err st. with_error None (f (st\<lparr>sc_last_error := err\<rparr>)) = with_error None (f st)"
  shows "with_error None (stream_then f r) = with_error None (f st)"
  using with_error_Serving [OF assms(1)] assms(2) by auto

lemma stream_close_forget:
  "with_error None (stream_close c (st\<lparr>sc_last_error := err\<rparr>)) = with_error None (stream_close c st)"
  by (simp add: stream_close_def)

text \<open>A session handler is given its session only: what it does cannot depend on the last error.\<close>

locale blind_sessions =
  fixes run :: "'s \<Rightarrow> 'rb RpcStream \<Rightarrow> 'rb stream_conn \<Rightarrow> 'rb stream_result"
  assumes blind: "with_error None (run h s (st\<lparr>sc_last_error := err\<rparr>)) = with_error None (run h s st)"
begin

lemma control_forget:
  assumes "\<And>err st. with_error None (next (st\<lparr>sc_last_error := err\<rparr>)) = with_error None (next st)"
  shows "with_error None (send_control sf c evs ws next (st\<lparr>sc_last_error := err\<rparr>)) = with_error None (send_control sf c evs ws next st)"
proof -
  have "st\<lparr>sc_last_error := err, sc_wire := wire\<rparr> = st\<lparr>sc_wire := wire, sc_last_error := err\<rparr>" for wire by simp
  then have "with_error None (next (st\<lparr>sc_last_error := err, sc_wire := wire\<rparr>)) = with_error None (next (st\<lparr>sc_wire := wire\<rparr>))" for wire
    using assms [of err "st\<lparr>sc_wire := wire\<rparr>"] by metis
  then show ?thesis
    by (auto simp: send_control_def stream_close_def Let_def split: run_result.split sum.split)
qed

lemma refuse_forget:
  "with_error None (refuse_stream en sf c evs e s (st\<lparr>sc_last_error := err\<rparr>)) = with_error None (refuse_stream en sf c evs e s st)"
  by (simp add: refuse_stream_def)

lemma stream_round_forget:
  "with_error None (stream_round en ops sf run services c io (st\<lparr>sc_last_error := err\<rparr>)) =
   with_error None (stream_round en ops sf run services c io st)"
proof (cases "read_run ops (stream_parseFromRingBuffer en ops) (fst io) (sc_mem st) (getMessage (sc_ring st) StreamMessage_init) (sc_stream st)")
  case (Finished r mem m rest)
  have comm: "st\<lparr>sc_last_error := err, sc_mem := mem, sc_ring := machine_ring m, sc_stream := rest\<rparr> =
      st\<lparr>sc_mem := mem, sc_ring := machine_ring m, sc_stream := rest, sc_last_error := err\<rparr>" by simp
  show ?thesis
    unfolding stream_round_def
    by (auto simp: Finished comm Let_def refuse_forget control_forget blind stream_close_forget split: sum.split option.split prod.split bool.split)
qed (simp_all add: stream_round_def)

end

sublocale blind_sessions \<subseteq> conns: connection_service "stream_step en ops mk_ring sf run srv" SServing stream_then "with_error None"
    "stream_fresh mk_ring (srv_config srv)" "stream_round en ops sf run (srv_services srv)" stream_close SClosed sc_wire "sunread ops"
  for en ops mk_ring sf srv
proof
  fix r st c io
  show "with_error None (stream_then (stream_round en ops sf run (srv_services srv) c io) r) =
      with_error None (stream_round en ops sf run (srv_services srv) c io st)"
    if "with_error None r = with_error None (SServing st)" using that stream_round_forget by (rule stream_then_forget)
  show "with_error None (stream_then (stream_close c) r) = with_error None (stream_close c st)"
    if "with_error None r = with_error None (SServing st)" using that stream_close_forget by (rule stream_then_forget)
  show "with_error None r = with_error None (SServing st) \<Longrightarrow> \<exists>st'. r = SServing st' \<and> sc_wire st' = sc_wire st \<and> sunread ops st' = sunread ops st"
    by (drule with_error_Serving) (auto simp: sunread_def)
  show "with_error None r = with_error None (SClosed st) \<Longrightarrow> \<exists>st'. r = SClosed st' \<and> sc_wire st' = sc_wire st \<and> sunread ops st' = sunread ops st"
    by (drule with_error_Closed) (auto simp: sunread_def)
qed (auto elim!: stream_step_cases intro: stream_step.intros simp: stream_turn_def stream_round_forget sunread_def stream_close_def)

text \<open>The session method of the example server is such a handler.\<close>

abbreviation set_error :: "RpcError option \<Rightarrow> 'a \<times> 'rb stream_conn \<Rightarrow> 'a \<times> 'rb stream_conn" where
  "set_error err \<equiv> map_prod id (\<lambda>st. st\<lparr>sc_last_error := err\<rparr>)"

lemma await_error:
  "await_read en ops evs s (st\<lparr>sc_last_error := err\<rparr>) = map_awaited (set_error err) (await_read en ops evs s st)"
  "await_send sf evs ws (st\<lparr>sc_last_error := err\<rparr>) = map_awaited (set_error err) (await_send sf evs ws st)"
  by (auto simp: await_read_def await_send_def split: run_result.split)

lemma echo_error:
  "StreamExampleService_echo en ops sf ios s frames bytes (st\<lparr>sc_last_error := err\<rparr>) =
    with_error err (StreamExampleService_echo en ops sf ios s frames bytes st)"
proof (induction ios arbitrary: frames bytes st)
  case (Cons io ios)
  obtain revs wevs eevs where io: "io = (revs, wevs, eevs)" by (cases io)
  show ?case
    by (auto simp: io await_error Cons.IH Let_def split: awaited.split prod.split sum.split option.split)
qed simp

interpretation example_sessions: blind_sessions "\<lambda>_ s. StreamExampleService_echo en ops sf ios s 0 0" for en ops sf ios
  by unfold_locales (simp add: echo_error)

context blind_sessions
begin

lemma sessions_isolated:
  assumes "ring_buffer ops ring_inv" "stream_run en ops mk_ring sf run srv es sy" "i < length (accepted es)"
    and "accepted es ! i = (mem, concat (map session_request ses) @ later)"
    and "rb = mk_ring (if cfg_ring_buffer_size (srv_config srv) = 0 then 128 * 1024 else cfg_ring_buffer_size (srv_config srv))"
    and "ring_inv rb" "ring_content ops mem rb = []"
    and "length (turns i es) = length ses"
    and "list_all (session_ok ops ring_inv (ring_capacity ops rb) run (srv_services srv)) ses"
    and "list_all (\<lambda>((revs, wevs), c). delivers revs \<and> ring_capacity ops rb \<le> length revs \<and> delivers wevs \<and> 16 \<le> length wevs) (turns i es)"
  shows "\<exists>st. (run_conns sy ! i = SServing st \<or> run_conns sy ! i = SClosed st) \<and>
    sc_wire st = concat (map (session_reply (srv_services srv)) ses) \<and> sunread ops st = later"
proof -
  let ?st = "stream_fresh mk_ring (srv_config srv) mem (concat (map session_request ses) @ later)"
  let ?good = "\<lambda>st. ring_inv (sc_ring st) \<and> ring_capacity ops (sc_ring st) = ring_capacity ops rb"
  have st: "?good ?st" "sc_wire ?st = []" "sunread ops ?st = concat (map session_request ses) @ later"
    using assms(5-7) by (simp_all add: stream_fresh_def sunread_def)
  have round: "\<exists>st'. stream_round en ops sf run (srv_services srv) c io st = SServing st' \<and> ?good st' \<and> sunread ops st' = later \<and>
        sc_wire st' = sc_wire st @ session_reply (srv_services srv) se"
    if "?good st" "session_ok ops ring_inv (ring_capacity ops rb) run (srv_services srv) se" "sunread ops st = session_request se @ later"
      "delivers (fst io) \<and> ring_capacity ops rb \<le> length (fst io) \<and> delivers (snd io) \<and> 16 \<le> length (snd io)"
    for io c st se later
    using ring_buffer.session_served [OF assms(1), of st run "srv_services srv" se later "fst io" "snd io" en sf c] that by auto
  show ?thesis
    by (rule conns.isolated [where request = session_request and reply = "session_reply (srv_services srv)" and good = ?good,
        OF assms(2-4) refl st(2,3) assms(8) st(1) assms(9,10)]) (rule round, simp_all add: case_prod_beta)
qed

end

section \<open>Properties\<close>

text \<open>C6. The connections of the stream server do not disturb each other. Take any run of the stream server, with any
  number of connections, their turns interleaved in any way, failed accepts, malformed frames, failing
  transports and closes on the other connections, and a stop at any point. A connection on which opening
  frames arrived, each with the input of its session, and which had one turn for each, has been sent
  exactly the specified replies in order: an acknowledgement and the output of the session, or a cancel
  frame; and what followed them is still unread.\<close>

theorem stream_connections_isolated:
  assumes "ring_buffer ops ring_inv" "blind_sessions run"
    and "stream_run en ops mk_ring sf run srv es sy" "i < length (accepted es)"
    and "accepted es ! i = (mem, concat (map session_request ses) @ later)"
    and "rb = mk_ring (if cfg_ring_buffer_size (srv_config srv) = 0 then 128 * 1024 else cfg_ring_buffer_size (srv_config srv))"
    and "ring_inv rb" "ring_content ops mem rb = []"
    and "length (turns i es) = length ses"
    and "list_all (session_ok ops ring_inv (ring_capacity ops rb) run (srv_services srv)) ses"
    and "list_all (\<lambda>((revs, wevs), c). delivers revs \<and> ring_capacity ops rb \<le> length revs \<and> delivers wevs \<and> 16 \<le> length wevs) (turns i es)"
  shows "\<exists>st. (run_conns sy ! i = SServing st \<or> run_conns sy ! i = SClosed st) \<and>
    sc_wire st = concat (map (session_reply (srv_services srv)) ses) \<and> sunread ops st = later"
  by (rule blind_sessions.sessions_isolated [where mk_ring = mk_ring, OF assms(2,1,3-11)])

theorem stream_connections_isolated_witness:
  "\<exists>sy st. stream_run Big circ_ops mk_circ no_error
      (\<lambda>_ s. StreamExampleService_echo Big circ_ops no_error [(replicate 64 (Deliver 3), replicate 130 (Deliver 5), replicate 16 (Deliver 1))] s 0 0)
      (e3_server 4 default_affinity 9100 1 64) (two_connections (session_request (example_session Little 0 0))) sy \<and>
    (run_conns sy ! 0 = SServing st \<or> run_conns sy ! 0 = SClosed st) \<and>
    sc_wire st = stream_frame STREAM_INIT_ACK 1 [] @ stream_frame STREAM_DATA 1 (stream_report 0 0) @ stream_frame STREAM_END 1 []"
proof -
  let ?run = "\<lambda>_ s. StreamExampleService_echo Big circ_ops no_error [(replicate 64 (Deliver 3), replicate 130 (Deliver 5), replicate 16 (Deliver 1))] s 0 0"
  let ?srv = "e3_server 4 default_affinity 9100 1 64" and ?se = "example_session Little 0 0"
  obtain sy where sy: "stream_run Big circ_ops mk_circ no_error ?run ?srv (two_connections (session_request ?se)) sy"
    using example_sessions.conns.two_connections_run by blast
  have cfg: "cfg_ring_buffer_size (srv_config ?srv) = 64"
    by (simp add: e3_server_def stream_builder_agrees server_registerService_def mkRpcServer_def builder_ringBufferSize_def Let_def)
  have ok: "session_ok circ_ops circ_inv 64 ?run (srv_services ?srv) ?se"
    by (rule circ.example_session_ok) (simp_all add: handler_schedule_ok_def delivers_def)
  have reply: "session_reply (srv_services ?srv) ?se =
      stream_frame STREAM_INIT_ACK 1 [] @ stream_frame STREAM_DATA 1 (stream_report 0 0) @ stream_frame STREAM_END 1 []"
    by (simp add: session_reply_def example_session_def example_opened server_frames_def e4_frames_def)
  show ?thesis
    using stream_connections_isolated [OF circ.ring_buffer_axioms example_sessions.blind_sessions_axioms sy, of 0 "\<lambda>_. 0" "[?se]" "[]" "mk_circ 64"] sy cfg ok reply
    by (auto simp: two_connections_def delivers_def)
qed

end
