(* ===== verification/Rpc_Streamsafe.thy ===== *)
theory Rpc_Streamsafe
  imports Rpc_Safety Rpc_Streamconc
begin

text \<open>
  Memory safety of the stream server and of the streaming programs, in the sense of \<open>Rpc_Safety\<close>: whatever
  the peer of a stream connection sends, and whatever the transport does, no read, no send and no
  access to the payload of a frame leaves its buffer.
\<close>

section \<open>Awaited operations\<close>

lemma stream_spec_value: "stream_spec p c = (p', n, Got v) \<Longrightarrow> v \<noteq> None"
  by (cases p) (auto simp: Let_def split: if_splits)

text \<open>What the awaited operations give back: a result, and a connection whose ring is in order.\<close>

definition awaited_ok :: "('rb \<Rightarrow> bool) \<Rightarrow> ('a \<Rightarrow> bool) \<Rightarrow> ((RpcError + 'a) \<times> 'rb stream_conn) awaited \<Rightarrow> bool" where
  "awaited_ok ring_inv P r \<longleftrightarrow> (case r of Undef \<Rightarrow> False | Waits \<Rightarrow> True
     | Done (result, st) \<Rightarrow> ring_inv (sc_ring st) \<and> (\<forall>x. result = Inr x \<longrightarrow> P x))"

lemma awaited_cases [consumes 1, case_names waits failed succeeded]:
  assumes "awaited_ok ring_inv P r"
  obtains "r = Waits" | e st where "r = Done (Inl e, st)" "ring_inv (sc_ring st)"
    | x st where "r = Done (Inr x, st)" "ring_inv (sc_ring st)" "P x"
  using assms by (cases r) (auto simp: awaited_ok_def split: sum.splits prod.splits, metis sumE)

definition session_safe :: "('rb \<Rightarrow> bool) \<Rightarrow> 'rb stream_result \<Rightarrow> bool" where
  "session_safe ring_inv r \<longleftrightarrow> r \<noteq> SUndefined \<and> (\<forall>st. r = SServing st \<longrightarrow> ring_inv (sc_ring st))"

lemma session_safe_simps [simp]:
  "session_safe ring_inv (SServing st) \<longleftrightarrow> ring_inv (sc_ring st)" "session_safe ring_inv (SClosed st)"
  "session_safe ring_inv SWaiting" "\<not> session_safe ring_inv SUndefined"
  by (simp_all add: session_safe_def)

lemma stream_close_safe [simp]: "session_safe ring_inv (stream_close close_result st)"
  by (simp add: stream_close_def)

text \<open>The frames of a session can be sent: control frames and init frames always, data frames if the caller may
  read the data.\<close>

lemma frames_send:
  "send_run sf evs mem (sendInit en s) out \<noteq> Undefined"
  "send_run sf evs mem (StreamFrameWriteState_control en i t) out \<noteq> Undefined"
  "ptr_ok data len \<Longrightarrow> send_run sf evs mem (sendData en mem data len s) out \<noteq> Undefined"
proof -
  show "send_run sf evs mem (sendInit en s) out \<noteq> Undefined"
    using init_writer.send_safe [where x = "(rst_writer_stream_id s, rst_service_name s, rst_method_name s)" and en = en] by (simp add: sendInit_def)
  show "send_run sf evs mem (StreamFrameWriteState_control en i t) out \<noteq> Undefined"
    using control_writer.send_safe [where x = "(i, t)" and en = en] by simp
  assume "ptr_ok data len"
  then obtain b where b: "(if len > 0 then rdp mem data len else Some []) = Some b"
    by (cases "0 < len") (simp_all add: rdp_Some)
  then show "send_run sf evs mem (sendData en mem data len s) out \<noteq> Undefined"
    using data_writer.send_safe [where x = "(rst_writer_stream_id s, frame_payloadView b)" and en = en] frame_view_bytes
    by (simp add: sendData_def StreamFrameWriteState_copy_def StreamFrameWriteState_view_def)
qed

lemma await_send_safe:
  assumes "ring_inv (sc_ring st)" "send_run sf evs (sc_mem st) ws (sc_wire st) \<noteq> Undefined"
  shows "awaited_ok ring_inv (\<lambda>_. True) (await_send sf evs ws st)"
  using assms by (simp add: awaited_ok_def await_send_def split: run_result.split)

lemma send_control_safe:
  assumes "send_run sf evs (sc_mem st) ws (sc_wire st) \<noteq> Undefined" "\<And>wire. session_safe ring_inv (next (st\<lparr>sc_wire := wire\<rparr>))"
  shows "session_safe ring_inv (send_control sf close_result evs ws next st)"
  using assms by (simp add: send_control_def Let_def split: run_result.split sum.split)

lemma refuse_stream_safe:
  "ring_inv (sc_ring st) \<Longrightarrow> session_safe ring_inv (refuse_stream en sf close_result evs err s st)"
  unfolding refuse_stream_def sendCancel_def by (intro send_control_safe frames_send) simp

context ring_buffer
begin

lemma frame_read_safe:
  assumes "ring_inv rb"
  shows "case read_run ops (stream_parseFromRingBuffer en ops) evs mem (getMessage rb msg) stream of
      Undefined \<Rightarrow> False
    | Suspended _ _ _ \<Rightarrow> True
    | Finished r mem' m' rest \<Rightarrow> ring_inv (machine_ring m') \<and>
        (\<forall>b. r = Inr b \<longrightarrow> view_ok (StreamMessage_payloadView (sr_message (machine_self m'))))"
proof -
  have "stream.read_ok (ring_capacity ops rb) (read_run ops (stream_parseFromRingBuffer en ops) evs mem (getMessage rb msg) stream)"
    using assms by (intro stream.read_safe) (simp_all add: getMessage_machine StreamMessageReadState_def)
  then show ?thesis
    unfolding stream.read_ok_def
    by (fastforce simp: stream_value_def dest!: stream_spec_value split: run_result.splits if_splits)
qed

lemma await_read_safe:
  assumes "ring_inv (sc_ring st)"
  shows "awaited_ok ring_inv (\<lambda>msg. view_ok (StreamMessage_payloadView msg)) (await_read en ops evs s st)"
  using frame_read_safe [OF assms, of en evs "sc_mem st" StreamMessage_init "sc_stream st"]
  by (auto simp: awaited_ok_def await_read_def stream_read_def split: run_result.splits sum.splits)

end

section \<open>The server\<close>

text \<open>The part of the session handlers: on a connection whose ring is in order they come back with one, close,
  or wait.\<close>

definition sessions_safe ::
  "('rb \<Rightarrow> bool) \<Rightarrow> ('s \<Rightarrow> 'rb RpcStream \<Rightarrow> 'rb stream_conn \<Rightarrow> 'rb stream_result) \<Rightarrow> ('h, 's) services \<Rightarrow> bool" where
  "sessions_safe ring_inv run services \<longleftrightarrow>
     (\<forall>h init s st. resolveStreamHandler services init = Inr h \<and> ring_inv (sc_ring st) \<longrightarrow> session_safe ring_inv (run h s st))"

lemma init_body_total:
  "\<exists>ok r. StreamInitRequest_deserializeBody en (mkStreamInitRequest 0 [] []) body (length body) = Some (ok, r)"
  using init_body_none [of body en] init_body_some [of body _ _ _ en] by (cases "parse_route body") auto

context ring_buffer
begin

lemma stream_round_safe:
  assumes "ring_inv (sc_ring st)" "sessions_safe ring_inv run services"
  shows "session_safe ring_inv (stream_round en ops sf run services close_result io st)"
proof (cases "read_run ops (stream_parseFromRingBuffer en ops) (fst io) (sc_mem st) (getMessage (sc_ring st) StreamMessage_init) (sc_stream st)")
  case (Finished r mem m rest)
  define msg where "msg = sr_message (machine_self m)"
  define st1 where "st1 = st\<lparr>sc_mem := mem, sc_ring := machine_ring m, sc_stream := rest\<rparr>"
  have st1: "ring_inv (sc_ring st1)" and view: "r = Inr b \<Longrightarrow> view_ok (StreamMessage_payloadView msg)" for b
    using frame_read_safe [OF assms(1), of en "fst io" "sc_mem st" StreamMessage_init "sc_stream st"] Finished
    by (auto simp: st1_def msg_def)
  note round = stream_round_def Finished run_result.case msg_def [symmetric] st1_def [symmetric] Let_def
  show ?thesis
  proof (cases r)
    case (Inl e)
    then show ?thesis by (simp add: round)
  next
    case (Inr b)
    obtain payload msg' where pay: "StreamMessage_payload mem msg = Some (payload, msg')"
      using stream_payload_bytes [OF view [OF Inr]] by blast
    obtain ok req where body: "StreamInitRequest_deserializeBody en (mkStreamInitRequest 0 [] []) payload (length payload) = Some (ok, req)"
      using init_body_total by blast
    have opened: "session_safe ring_inv (send_control sf close_result (snd io) (sendInitAck en s) (run h s) st1)"
      if "resolveStreamHandler services req = Inr h" for h s
      unfolding sendInitAck_def using that assms(2) st1 by (intro send_control_safe frames_send) (auto simp: sessions_safe_def)
    show ?thesis
      using pay body opened refuse_stream_safe [where ring_inv = ring_inv, OF st1]
      by (auto simp: round Inr split: sum.split bool.split)
  qed
next
  case (Suspended mem m rest)
  then show ?thesis by (simp add: stream_round_def)
next
  case Undefined
  then show ?thesis using frame_read_safe [OF assms(1), of en "fst io" "sc_mem st" StreamMessage_init "sc_stream st"] by simp
qed

lemma stream_loop_safe:
  "ring_inv (sc_ring st) \<Longrightarrow> sessions_safe ring_inv run services \<Longrightarrow>
    session_safe ring_inv (stream_loop en ops sf run services close_result ios st)"
proof (induction ios arbitrary: st)
  case (Cons io ios)
  then show ?case
    using stream_round_safe [OF Cons.prems, of en sf close_result io] by (auto split: stream_result.split)
qed simp

lemma stream_connection_safe:
  assumes "ring_inv (mk_ring (if cfg_ring_buffer_size (srv_config srv) = 0 then 128 * 1024 else cfg_ring_buffer_size (srv_config srv)))"
    and "sessions_safe ring_inv run (srv_services srv)"
  shows "session_safe ring_inv (stream_handleConnection en ops mk_ring sf run srv non_block close_result ios mem stream)"
  using assms by (cases non_block) (auto simp: stream_handleConnection_def intro!: stream_loop_safe split: if_splits)

text \<open>The session method of the example server keeps its part.\<close>

lemma echo_session_safe:
  "ring_inv (sc_ring st) \<Longrightarrow> session_safe ring_inv (StreamExampleService_echo en ops sf ios s frames bytes st)"
proof (induction ios arbitrary: frames bytes st)
  case (Cons io ios)
  obtain revs wevs eevs where io: "io = (revs, wevs, eevs)" by (cases io)
  from await_read_safe [OF Cons.prems, of en revs s] show ?case
  proof (cases rule: awaited_cases)
    case (succeeded msg st1)
    have data: "awaited_ok ring_inv (\<lambda>_. True) (await_send sf wevs (sendData en (sc_mem st1) (Buf b 0) (length b) s) st1)" for b
      by (intro await_send_safe succeeded(2) frames_send) simp
    have control: "awaited_ok ring_inv (\<lambda>_. True) (await_send sf evs (StreamFrameWriteState_control en (rst_writer_stream_id s) t) st')"
      if "ring_inv (sc_ring st')" for evs t st'
      by (intro await_send_safe that frames_send)
    obtain payload msg' where pay: "StreamMessage_payload (sc_mem st1) msg = Some (payload, msg')"
      using stream_payload_bytes [OF succeeded(3)] by blast
    note simps = io succeeded(1) Let_def sendEnd_def sendCancel_def
    consider "sm_msg_type msg = STREAM_DATA" | "sm_msg_type msg = STREAM_END" | "sm_msg_type msg = STREAM_CANCEL"
      | "sm_msg_type msg \<notin> {STREAM_DATA, STREAM_END, STREAM_CANCEL}" by blast
    then show ?thesis
    proof cases
      case 1
      from data [of payload] show ?thesis
        using 1 pay Cons.IH by (cases rule: awaited_cases) (simp_all add: simps)
    next
      case 2
      from data [of "stream_summary s frames bytes"] show ?thesis
      proof (cases rule: awaited_cases)
        case sent: (succeeded x st2)
        from control [OF sent(2), of eevs STREAM_END] show ?thesis
          by (cases rule: awaited_cases) (simp_all add: simps 2 sent(1))
      qed (simp_all add: simps 2)
    next
      case 3
      then show ?thesis using succeeded(2) by (simp add: simps)
    next
      case 4
      from control [OF succeeded(2), of wevs STREAM_CANCEL] show ?thesis
        using 4 by (cases rule: awaited_cases) (simp_all add: simps)
    qed
  qed (simp_all add: io)
qed simp

end

lemma example_sessions_safe:
  "ring_buffer ops ring_inv \<Longrightarrow> sessions_safe ring_inv (\<lambda>_ s st. StreamExampleService_echo en ops sf (sched s st) s 0 0 st) services"
  by (simp add: sessions_safe_def ring_buffer.echo_session_safe)

text \<open>All connections of a run.\<close>

lemma session_safe_forget: "session_safe ring_inv (with_error err r) \<longleftrightarrow> session_safe ring_inv r"
  by (cases r) simp_all

context blind_sessions
begin

lemma sessions_run_safe:
  assumes "ring_buffer ops ring_inv" "sessions_safe ring_inv run (srv_services srv)"
    and "ring_inv (mk_ring (if cfg_ring_buffer_size (srv_config srv) = 0 then 128 * 1024 else cfg_ring_buffer_size (srv_config srv)))"
    and "stream_run en ops mk_ring sf run srv es sy"
  shows "list_all (session_safe ring_inv) (run_conns sy)"
proof (rule conns.run_invariant [OF assms(4)])
  show "with_error None r = with_error None r' \<Longrightarrow> session_safe ring_inv r \<Longrightarrow> session_safe ring_inv r'" for r r'
    by (metis session_safe_forget)
  show "session_safe ring_inv (SServing (stream_fresh mk_ring (srv_config srv) mem stream))" for mem stream
    using assms(3) by (simp add: stream_fresh_def)
  show "session_safe ring_inv (SServing st) \<Longrightarrow> session_safe ring_inv (stream_round en ops sf run (srv_services srv) c io st)" for c io st
    using ring_buffer.stream_round_safe [OF assms(1) _ assms(2)] by simp
qed simp

end

section \<open>The client programs\<close>

definition returned_ok :: "('rb \<Rightarrow> bool) \<Rightarrow> stream_outcome \<times> bytes + 'a \<times> 'rb stream_conn \<Rightarrow> bool" where
  "returned_ok ring_inv r \<longleftrightarrow> (case r of Inl (outcome, _) \<Rightarrow> outcome \<noteq> Stream_undefined | Inr (_, st) \<Rightarrow> ring_inv (sc_ring st))"

lemma returned_ok_simps [simp]:
  "returned_ok ring_inv (Inl (outcome, wire)) \<longleftrightarrow> outcome \<noteq> Stream_undefined"
  "returned_ok ring_inv (Inr (x, st)) \<longleftrightarrow> ring_inv (sc_ring st)"
  by (simp_all add: returned_ok_def)

lemma report_echo_total:
  assumes "\<And>resp. r = Inr (Some resp) \<Longrightarrow> view_ok (RpcResponse_payloadView resp)"
  shows "\<exists>con'. report_echo mode mem r con = Some con'"
proof (cases "\<exists>resp. r = Inr (Some resp)")
  case True
  then obtain resp where resp: "r = Inr (Some resp)" by blast
  obtain payload resp' where "RpcResponse_payload mem resp = Some (payload, resp')"
    using response_payload.materialize_bytes [OF assms [OF resp], of mem] by (fastforce simp: RpcResponse_payload_def)
  then show ?thesis by (simp add: report_echo_def resp Let_def)
qed (auto simp: report_echo_def split: sum.split option.split)

context ring_buffer
begin

lemma send_data_safe:
  "ring_inv (sc_ring st) \<Longrightarrow>
    awaited_ok ring_inv (\<lambda>_. True) (await_send sf evs (sendData en (sc_mem st) (Buf b 0) (length b) s) st)"
  by (intro await_send_safe frames_send) simp_all

lemma send_end_safe: "ring_inv (sc_ring st) \<Longrightarrow> awaited_ok ring_inv (\<lambda>_. True) (await_send sf evs (sendEnd en s) st)"
  unfolding sendEnd_def by (intro await_send_safe frames_send)

lemma stream_frames_safe:
  assumes "ring_inv (sc_ring st)" "length payload = p"
  shows "returned_ok ring_inv (stream_frames en ops sf s n p left ios payload echoed st)"
  using assms
proof (induction left arbitrary: ios payload echoed st)
  case (Suc left)
  show ?case
  proof (cases ios)
    case (Cons io ios')
    obtain wevs revs where io: "io = (wevs, revs)" by (cases io)
    obtain payload' where pay: "(if p \<ge> 8 then wr payload 0 (host_store64 en (word_of_nat (n - Suc left))) else Some payload) = Some payload'"
        "length payload' = p"
      using Suc.prems(2) by (cases "8 \<le> p") (simp_all add: wr_def)
    note simps = Cons io pay(1) Let_def
    from send_data_safe [OF Suc.prems(1), of sf wevs en payload' s] show ?thesis
    proof (cases rule: awaited_cases)
      case sent: (succeeded b st1)
      from await_read_safe [OF sent(2), of en revs s] show ?thesis
      proof (cases rule: awaited_cases)
        case (succeeded msg st2)
        obtain echoed' msg' where "StreamMessage_payload (sc_mem st2) msg = Some (echoed', msg')"
          using stream_payload_bytes [OF succeeded(3)] by blast
        then show ?thesis using Suc.IH [OF succeeded(2) pay(2)] by (simp add: simps sent(1) succeeded(1))
      qed (simp_all add: simps sent(1))
    qed (simp_all add: simps)
  qed simp
qed simp

lemma stream_tail_safe:
  "ring_inv (sc_ring st) \<Longrightarrow> returned_ok ring_inv (stream_tail en ops s ios summary st)"
proof (induction ios arbitrary: summary st)
  case (Cons revs ios)
  from await_read_safe [OF Cons.prems, of en revs s] show ?case
  proof (cases rule: awaited_cases)
    case (succeeded msg st1)
    obtain said msg' where "StreamMessage_payloadStr (sc_mem st1) msg = Some (said, msg')"
      using stream_payload_bytes [OF succeeded(3), of "sc_mem st1"] by (auto simp: StreamMessage_payload_def StreamMessage_payloadStr_def)
    then show ?thesis using Cons.IH [OF succeeded(2)] succeeded(2) by (simp add: succeeded(1))
  qed simp_all
qed simp

lemma run_session_safe:
  assumes "ring_inv (sc_ring st)"
  shows "fst (run_session en ops sf io n p s st) \<noteq> Stream_undefined"
proof -
  have "awaited_ok ring_inv (\<lambda>_. True) (await_send sf (cs_init io) (sendInit en s) st)"
    by (intro await_send_safe assms frames_send)
  then show ?thesis
  proof (cases rule: awaited_cases)
    case init: (succeeded b st1)
    from await_read_safe [OF init(2), of en "cs_ack io" s] show ?thesis
    proof (cases rule: awaited_cases)
      case ack: (succeeded msg st2)
      define start where "start = (replicate p (of_char (CHR ''x'')) :: bytes)"
      note run = run_session_def [of en ops sf io n p s st, folded start_def] init(1) ack(1) Let_def
      have frames: "returned_ok ring_inv (stream_frames en ops sf s n p n (cs_frames io) start 0 st2)"
        by (intro stream_frames_safe ack(2)) (simp add: start_def)
      show ?thesis
      proof (cases "stream_frames en ops sf s n p n (cs_frames io) start 0 st2")
        case (Inl r)
        then show ?thesis using frames by (cases r) (simp add: run)
      next
        case (Inr r)
        obtain total st3 where r: "r = (total, st3)" by (cases r)
        then have "ring_inv (sc_ring st3)" using frames Inr by simp
        from send_end_safe [OF this, of sf "cs_end io" en s] show ?thesis
        proof (cases rule: awaited_cases)
          case (succeeded b st4)
          then show ?thesis
            using stream_tail_safe [OF succeeded(2), of en s "cs_tail io" "[]"]
            by (cases "stream_tail en ops s (cs_tail io) [] st4") (auto simp: run Inr r)
        qed (simp_all add: run Inr r)
      qed
    qed (simp_all add: run_session_def init(1))
  qed (simp_all add: run_session_def)
qed

lemma echo_call_safe:
  assumes "client_ok ring_inv cl" "ptr_ok data len"
  shows "case callEchoWithMode title mode payload (callWithMode en ops sf service meth mode e data len io) con net cl of
    Ran_undefined \<Rightarrow> False | Still_waiting \<Rightarrow> True | Ran con' net' cl' \<Rightarrow> client_ok ring_inv cl'"
proof (cases "callWithMode en ops sf service meth mode e data len io net cl")
  case (Returned r net' cl')
  have ok: "client_ok ring_inv cl'" "\<And>resp. r = Inr (Some resp) \<Longrightarrow> view_ok (RpcResponse_payloadView resp)"
    using call_safe [OF assms, of en sf service meth mode e io net] Returned by auto
  obtain con' where "report_echo mode (nw_mem net') r
      (say (''Input: '' @ shown payload @ newline) (say (''=== '' @ title @ '' ==='' @ newline) con)) = Some con'"
    using report_echo_total [of r mode "nw_mem net'"] ok(2) by blast
  then show ?thesis using ok(1) by (simp add: callEchoWithMode_def Returned Let_def)
next
  case Call_undefined
  then show ?thesis using call_safe [OF assms, of en sf service meth mode e io net] by simp
qed (simp add: callEchoWithMode_def Let_def)

lemma runClient_safe:
  assumes "\<And>n. 0 < n \<Longrightarrow> ring_inv (mk_ring n)"
  shows "runClient en ops mk_ring sf connect_result io1 io2 io3 io4 host port net \<noteq> Ran_undefined"
proof -
  have then_ok: "then_run (callEchoWithMode title mode payload (callWithMode en ops sf service meth mode True (Buf payload 0) (length payload) io) con net cl) next
      \<noteq> Ran_undefined"
    if "client_ok ring_inv cl" "\<And>con net cl. client_ok ring_inv cl \<Longrightarrow> next con net cl \<noteq> Ran_undefined"
    for title mode payload service meth io con net cl "next"
    using echo_call_safe [OF that(1), of "Buf payload 0" "length payload" title mode payload en sf service meth True io con net] that(2)
    by (auto split: client_run.splits)
  have "client_ok ring_inv (client_connect mk_ring (mkRpcClient RpcClientConfig_init))"
    using assms by (simp add: client_ok_def client_connect_def kDefaultRpcRingBufferSize_def Let_def)
  then show ?thesis
    unfolding runClient_def Let_def call_string_def call_def callClientStreamFrame_def callServerStreamRequest_def callBidiStreamFrame_def
    by (cases connect_result) (simp_all only: option.case, intro then_ok, assumption+, simp_all)
qed

lemma runStreamClient_safe:
  assumes "\<And>n. 0 < n \<Longrightarrow> ring_inv (mk_ring n)"
  shows "fst (runStreamClient en ops mk_ring sf connect_result io n p mem incoming) \<noteq> Stream_undefined"
proof -
  have "ring_inv (mk_ring (e4_ring_buffer_size p))" "e4_ring_buffer_size p \<noteq> 0"
    using assms by (simp_all add: e4_ring_buffer_size_def kDefaultRpcRingBufferSize_def)
  then show ?thesis
    by (simp add: runStreamClient_def createStream_id_def client_connect_def mkRpcClient_def client_ringBufferSize_def mkRpcStream_def
        run_session_safe Let_def split: option.split)
qed

end

section \<open>Properties\<close>

text \<open>C7. The stream server is memory safe against its peers. In every run of the stream server with any number of
  connections, whatever bytes arrive on them as opening frames or inside sessions, however they are cut,
  wherever a read, a write, an accept or a close fails and whenever the server is stopped, no connection
  ever reaches undefined behaviour, and the ring of each connection that is still served is in order;
  the session handlers only have to leave the ring in order, too.\<close>

theorem stream_server_memory_safe:
  assumes "ring_buffer ops ring_inv" "blind_sessions run" "sessions_safe ring_inv run (srv_services srv)"
    and "ring_inv (mk_ring (if cfg_ring_buffer_size (srv_config srv) = 0 then 128 * 1024 else cfg_ring_buffer_size (srv_config srv)))"
    and "stream_run en ops mk_ring sf run srv es sy"
  shows "SUndefined \<notin> set (run_conns sy) \<and> (\<forall>st. SServing st \<in> set (run_conns sy) \<longrightarrow> ring_inv (sc_ring st))"
  using blind_sessions.sessions_run_safe [where mk_ring = mk_ring, OF assms(2,1,3,4,5)] by (auto simp: list_all_iff session_safe_def)

theorem stream_server_memory_safe_witness:
  "\<exists>sy. stream_run Big circ_ops mk_circ no_error
      (\<lambda>_ s. StreamExampleService_echo Big circ_ops no_error [(replicate 9 (Deliver 3), [IoFail no_error], [])] s 0 0)
      (e3_server 4 default_affinity 9100 1 64) (two_connections (replicate 90 255)) sy \<and> SUndefined \<notin> set (run_conns sy)"
proof -
  let ?run = "\<lambda>_ s. StreamExampleService_echo Big circ_ops no_error [(replicate 9 (Deliver 3), [IoFail no_error], [])] s 0 0"
  let ?srv = "e3_server 4 default_affinity 9100 1 64"
  obtain sy where sy: "stream_run Big circ_ops mk_circ no_error ?run ?srv (two_connections (replicate 90 255)) sy"
    using example_sessions.conns.two_connections_run by blast
  have safe: "sessions_safe circ_inv ?run (srv_services ?srv)"
    using example_sessions_safe [OF circ.ring_buffer_axioms, where sched = "\<lambda>_ _. [(replicate 9 (Deliver 3), [IoFail no_error], [])]"] .
  have "circ_inv (mk_circ (if cfg_ring_buffer_size (srv_config ?srv) = 0 then 128 * 1024 else cfg_ring_buffer_size (srv_config ?srv)))"
    by (simp add: e3_server_def stream_builder_agrees server_registerService_def mkRpcServer_def builder_ringBufferSize_def Let_def)
  then show ?thesis
    using stream_server_memory_safe [where mk_ring = mk_circ, OF circ.ring_buffer_axioms example_sessions.blind_sessions_axioms safe _ sy] sy
    by blast
qed

text \<open>C8. The example programs are memory safe against whatever they talk to. The echo client, the streaming client
  and the streaming server never reach undefined behaviour, whatever the other side sends instead of
  what it should, whatever the transport does, and whatever numbers and sizes of frames are asked for
  on the command line; the kernel only has to provide rings of the sizes asked for.\<close>

theorem example_programs_memory_safe:
  assumes "ring_buffer ops ring_inv" "\<And>n. 0 < n \<Longrightarrow> ring_inv (mk_ring n)"
  shows "runClient en ops mk_ring sf connect_result io1 io2 io3 io4 host port net \<noteq> Ran_undefined \<and>
    fst (runStreamClient en ops mk_ring sf connect_result io frame_count payload_size mem incoming) \<noteq> Stream_undefined \<and>
    stream_handleConnection en ops mk_ring sf (\<lambda>_ s st. StreamExampleService_echo en ops sf (sched s st) s 0 0 st)
      (e3_server hardware_concurrency affinity port' io_count ring_buffer_size) non_block close_result ios mem incoming \<noteq> SUndefined"
proof -
  let ?run = "\<lambda>_ s st. StreamExampleService_echo en ops sf (sched s st) s 0 0 st"
  have "session_safe ring_inv (stream_handleConnection en ops mk_ring sf ?run
      (e3_server hardware_concurrency affinity port' io_count ring_buffer_size) non_block close_result ios mem incoming)"
    using assms(2) by (intro ring_buffer.stream_connection_safe [OF assms(1)] example_sessions_safe assms(1)) simp
  then show ?thesis
    using ring_buffer.runClient_safe [OF assms] ring_buffer.runStreamClient_safe [OF assms] by (auto simp: session_safe_def)
qed

theorem example_programs_memory_safe_witness:
  "runClient Little circ_ops mk_circ no_error None (replicate 70 (Deliver 9), replicate 9 (Deliver 5)) ([], []) ([], []) ([], [])
      ''localhost'' 9000 \<lparr>nw_mem = \<lambda>_. 0, nw_stream = replicate 50 255, nw_wire = []\<rparr> \<noteq> Ran_undefined \<and>
    fst (runStreamClient Little circ_ops mk_circ no_error None
      \<lparr>cs_init = replicate 44 (Deliver 9), cs_ack = replicate 50 (Deliver 1), cs_frames = [], cs_end = [], cs_tail = []\<rparr>
      3 7 (\<lambda>_. 0) (replicate 50 255)) \<noteq> Stream_undefined"
  using example_programs_memory_safe [OF circ.ring_buffer_axioms, of mk_circ Little no_error None] by auto

end
