(* ===== verification/Spec2Isabelle.thy ===== *)
theory Spec2Isabelle
  imports Rpc_Echo Rpc_Streaming Rpc_Discovery Rpc_Raw Rpc_Objects Rpc_Streamsafe
begin

text \<open>
  A verification development for galay-rpc, a C++ library for remote procedure calls over TCP
  (\<^verbatim>\<open>src/galay-rpc\<close>): a binary protocol, zero-copy connections driven by I/O state machines, a unary and a
  stream server, a client, and service discovery.

  \<^bold>\<open>The parts and how they interact.\<close> A client turns a call into a request message, a write machine
  sends its pieces with partial writes, and a read machine on the server fills a ring buffer until
  the zero-copy parser finds a whole request in its segments. The server finds the handler through a
  per-connection route cache in front of the services' registries, runs it, and sends the response
  back the same way. Streams use the same machines with frames of their own. Discovery keeps lists of
  endpoints and picks one. The example programs put a client and a server of each kind to work.

  \<^bold>\<open>Theories, bottom up.\<close>
  \<^item> \<open>Rpc_Prelude\<close>: machine types, checked buffer access (\<open>rd\<close>, \<open>wr\<close>: \<open>None\<close> is undefined behaviour), memory;
    \<open>Rpc_Text\<close>: the text functions of the C and C++ libraries that the code calls.
  \<^item> \<open>Rpc_Base\<close> (\<^verbatim>\<open>protoc/rpc_base.h\<close>, \<^verbatim>\<open>rpc_error.h\<close>): byte order on either host order, message types, flags,
    error codes and errors.
  \<^item> \<open>Rpc_View\<close>, \<open>Rpc_Message\<close> (\<^verbatim>\<open>protoc/rpc_message.h\<close>): pointers, borrowed payload views and their ownership
    contract (locale \<open>payload_carrier\<close>, interpreted on requests, responses and stream messages); header,
    request and response with their serialisers and body parsers.
  \<^item> \<open>Rpc_Codec\<close> (\<^verbatim>\<open>protoc/rpc_codec.h\<close>): the decoders over contiguous buffers; round trips, the exact set of
    accepted inputs, and that no decoder leaves its buffer.
  \<^item> \<open>Rpc_Iovec\<close>, \<open>Rpc_Await\<close> (\<^verbatim>\<open>kernel/rpc_await.h\<close>): scatter/gather arrays, read and write states and the two
    machines. The locale \<open>ring_buffer\<close> is the contract of the kernel's ring, \<open>frame_writer\<close> the contract of
    a write state; \<open>Rpc_Reader\<close>: the locale \<open>ring_reader\<close>, the contract between the read machine and a read
    state (with the room its caller owes it, for a body the length of its buffer), and what follows from it for every schedule: completion, failure, end of file, overflow,
    termination.
  \<^item> \<open>Rpc_Conn\<close> (\<^verbatim>\<open>kernel/rpc_conn.h\<close>): the zero-copy parsers, the four read states, the two write states,
    reader, writer and connection; every read state keeps the \<open>ring_reader\<close> contract (as a sublocale of
    \<open>ring_buffer\<close>) and every write state the \<open>frame_writer\<close> contract.
  \<^item> \<open>Rpc_Ring\<close>: a circular buffer that keeps the ring contract, used in the concrete instances.
  \<^item> \<open>Rpc_Transport\<close>: one connection from gather write to ring-buffer read, and its error cases; \<open>Rpc_Raw\<close>: the
    raw interface of a connection, for callers that frame their messages themselves.
  \<^item> \<open>Rpc_Stream\<close> (\<^verbatim>\<open>kernel/rpc_stream.h\<close>): stream messages, the two-phase frame reader, frame writers, sessions;
    \<open>Rpc_Objects\<close>: the three message classes as inductive sets of objects, and their payload invariant.
  \<^item> \<open>Rpc_Service\<close> (\<^verbatim>\<open>kernel/rpc_service.h\<close>): method registries (locale \<open>method_registry\<close>) and the call context.
  \<^item> \<open>Rpc_Route\<close>, \<open>Rpc_Server\<close> (\<^verbatim>\<open>kernel/rpc_server.h\<close>, \<^verbatim>\<open>utils/runtime_compat.h\<close>): the route cache (locale
    \<open>transparent_cache\<close>), configuration, lifecycle (locale \<open>runtime_owner\<close>), accept loop, connection loop.
  \<^item> \<open>Rpc_Client\<close>, \<open>Rpc_Calls\<close> (\<^verbatim>\<open>kernel/rpc_client.h\<close>): the expecting read state, connect, calls, session creation;
    sequences of calls and what a server's connection loop does with them.
  \<^item> \<open>Rpc_Interleave\<close>, \<open>Rpc_Concurrent\<close>: the server with all its connections as a step relation: accepts, turns of
    the connection loops and a stop, interleaved in any order. The locale \<open>interleaving\<close> is the contract
    between a step relation and the loop of one connection, \<open>connection_service\<close> extends it by what a client
    sees; both servers keep it.
  \<^item> \<open>Rpc_Streamsvc\<close>, \<open>Rpc_Streamconc\<close> (\<^verbatim>\<open>kernel/streamsvc.h\<close>): the stream server, and all its connections at work
    (locale \<open>blind_sessions\<close>: a session handler does not see the server's last error).
  \<^item> \<open>Rpc_Discovery\<close> (\<^verbatim>\<open>kernel/rpc_discovery.h\<close>): both registries, their interface (locale \<open>service_registry\<close>),
    the discovery client.
  \<^item> \<open>Rpc_Echo\<close> (\<^verbatim>\<open>examples/include/e1_echo.cc\<close>, \<^verbatim>\<open>e2_echo.cc\<close>), \<open>Rpc_Streaming\<close> (\<^verbatim>\<open>e3_stream.cc\<close>, \<^verbatim>\<open>e4_stream.cc\<close>): the
    example services with their handlers, the server programs and the client programs.
  \<^item> \<open>Rpc_Safety\<close>, \<open>Rpc_Streamsafe\<close>: memory safety of both servers, of the client and of the example programs
    against peers that send anything.
  \<^item> this theory: calls and streams end to end, from a client to a server and back.

  \<^bold>\<open>State and operations.\<close> A class is a record with one field per member and a definition per method
  that returns the updated record; accessors are selectors. \<^verbatim>\<open>std::expected\<close> is a sum, a null pointer
  \<open>None\<close>, \<^verbatim>\<open>uint8/16/32/64_t\<close> are words, \<^verbatim>\<open>size_t\<close> is \<^typ>\<open>nat\<close> with the wrap-around written out where it
  matters (\<open>size_add\<close>), an unordered map is an association list. A pointer carries the buffer it points
  into or, in receive memory, its address and the number of bytes that may be accessed from there; the
  vectors of a ring are exactly the memory they may be accessed in. A \<^verbatim>\<open>memcpy\<close> that reads past its
  source or writes past its destination, a vector longer than its memory in a read or write, and a
  payload that is read through a view longer than what it borrows are undefined, and undefined
  behaviour is a value of every operation (\<open>None\<close>, \<open>Undefined\<close>, \<open>Serve_undefined\<close>, \<open>SUndefined\<close>). Borrowed
  payloads point into an explicit memory that reads into the ring overwrite. \<^verbatim>\<open>co_await\<close> of a read or
  write is a run of its machine over a schedule, a list of completions (so many bytes, end of file, an
  error); a theorem quantifies over all schedules that deliver. A coroutine loop runs over a list of
  rounds, one schedule pair each, and ends with the list, as the code's loop ends when it finds the
  running flag cleared.

  \<^bold>\<open>Bounds and fuel.\<close> The schedules in the theorems are required to be as long as the bytes to be moved,
  which always suffices since every completion moves at least one byte. Without any assumption on the
  completions, a read of a message ends within as many of them as its ring has free bytes, and a send
  within as many as its frame has bytes. The loop that doubles a string
  capacity has a fuel of 64, enough for every capacity below 2^63; that it suffices is proved as part
  of the transparency of the route cache. All other loops are structural.

  \<^bold>\<open>What the theorems show.\<close> Messages survive the trip under every fragmentation and leave the bytes
  behind them alone; the optimised paths (zero-copy parsing, gather writes, the route cache) agree with
  the plain ones; malformed, oversized and truncated input ends in the documented error; servers answer
  every request in order with the registered handler's answer, whatever happens on their other
  connections, and run the session handler a client asks for on its own session; no sequence of bytes and failures makes a server or a client leave its buffers; calls
  return their own replies; message objects always have a payload that can be read;
  the asynchronous registry refines the local one; the example client programs get from the example
  servers what they print. A few theorems state limits of the code: messages
  larger than the ring, a size limit that wraps around, end frames with a body, a response with a
  foreign id, a selector that is rebuilt for every request so that round robin never moves on, names longer than their length field, a
  message object that is reused after an end frame.

  \<^bold>\<open>Parameters.\<close> galay-kernel is not part of the repository. Its ring buffer is a record of operations with
  the laws of \<open>ring_buffer\<close>; its driver is the meaning of a schedule; its sockets, runtime and mutex appear
  as the results of the awaited operations and as recorded calls; its load balancers, random or not, are
  arguments of the discovery client, with what they draw on each request. User handlers are values of a type parameter together with what calling them
  does; the example services instantiate it with their own handlers.

  \<^bold>\<open>Not modelled.\<close> Logging (\<^verbatim>\<open>common/rpc_log.h\<close>) forwards to a library; the C++ module files only re-export.
  Of the awaitable wrapper classes the constructors are modelled; their other members forward to the
  kernel's machine. Timeouts of awaitables are the kernel's and appear as failed completions. A turn of a
  connection loop, on the stream server with the session it opens, is one step of the interleaving: the
  race of two threads inside an assignment to the server's last error, and registration of services while connections are live, are outside the model.
  The programs under \<^verbatim>\<open>examples/import\<close> are the modelled ones with an import in place of the includes;
  of the modelled ones the title lines, the signal handlers, the elapsed time and the rate are left out.
  Benchmarks and tests only drive the library.
\<close>

section \<open>A client and a server\<close>

text \<open>C1. Calls end to end. A client makes any sequence of calls, of any of the four modes, on one connection to a
  server; the server reads what the client sends and the client reads what the server sends, each
  over its own ring, with its own byte order and with the bytes cut anywhere on the way. Then every
  call returns, in order, exactly the answer the server specifies for it: what the handler registered
  for the service, method and mode of the call computes from its request, or SERVICE_NOT_FOUND or
  METHOD_NOT_FOUND; no reply is lost, mixed up or refused, and no error is recorded.\<close>

theorem rpc_calls_end_to_end:
  assumes "ring_buffer cops cinv" "connected cl rb" "cinv rb" "ring_content cops cmem rb = []"
    and "ring_buffer sops sinv"
    and "srb = mk_ring (normalizeRingBufferSize (cfg_ring_buffer_size (srv_config srv)))" "sinv srb" "ring_content sops smem srb = []"
    and "handlers_compute run (srv_services srv) act"
    and "fs = call_seq (cl_request_id cl) cs"
    and "list_all (\<lambda>f. fields_fit f \<and> length (request_frame f) \<le> ring_capacity sops srb \<and>
        reply_ok (max_message_size (cc_reader_setting (cl_config cl))) (ring_capacity cops rb) f (answer (srv_services srv) act f)) fs"
    and "length cios = length cs"
    and "list_all (\<lambda>(wevs, revs). delivers wevs \<and> ring_capacity sops srb \<le> length wevs \<and>
        delivers revs \<and> ring_capacity cops rb \<le> length revs) cios"
    and "length sios = length cs"
    and "list_all (\<lambda>(revs, wevs). delivers revs \<and> ring_capacity sops srb \<le> length revs \<and>
        delivers wevs \<and> ring_capacity cops rb \<le> length wevs) sios"
  shows "\<exists>st wire.
    handleConnection sen sops mk_ring ssf run srv None sios smem wire = Closed st \<and> ss_last_error st = None \<and>
    do_calls cen cops csf cs cios \<lparr>nw_mem = cmem, nw_stream = ss_wire st, nw_wire = []\<rparr> cl =
      Some (map (\<lambda>f. Inr (Some (answer (srv_services srv) act f))) fs, wire)"
proof -
  let ?ans = "answer (srv_services srv) act" and ?net = "\<lambda>st. \<lparr>nw_mem = cmem, nw_stream = ss_wire st, nw_wire = []\<rparr>"
  have "list_all (\<lambda>f. fields_fit f \<and> length (request_frame f) \<le> ring_capacity sops srb \<and>
      length (response_frame (?ans f)) \<le> ring_capacity cops rb) fs"
    using assms(11) by (auto simp: list_all_iff reply_ok_def)
  from ring_buffer.calls_served [where mk_ring = mk_ring, OF assms(5-9) _ this assms(15), of sen ssf "[]"] assms(10,14)
  obtain st where st: "handleConnection sen sops mk_ring ssf run srv None sios smem (concat (map request_frame fs)) = Closed st"
      "ss_wire st = concat (map (\<lambda>f. response_frame (?ans f)) fs)" "ss_last_error st = None"
    by auto
  have "do_calls cen cops csf cs cios (?net st) cl = Some (map (\<lambda>f. Inr (Some (?ans f))) fs, concat (map request_frame fs))"
    using ring_buffer.calls_return [OF assms(1,12,2,3), of ?ans "ring_capacity sops srb" "?net st" "[]" cen csf]
      assms(4,10,11,13) st(2) by (simp add: list_all_iff)
  with st(1,3) show ?thesis by blast
qed

theorem rpc_calls_end_to_end_witness:
  "\<exists>st wire.
    handleConnection Big circ_ops mk_circ no_error echo_run echo_server None
      (replicate 2 (replicate 64 (Deliver 3), replicate 64 (Deliver 5))) (\<lambda>_. 0) wire = Closed st \<and>
    do_calls Little circ_ops no_error
      [\<lparr>ca_service = [69], ca_method = [70], ca_mode = UNARY, ca_end = True, ca_payload = [1, 2]\<rparr>,
       \<lparr>ca_service = [69], ca_method = [71], ca_mode = UNARY, ca_end = True, ca_payload = []\<rparr>]
      (replicate 2 (replicate 64 (Deliver 7), replicate 64 (Deliver 4)))
      \<lparr>nw_mem = \<lambda>_. 0, nw_stream = ss_wire st, nw_wire = []\<rparr>
      (client_connect mk_circ (mkRpcClient (RpcClientConfig_init\<lparr>cc_ring_buffer_size := 64\<rparr>))) =
      Some ([Inr (Some \<lparr>pf_id = 0, pf_mode = UNARY, pf_end = True, pf_error = OK, pf_payload = [1, 2]\<rparr>),
             Inr (Some \<lparr>pf_id = 1, pf_mode = UNARY, pf_end = True, pf_error = METHOD_NOT_FOUND, pf_payload = []\<rparr>)], wire)"
proof -
  let ?c1 = "\<lparr>ca_service = [69], ca_method = [70], ca_mode = UNARY, ca_end = True, ca_payload = [1, 2]\<rparr>"
  let ?c2 = "\<lparr>ca_service = [69], ca_method = [71], ca_mode = UNARY, ca_end = True, ca_payload = []\<rparr>"
  let ?cl = "client_connect mk_circ (mkRpcClient (RpcClientConfig_init\<lparr>cc_ring_buffer_size := 64\<rparr>))"
  let ?ans = "answer (srv_services echo_server) echo_act"
  have cl: "connected ?cl (mk_circ 64)" "cl_request_id ?cl = 0"
      "max_message_size (cc_reader_setting (cl_config ?cl)) = RPC_MAX_BODY_SIZE"
    by (simp_all add: connected_def client_connect_def mkRpcClient_def RpcClientConfig_init_def RpcReaderSetting_init_def Let_def)
  have size: "normalizeRingBufferSize (cfg_ring_buffer_size (srv_config echo_server)) = 64"
    by (simp add: echo_server_def server_registerService_def mkRpcServer_def test_config_def normalizeRingBufferSize_def)
  have fs: "call_seq 0 [?c1, ?c2] = [fields_of_call 0 ?c1, fields_of_call 1 ?c2]" by simp
  have "resolveMethodHandler (srv_services echo_server) (route_of (fields_of_call 0 ?c1)) = Inr ()"
    "resolveMethodHandler (srv_services echo_server) (route_of (fields_of_call 1 ?c2)) = Inl METHOD_NOT_FOUND"
    by code_simp+
  then have ans: "?ans (fields_of_call 0 ?c1) = \<lparr>pf_id = 0, pf_mode = UNARY, pf_end = True, pf_error = OK, pf_payload = [1, 2]\<rparr>"
    "?ans (fields_of_call 1 ?c2) = \<lparr>pf_id = 1, pf_mode = UNARY, pf_end = True, pf_error = METHOD_NOT_FOUND, pf_payload = []\<rparr>"
    by (simp_all add: answer_def echo_act_def fields_of_call_def call_fields_def)
  have "list_all (\<lambda>f. fields_fit f \<and> length (request_frame f) \<le> 64 \<and> reply_ok RPC_MAX_BODY_SIZE 64 f (?ans f))
      [fields_of_call 0 ?c1, fields_of_call 1 ?c2]"
    by (simp add: ans) (simp add: fields_fit_def fields_of_call_def call_fields_def request_frame_def reply_ok_def reply_fits_def
      response_frame_def max_body_eq named_errorcode_canonical named_errorcodes_def)
  then show ?thesis
    using rpc_calls_end_to_end [OF circ.ring_buffer_axioms cl(1) _ _ circ.ring_buffer_axioms refl _ _ echo_computes refl,
        where cs = "[?c1, ?c2]" and mk_ring = mk_circ and srv = echo_server and cmem = "\<lambda>_. 0" and smem = "\<lambda>_. 0"
          and cios = "replicate 2 (replicate 64 (Deliver 7), replicate 64 (Deliver 4))"
          and sios = "replicate 2 (replicate 64 (Deliver 3), replicate 64 (Deliver 5))"
          and sen = Big and cen = Little and csf = no_error and ssf = no_error] cl size fs ans
    by (auto simp: delivers_def numeral_2_eq_2)
qed

section \<open>A stream session with a stream server\<close>

text \<open>C15. Opening a stream end to end. The client sends the init frame of a session, and then whatever it
  likes. If the route is registered, the server acknowledges it and runs the registered handler,
  whatever that does, on a session with the same stream id and route and with exactly what the client
  sent after the init frame still to be read; what happens on the connection is what the handler does
  with it. If not, the server cancels the stream, records which part of the route is missing, and goes
  on with the connection. The client reads exactly that answer for its own stream id, and what was sent
  behind it is what it reads next. Both sides may have the bytes cut anywhere and use any byte order.\<close>

theorem stream_open_end_to_end:
  assumes "ring_buffer cops cinv" "cinv rb" "ring_content cops cmem rb = []" "16 \<le> ring_capacity cops rb"
    and "ring_buffer sops sinv"
    and "srb = mk_ring (if cfg_ring_buffer_size (srv_config srv) = 0 then 128 * 1024 else cfg_ring_buffer_size (srv_config srv))"
    and "sinv srb" "ring_content sops smem srb = []"
    and "length service < 65536" "length meth < 65536" "20 + length service + length meth \<le> ring_capacity sops srb"
    and "delivers wevs" "20 + length service + length meth \<le> length wevs"
    and "delivers srevs" "ring_capacity sops srb \<le> length srevs" "delivers swevs" "16 \<le> length swevs"
    and "delivers revs" "ring_capacity cops rb \<le> length revs"
  shows "\<exists>wire m st1.
    send_run csf wevs cmem (sendInit cen (mkRpcStream rb i service meth)) [] = Finished (Inr True) cmem m wire \<and>
    sinv (sc_ring st1) \<and> ring_capacity sops (sc_ring st1) = ring_capacity sops srb \<and> sunread sops st1 = input \<and>
    (case session_handler (srv_services srv) service meth of
       Some h \<Rightarrow>
         stream_handleConnection sen sops mk_ring ssf run srv None close_result ((srevs, swevs) # ios) smem (wire @ input) =
           (case run h (mkRpcStream (sc_ring st1) i service meth) st1 of
              SServing st2 \<Rightarrow> stream_loop sen sops ssf run (srv_services srv) close_result ios st2
            | r \<Rightarrow> r) \<and> sc_last_error st1 = None
     | None \<Rightarrow>
         stream_handleConnection sen sops mk_ring ssf run srv None close_result ((srevs, swevs) # ios) smem (wire @ input) =
           stream_loop sen sops ssf run (srv_services srv) close_result ios st1 \<and>
         (\<exists>e. sc_last_error st1 = Some e \<and> err_code e = missing_part (srv_services srv) service)) \<and>
    (\<forall>more. \<exists>mem' m' rest.
      read_run cops (stream_parseFromRingBuffer cen cops) revs cmem (stream_read (mkRpcStream rb i service meth) StreamMessage_init)
        (sc_wire st1 @ more) = Finished (Inr True) mem' m' rest \<and>
      stream_value mem' (sr_message (machine_self m')) = Some
        (if session_handler (srv_services srv) service meth = None
         then \<lparr>sf_id = i, sf_type = STREAM_CANCEL, sf_end = True, sf_payload = []\<rparr>
         else \<lparr>sf_id = i, sf_type = STREAM_INIT_ACK, sf_end = False, sf_payload = []\<rparr>) \<and>
      cinv (machine_ring m') \<and> ring_content cops mem' (machine_ring m') @ rest = more)"
proof -
  let ?wire = "stream_frame STREAM_INIT i (route_bytes service meth)"
  let ?t = "if session_handler (srv_services srv) service meth = None then STREAM_CANCEL else STREAM_INIT_ACK"
  obtain m where w: "send_run csf wevs cmem (sendInit cen (mkRpcStream rb i service meth)) [] = Finished (Inr True) cmem m ?wire"
    using init_writer.send_completes [where x = "(i, service, meth)" and evs = wevs and mem = cmem and sf = csf
        and out = "[]" and en = cen] assms(12,13)
    by (auto simp: sendInit_def mkRpcStream_def stream_frame_def)
  note served = ring_buffer.opening_served [where mk_ring = mk_ring, OF assms(5-11,14-17), of input i sen ssf run close_result ios]
  then obtain st1 where st1: "sinv (sc_ring st1)" "sunread sops st1 = input" "ring_capacity sops (sc_ring st1) = ring_capacity sops srb"
      "sc_wire st1 = stream_frame ?t i []"
      "case session_handler (srv_services srv) service meth of
         Some h \<Rightarrow>
           stream_handleConnection sen sops mk_ring ssf run srv None close_result ((srevs, swevs) # ios) smem (?wire @ input) =
             (case run h (mkRpcStream (sc_ring st1) i service meth) st1 of
                SServing st2 \<Rightarrow> stream_loop sen sops ssf run (srv_services srv) close_result ios st2
              | r \<Rightarrow> r) \<and> sc_last_error st1 = None
       | None \<Rightarrow>
           stream_handleConnection sen sops mk_ring ssf run srv None close_result ((srevs, swevs) # ios) smem (?wire @ input) =
             stream_loop sen sops ssf run (srv_services srv) close_result ios st1 \<and>
           (\<exists>e. sc_last_error st1 = Some e \<and> err_code e = missing_part (srv_services srv) service)"
    by (cases "session_handler (srv_services srv) service meth") auto
  have "frame_ok (ring_capacity cops rb) ?t []"
    using assms(4) by (simp add: frame_ok_def named_msgtypes_def)
  note read = ring_buffer.stream_frame_read [OF assms(1,2) this assms(18,19), of cmem "sc_wire st1 @ _" i _ cen]
  have "\<exists>mem' m' rest.
      read_run cops (stream_parseFromRingBuffer cen cops) revs cmem (stream_read (mkRpcStream rb i service meth) StreamMessage_init)
        (sc_wire st1 @ more) = Finished (Inr True) mem' m' rest \<and>
      stream_value mem' (sr_message (machine_self m')) = Some
        (if session_handler (srv_services srv) service meth = None
         then \<lparr>sf_id = i, sf_type = STREAM_CANCEL, sf_end = True, sf_payload = []\<rparr>
         else \<lparr>sf_id = i, sf_type = STREAM_INIT_ACK, sf_end = False, sf_payload = []\<rparr>) \<and>
      cinv (machine_ring m') \<and> ring_content cops mem' (machine_ring m') @ rest = more" for more
    using read [of more more] assms(3) st1(4)
    by (cases "session_handler (srv_services srv) service meth") (fastforce simp: stream_read_def mkRpcStream_def)+
  then show ?thesis using w st1(1-3,5) by blast
qed

text \<open>The session of the example programs: the handler is the one of the example server.\<close>

theorem stream_open_end_to_end_witness:
  "\<exists>wire m st mem' m' rest.
    send_run no_error (replicate 70 (Deliver 3)) (\<lambda>_. 0)
      (sendInit Little (mkRpcStream (mk_circ 40) 1 (ascii ''StreamExampleService'') (ascii ''echo''))) [] =
      Finished (Inr True) (\<lambda>_. 0) m wire \<and>
    stream_handleConnection Big circ_ops mk_circ no_error
      (\<lambda>_ s. StreamExampleService_echo Big circ_ops no_error
        (replicate 3 (replicate 64 (Deliver 3), replicate 130 (Deliver 5), replicate 16 (Deliver 1))) s 0 0)
      (e3_server 4 default_affinity 9100 1 64) None None [(replicate 64 (Deliver 3), replicate 64 (Deliver 5))] (\<lambda>_. 0)
      (wire @ client_frames Little 2 9) = SClosed st \<and> sunread circ_ops st = [] \<and>
    read_run circ_ops (stream_parseFromRingBuffer Little circ_ops) (replicate 40 (Deliver 1)) (\<lambda>_. 0)
      (stream_read (mkRpcStream (mk_circ 40) 1 (ascii ''StreamExampleService'') (ascii ''echo'')) StreamMessage_init) (sc_wire st) =
      Finished (Inr True) mem' m' rest \<and>
    stream_value mem' (sr_message (machine_self m')) =
      Some \<lparr>sf_id = 1, sf_type = STREAM_INIT_ACK, sf_end = False, sf_payload = []\<rparr> \<and>
    ring_content circ_ops mem' (machine_ring m') @ rest = server_frames Little 2 9"
proof -
  let ?s = "ascii ''StreamExampleService''" and ?m = "ascii ''echo''" and ?srv = "e3_server 4 default_affinity 9100 1 64"
  let ?run = "\<lambda>_ s. StreamExampleService_echo Big circ_ops no_error
        (replicate 3 (replicate 64 (Deliver 3), replicate 130 (Deliver 5), replicate 16 (Deliver 1))) s 0 0"
  have cfg: "cfg_ring_buffer_size (srv_config ?srv) = 64"
    by (simp add: e3_server_def stream_builder_agrees server_registerService_def mkRpcServer_def builder_ringBufferSize_def Let_def)
  have h: "session_handler (srv_services ?srv) ?s ?m = Some ()"
    using example_handler .
  obtain wire m st1 where o: "send_run no_error (replicate 70 (Deliver 3)) (\<lambda>_. 0) (sendInit Little (mkRpcStream (mk_circ 40) 1 ?s ?m)) [] =
        Finished (Inr True) (\<lambda>_. 0) m wire"
      "circ_inv (sc_ring st1)" "ring_capacity circ_ops (sc_ring st1) = 64" "sunread circ_ops st1 = client_frames Little 2 9"
      "stream_handleConnection Big circ_ops mk_circ no_error ?run ?srv None None [(replicate 64 (Deliver 3), replicate 64 (Deliver 5))] (\<lambda>_. 0)
        (wire @ client_frames Little 2 9) =
        (case ?run () (mkRpcStream (sc_ring st1) 1 ?s ?m) st1 of
          SServing st2 \<Rightarrow> stream_loop Big circ_ops no_error ?run (srv_services ?srv) None [] st2 | r \<Rightarrow> r)"
      "\<forall>more. \<exists>mem' m' rest.
        read_run circ_ops (stream_parseFromRingBuffer Little circ_ops) (replicate 40 (Deliver 1)) (\<lambda>_. 0)
          (stream_read (mkRpcStream (mk_circ 40) 1 ?s ?m) StreamMessage_init) (sc_wire st1 @ more) = Finished (Inr True) mem' m' rest \<and>
        stream_value mem' (sr_message (machine_self m')) = Some \<lparr>sf_id = 1, sf_type = STREAM_INIT_ACK, sf_end = False, sf_payload = []\<rparr> \<and>
        circ_inv (machine_ring m') \<and> ring_content circ_ops mem' (machine_ring m') @ rest = more"
    using stream_open_end_to_end [OF circ.ring_buffer_axioms _ _ _ circ.ring_buffer_axioms refl, where mk_ring = mk_circ
        and srv = ?srv and run = ?run and rb = "mk_circ 40" and cmem = "\<lambda>_. 0" and smem = "\<lambda>_. 0" and i = 1
        and service = ?s and meth = ?m and wevs = "replicate 70 (Deliver 3)" and input = "client_frames Little 2 9"
        and srevs = "replicate 64 (Deliver 3)" and swevs = "replicate 64 (Deliver 5)" and revs = "replicate 40 (Deliver 1)"
        and sen = Big and cen = Little and csf = no_error and ssf = no_error and close_result = None and ios = "[]"] cfg h
    by (simp add: delivers_def) blast
  have "session_ok circ_ops circ_inv 64 ?run (srv_services ?srv) (example_session Little 2 9)"
    by (rule circ.example_session_ok) (simp_all add: handler_schedule_ok_def delivers_def max_body_eq list_all_iff)
  then obtain st2 where st2: "?run () (mkRpcStream (sc_ring st1) 1 ?s ?m) st1 = SServing st2" "sunread circ_ops st2 = []"
      "sc_wire st2 = sc_wire st1 @ server_frames Little 2 9"
    using o(2-4) by (simp add: session_ok_def example_session_def example_opened) (metis append_Nil2)
  show ?thesis
    using o(1,5,6) st2 by (simp add: stream_close_def sunread_def) blast
qed

end
